theory Spec2Isabelle
  imports Main "HOL-Library.Word" "HOL-Library.Sublist"
begin

section \<open>Outcomes of a C++ call\<close>

text \<open>
  A call of the C++ code either returns, throws, trips an \<open>assert\<close>, leaves the bounds of
  a buffer through an unchecked span or index or follows a null pointer (where C++ defines
  nothing further), or does not come back from a loop. Each of them is a value.

  A data member \<open>x_\<close> of a C++ class is the field \<open>x'\<close> of its record: a name does not end with
  an underscore in Isabelle.
\<close>

datatype exn =
    runtime_error string
  | E_OUTOFMEMORY
  | FAILED_HRESULT

datatype 'a outcome =
    Returns 'a
  | Throws exn
  | AssertFails
  | UndefinedBehaviour
  | Diverges

text \<open>Sequencing: the first call that does not return ends the run.\<close>

fun bind :: "'a outcome \<Rightarrow> ('a \<Rightarrow> 'b outcome) \<Rightarrow> 'b outcome" where
  "bind (Returns x) f = f x"
| "bind (Throws e) f = Throws e"
| "bind AssertFails f = AssertFails"
| "bind UndefinedBehaviour f = UndefinedBehaviour"
| "bind Diverges f = Diverges"

definition returns :: "'a outcome \<Rightarrow> bool" where
  "returns m = (case m of Returns x \<Rightarrow> True | _ \<Rightarrow> False)"

text \<open>\<open>for (i = 0; i < n; ++i) body\<close> is \<open>for_each [0..<n] body\<close> on the state the body changes.\<close>

fun for_each :: "'i list \<Rightarrow> ('i \<Rightarrow> 's \<Rightarrow> 's outcome) \<Rightarrow> 's \<Rightarrow> 's outcome" where
  "for_each [] body s = Returns s"
| "for_each (i # rest) body s = bind (body i s) (for_each rest body)"

text \<open>Indexing a \<open>std::vector\<close> and following a \<open>unique_ptr\<close> are unchecked.\<close>

definition at :: "'a list \<Rightarrow> nat \<Rightarrow> 'a outcome" where
  "at xs i = (if i < length xs then Returns (xs ! i) else UndefinedBehaviour)"

definition put :: "'a list \<Rightarrow> nat \<Rightarrow> 'a \<Rightarrow> 'a list outcome" where
  "put xs i v = (if i < length xs then Returns (xs[i := v]) else UndefinedBehaviour)"

definition deref :: "'a option \<Rightarrow> 'a outcome" where
  "deref p = (case p of None \<Rightarrow> UndefinedBehaviour | Some v \<Rightarrow> Returns v)"

section \<open>The readback staging buffer (dml\_readback\_heap.cpp)\<close>

text \<open>\<open>size_t\<close> is 64 bits wide; \<open>newCapacity *= 2\<close> is written with its wrap-around.\<close>

definition SIZE_MAX :: nat where
  "SIZE_MAX = 2 ^ 64 - 1"

partial_function (option) ComputeNewCapacity_loop :: "nat \<Rightarrow> nat \<Rightarrow> nat outcome option" where
  "ComputeNewCapacity_loop newCapacity desiredCapacity =
     (if newCapacity < desiredCapacity then
        (if newCapacity \<ge> SIZE_MAX div 2 then Some (Throws E_OUTOFMEMORY)
         else ComputeNewCapacity_loop ((newCapacity * 2) mod 2 ^ 64) desiredCapacity)
      else Some (Returns newCapacity))"

definition ComputeNewCapacity :: "nat \<Rightarrow> nat \<Rightarrow> nat outcome" where
  "ComputeNewCapacity existingCapacity desiredCapacity =
     (case ComputeNewCapacity_loop existingCapacity desiredCapacity of
        None \<Rightarrow> Diverges
      | Some r \<Rightarrow> r)"

text \<open>
  The heap object: \<open>m_readbackHeap\<close> is the committed resource (its \<open>Width\<close>) or null,
  \<open>m_capacity\<close> the recorded capacity. \<open>CreateCommittedResource\<close> belongs to the device;
  \<open>device n\<close> tells whether it grants a buffer of \<open>n\<close> bytes.
\<close>

record DmlReadbackHeap =
  m_readbackHeap :: "nat option"
  m_capacity :: nat

definition CreateReadbackHeap :: "(nat \<Rightarrow> bool) \<Rightarrow> nat \<Rightarrow> nat outcome" where
  "CreateReadbackHeap device sz = (if device sz then Returns sz else Throws FAILED_HRESULT)"

definition EnsureReadbackHeap_check :: "DmlReadbackHeap \<Rightarrow> nat \<Rightarrow> DmlReadbackHeap outcome" where
  "EnsureReadbackHeap_check h sz =
     (case m_readbackHeap h of
        None \<Rightarrow> UndefinedBehaviour
      | Some width \<Rightarrow> if width \<ge> sz then Returns h else AssertFails)"

definition EnsureReadbackHeap ::
  "nat \<Rightarrow> (nat \<Rightarrow> bool) \<Rightarrow> DmlReadbackHeap \<Rightarrow> nat \<Rightarrow> DmlReadbackHeap outcome" where
  "EnsureReadbackHeap c_initialCapacity device h sz =
     bind
       (case m_readbackHeap h of
          None \<Rightarrow>
            if m_capacity h \<noteq> 0 then AssertFails
            else bind (ComputeNewCapacity c_initialCapacity sz) (\<lambda>cap.
                 bind (CreateReadbackHeap device cap) (\<lambda>r.
                 Returns (h\<lparr>m_capacity := cap, m_readbackHeap := Some r\<rparr>)))
        | Some old \<Rightarrow>
            if m_capacity h < sz then
              bind (ComputeNewCapacity (m_capacity h) sz) (\<lambda>cap.
              bind (CreateReadbackHeap device cap) (\<lambda>r.
              Returns (h\<lparr>m_capacity := cap, m_readbackHeap := Some r\<rparr>)))
            else Returns h)
       (\<lambda>h'. EnsureReadbackHeap_check h' sz)"

text \<open>
  The multi-region read: the commands handed to the execution context are recorded in the
  order the code issues them. \<open>totalSize\<close> and \<open>offset\<close> are \<open>uint32_t\<close>.
\<close>

datatype command =
    CopyBufferRegion nat nat nat
  | Flush
  | WaitForSignal
  | ReleaseCompletedReferences
  | MapHeap
  | Memcpy nat nat nat
  | Unmap

fun totalSize :: "32 word \<Rightarrow> 32 word list \<Rightarrow> 32 word" where
  "totalSize acc [] = acc"
| "totalSize acc (sz # dstSizes) = totalSize (acc + sz) dstSizes"

fun copy_regions :: "32 word \<Rightarrow> nat \<Rightarrow> 32 word list \<Rightarrow> command list" where
  "copy_regions offset i [] = []"
| "copy_regions offset i (sz # dstSizes) =
     CopyBufferRegion (unat offset) i (unat sz) # copy_regions (offset + sz) (Suc i) dstSizes"

fun memcpy_regions :: "32 word \<Rightarrow> nat \<Rightarrow> 32 word list \<Rightarrow> command list" where
  "memcpy_regions offset i [] = []"
| "memcpy_regions offset i (sz # dstSizes) =
     Memcpy i (unat offset) (unat sz) # memcpy_regions (offset + sz) (Suc i) dstSizes"

definition ReadbackFromGpu ::
  "nat \<Rightarrow> (nat \<Rightarrow> bool) \<Rightarrow> bool \<Rightarrow> DmlReadbackHeap \<Rightarrow> nat list \<Rightarrow> 32 word list \<Rightarrow> nat list
     \<Rightarrow> (DmlReadbackHeap \<times> command list) outcome" where
  "ReadbackFromGpu c_initialCapacity device map_ok h dst dstSizes src =
     (if length dst \<noteq> length src then AssertFails
      else if length dstSizes \<noteq> length src then AssertFails
      else if dst = [] then Returns (h, [])
      else bind (EnsureReadbackHeap c_initialCapacity device h (unat (totalSize 0 dstSizes))) (\<lambda>h'.
           if map_ok then
             Returns (h', copy_regions 0 0 dstSizes
                          @ [Flush, WaitForSignal, ReleaseCompletedReferences, MapHeap]
                          @ memcpy_regions 0 0 dstSizes @ [Unmap])
           else Throws FAILED_HRESULT))"

section \<open>Tensors, allocator, configuration\<close>

type_synonym byte = "8 word"

datatype ONNXTensorElementDataType =
    FLOAT | UINT8 | INT8 | UINT16 | INT16 | INT32 | INT64 | BOOL
  | FLOAT16 | DOUBLE | UINT32 | UINT64 | BFLOAT16

text \<open>
  \<open>SizeOf\<close> is declared outside the files at hand; its values are the widths in bytes of the ONNX
  element types.
\<close>

fun SizeOf :: "ONNXTensorElementDataType \<Rightarrow> nat" where
  "SizeOf FLOAT = 4"
| "SizeOf UINT8 = 1"
| "SizeOf INT8 = 1"
| "SizeOf UINT16 = 2"
| "SizeOf INT16 = 2"
| "SizeOf INT32 = 4"
| "SizeOf INT64 = 8"
| "SizeOf BOOL = 1"
| "SizeOf FLOAT16 = 2"
| "SizeOf DOUBLE = 8"
| "SizeOf UINT32 = 4"
| "SizeOf UINT64 = 8"
| "SizeOf BFLOAT16 = 2"

text \<open>
  A tensor is its allocation (\<open>address\<close>, what a raw \<open>OrtValue*\<close> compares by), its shape
  (\<open>int64_t\<close> dimensions), its element type and its bytes.
\<close>

record OrtValue =
  address :: nat
  tensor_shape :: "int list"
  tensor_type :: ONNXTensorElementDataType
  tensor_data :: "byte list"

record Allocator =
  next_address :: nat
  memory :: "nat \<Rightarrow> nat \<Rightarrow> byte"

definition ElementCountFromShape :: "int list \<Rightarrow> int" where
  "ElementCountFromShape shape = foldl (*) 1 shape"

text \<open>
  Modelled from the spec: \<open>OrtValue::CreateTensor\<close> (the Tensor Allocator Adapter, declared
  outside the files at hand): given a shape and element type, produces an owned, ready-to-use
  buffer. The buffer is a new allocation of \<open>SizeOf\<close> bytes per element; before the first write
  it holds whatever the allocator's memory holds there.
\<close>

definition CreateTensor ::
  "Allocator \<Rightarrow> int list \<Rightarrow> ONNXTensorElementDataType \<Rightarrow> OrtValue \<times> Allocator" where
  "CreateTensor a shape ty =
     (\<lparr>address = next_address a, tensor_shape = shape, tensor_type = ty,
       tensor_data = map (memory a (next_address a))
                         [0..<SizeOf ty * nat (ElementCountFromShape shape)]\<rparr>,
      a\<lparr>next_address := Suc (next_address a)\<rparr>)"

text \<open>
  Modelled from the spec: \<open>CreateTensorOnStaticBuffer\<close> (\<open>create_tensor_on_static_backing\<close>,
  declared outside the files at hand): the tensor lies on the preallocated backing buffer.
\<close>

definition CreateTensorOnStaticBuffer ::
  "Allocator \<Rightarrow> nat \<Rightarrow> int list \<Rightarrow> ONNXTensorElementDataType \<Rightarrow> OrtValue" where
  "CreateTensorOnStaticBuffer a backing shape ty =
     \<lparr>address = backing, tensor_shape = shape, tensor_type = ty,
      tensor_data = map (memory a backing) [0..<SizeOf ty * nat (ElementCountFromShape shape)]\<rparr>"

record Config =
  model_type :: string
  context_length :: int
  num_hidden_layers :: nat
  num_key_value_heads :: int
  head_size :: int
  past_names :: string
  present_names :: string
  past_key_names :: string
  past_value_names :: string
  present_key_names :: string
  present_value_names :: string
  cross_past_key_names :: string
  cross_past_value_names :: string
  cross_present_key_names :: string
  cross_present_value_names :: string
  sliding_window_size :: int
  sliding_pad_value :: int

record GeneratorParams =
  batch_size :: int
  sequence_length :: int
  search_num_beams :: int
  search_max_length :: int
  search_past_present_share_buffer :: bool

text \<open>
  Modelled from the spec: \<open>BatchBeamSize\<close> (declared outside the files at hand) is
  \<open>batch_size \<times> beam_width\<close>.
\<close>

definition BatchBeamSize :: "GeneratorParams \<Rightarrow> int" where
  "BatchBeamSize p = batch_size p * search_num_beams p"

record Model =
  config' :: Config
  session_info' :: "string \<rightharpoonup> ONNXTensorElementDataType"
  allocator_kvcache' :: Allocator
  allocator_device' :: Allocator

text \<open>
  The execution request: raw tensor pointers (\<open>None\<close> is \<open>nullptr\<close>) and names, and the static
  buffers of a captured graph when there is one.
\<close>

record State =
  params' :: GeneratorParams
  inputs' :: "nat option list"
  input_names' :: "string list"
  outputs' :: "nat option list"
  output_names' :: "string list"
  captured_graph_info' :: "nat list option"

definition get :: "OrtValue option \<Rightarrow> nat option" where
  "get p = map_option address p"

text \<open>
  Modelled from the spec: \<open>GetInputDataType\<close> and \<open>HasInput\<close> of the session (declared outside
  the files at hand): the execution collaborator's declared input type for a name; a name it does
  not declare has none.
\<close>

definition GetInputDataType ::
  "(string \<rightharpoonup> ONNXTensorElementDataType) \<Rightarrow> string \<Rightarrow> ONNXTensorElementDataType outcome" where
  "GetInputDataType si name =
     (case si name of
        None \<Rightarrow> Throws (runtime_error (''Input name not found: '' @ name))
      | Some ty \<Rightarrow> Returns ty)"

definition HasInput :: "(string \<rightharpoonup> ONNXTensorElementDataType) \<Rightarrow> string \<Rightarrow> bool" where
  "HasInput si name = (si name \<noteq> None)"

text \<open>The global log: \<open>g_log.enabled\<close>, \<open>g_log.warning\<close>, and what \<open>Log\<close> has written.\<close>

record LogState =
  enabled :: bool
  warning :: bool
  written :: "(string \<times> string) list"

definition Log :: "string \<Rightarrow> string \<Rightarrow> LogState \<Rightarrow> LogState" where
  "Log label text g = g\<lparr>written := written g @ [(label, text)]\<rparr>"

section \<open>Slot names\<close>

text \<open>
  \<open>snprintf\<close> is the C library's. The model covers the templates made of literal characters,
  \<open>%%\<close> and one \<open>%d\<close> for the layer index; on any other conversion it gives \<open>None\<close>, which
  \<open>ComposeKeyValueName\<close> treats as the failed (negative) return.
\<close>

function decimal :: "nat \<Rightarrow> string" where
  "decimal n =
     (if n < 10 then [''0123456789'' ! n] else decimal (n div 10) @ [''0123456789'' ! (n mod 10)])"
  by pat_completeness auto
termination
  by (relation "measure id") auto

declare decimal.simps [simp del]

definition print_int :: "int \<Rightarrow> string" where
  "print_int i = (if i < 0 then CHR ''-'' # decimal (nat (- i)) else decimal (nat i))"

fun snprintf :: "string \<Rightarrow> int \<Rightarrow> bool \<Rightarrow> string option" where
  "snprintf [] index used = Some []"
| "snprintf [c] index used = (if c = CHR ''%'' then None else Some [c])"
| "snprintf (c # d # rest) index used =
     (if c \<noteq> CHR ''%'' then map_option ((#) c) (snprintf (d # rest) index used)
      else if d = CHR ''%'' then map_option ((#) CHR ''%'') (snprintf rest index used)
      else if d = CHR ''d'' \<and> \<not> used then map_option ((@) (print_int index)) (snprintf rest index True)
      else None)"

definition KeyValueNameLength :: nat where
  "KeyValueNameLength = 64"

definition ComposeKeyValueName :: "string \<Rightarrow> int \<Rightarrow> string outcome" where
  "ComposeKeyValueName template_string index =
     (case snprintf template_string index False of
        None \<Rightarrow>
          Throws (runtime_error (''Unable to compose key value name from the provided template ''
            @ template_string
            @ ''. This could be either due to an encoding error or the name being too long.''))
      | Some key_value_name \<Rightarrow>
          if length key_value_name \<ge> KeyValueNameLength then
            Throws (runtime_error (''Unable to compose key value name from the provided template ''
              @ template_string
              @ ''. This could be either due to an encoding error or the name being too long.''))
          else Returns key_value_name)"

section \<open>Spans over tensor bytes\<close>

definition slice :: "'a list \<Rightarrow> nat \<Rightarrow> nat \<Rightarrow> 'a list" where
  "slice xs off n = take n (drop off xs)"

definition store :: "'a list \<Rightarrow> nat \<Rightarrow> 'a list \<Rightarrow> 'a list" where
  "store xs off ys = take off xs @ ys @ drop (off + length ys) xs"

text \<open>
  A \<open>std::span<ScoreType>\<close> of \<open>element_count\<close> elements laid over the bytes of a tensor, each
  element \<open>width\<close> bytes. \<open>subspan(off, n)\<close> is unchecked: it is within the span and within the
  tensor's bytes, or the behaviour is undefined. \<open>copy\<close> writes the source elements over the
  destination elements.
\<close>

definition subspan_ok :: "nat \<Rightarrow> byte list \<Rightarrow> int \<Rightarrow> int \<Rightarrow> int \<Rightarrow> bool" where
  "subspan_ok width buf element_count off n \<longleftrightarrow>
     0 \<le> off \<and> 0 \<le> n \<and> off + n \<le> element_count \<and> int width * (off + n) \<le> int (length buf)"

definition copy :: "nat \<Rightarrow> byte list \<Rightarrow> int \<Rightarrow> int \<Rightarrow> byte list \<Rightarrow> int \<Rightarrow> byte list" where
  "copy width src soff n dst doff =
     store dst (width * nat doff) (slice src (width * nat soff) (width * nat n))"

section \<open>The combined and the split cache (kv\_cache.cpp)\<close>

text \<open>
  \<open>KV_Cache_Combined\<close> and \<open>KV_Cache\<close> have the same members; \<open>KV_Cache\<close> adds the shared-buffer
  flag and the static buffers. \<open>state_\<close> and \<open>model_\<close> are the references the cache holds;
  \<open>input_index_\<close> and \<open>output_index_\<close> have no value before \<open>Add\<close>.
\<close>

record KV_Cache_Combined =
  state' :: State
  model' :: Model
  layer_count' :: nat
  shape' :: "int list"
  type' :: ONNXTensorElementDataType
  empty_past' :: "OrtValue option"
  pasts' :: "OrtValue option list"
  presents' :: "OrtValue option list"
  input_name_strings' :: "string list"
  output_name_strings' :: "string list"
  input_index' :: "nat option"
  output_index' :: "nat option"

record KV_Cache = KV_Cache_Combined +
  past_present_share_buffer' :: bool
  sb_kv_caches' :: "nat list"

definition create_presents ::
  "nat \<Rightarrow> int list \<Rightarrow> ONNXTensorElementDataType \<Rightarrow> Allocator \<Rightarrow> (OrtValue option list \<times> Allocator) outcome" where
  "create_presents n shape ty a =
     for_each [0..<n]
       (\<lambda>i (presents, a). case CreateTensor a shape ty of (t, a') \<Rightarrow> Returns (presents @ [Some t], a'))
       ([], a)"

definition KV_Cache_Combined_ctor :: "State \<Rightarrow> Model \<Rightarrow> KV_Cache_Combined outcome" where
  "KV_Cache_Combined_ctor state model =
     (let decoder = config' model;
          layer_count = num_hidden_layers decoder;
          shape = [2, BatchBeamSize (params' state), num_key_value_heads decoder, 0, head_size decoder]
      in
      bind (for_each [0..<layer_count]
              (\<lambda>i (ins, outs).
                 bind (ComposeKeyValueName (past_names decoder) (int i)) (\<lambda>past_name.
                 bind (ComposeKeyValueName (present_names decoder) (int i)) (\<lambda>present_name.
                 Returns (ins @ [past_name], outs @ [present_name]))))
              ([], [])) (\<lambda>(ins, outs).
      bind (at ins 0) (\<lambda>name0.
      bind (GetInputDataType (session_info' model) name0) (\<lambda>ty.
      case CreateTensor (allocator_kvcache' model) shape ty of (empty_past, a1) \<Rightarrow>
      bind (create_presents layer_count (shape[3 := sequence_length (params' state)]) ty a1)
        (\<lambda>(presents, a2).
      Returns \<lparr>state' = state, model' = model\<lparr>allocator_kvcache' := a2\<rparr>,
               layer_count' = layer_count,
               shape' = shape[3 := sequence_length (params' state)],
               type' = ty, empty_past' = Some empty_past,
               pasts' = replicate layer_count None, presents' = presents,
               input_name_strings' = ins, output_name_strings' = outs,
               input_index' = None, output_index' = None\<rparr>)))))"

definition KV_Cache_Combined_Add :: "KV_Cache_Combined \<Rightarrow> KV_Cache_Combined outcome" where
  "KV_Cache_Combined_Add c =
     for_each [0..<layer_count' c]
       (\<lambda>i c.
          bind (at (input_name_strings' c) i) (\<lambda>input_name.
          bind (at (presents' c) i) (\<lambda>present.
          bind (at (output_name_strings' c) i) (\<lambda>output_name.
          Returns (c\<lparr>state' := (state' c)
            \<lparr>inputs' := inputs' (state' c) @ [get (empty_past' c)],
             input_names' := input_names' (state' c) @ [input_name],
             outputs' := outputs' (state' c) @ [get present],
             output_names' := output_names' (state' c) @ [output_name]\<rparr>\<rparr>)))))
       (c\<lparr>input_index' := Some (length (inputs' (state' c))),
          output_index' := Some (length (outputs' (state' c)))\<rparr>)"

text \<open>
  \<open>PickPastState<ScoreType>\<close>: \<open>width\<close> is \<open>sizeof(ScoreType)\<close>. The loop is the host path; with
  CUDA the same regions are handed to \<open>cudaMemcpyAsync\<close>.
\<close>

fun PickPastState_loop_Combined ::
  "nat \<Rightarrow> int \<Rightarrow> int \<Rightarrow> int \<Rightarrow> byte list \<Rightarrow> int list \<Rightarrow> int \<Rightarrow> byte list \<Rightarrow> byte list outcome" where
  "PickPastState_loop_Combined width block_size_per_beam past_key_size element_count present [] j past =
     Returns past"
| "PickPastState_loop_Combined width block_size_per_beam past_key_size element_count present
       (beam_index # beam_indices) j past =
     (if subspan_ok width present element_count (beam_index * block_size_per_beam) block_size_per_beam \<and>
         subspan_ok width present element_count
           (past_key_size + beam_index * block_size_per_beam) block_size_per_beam \<and>
         subspan_ok width past element_count (j * block_size_per_beam) block_size_per_beam \<and>
         subspan_ok width past element_count (past_key_size + j * block_size_per_beam) block_size_per_beam
      then
        PickPastState_loop_Combined width block_size_per_beam past_key_size element_count present
          beam_indices (j + 1)
          (copy width present (past_key_size + beam_index * block_size_per_beam) block_size_per_beam
             (copy width present (beam_index * block_size_per_beam) block_size_per_beam
                past (j * block_size_per_beam))
             (past_key_size + j * block_size_per_beam))
      else UndefinedBehaviour)"

definition PickPastState_T_Combined ::
  "nat \<Rightarrow> ONNXTensorElementDataType \<Rightarrow> KV_Cache_Combined \<Rightarrow> int list \<Rightarrow> nat \<Rightarrow> KV_Cache_Combined outcome" where
  "PickPastState_T_Combined width ScoreType c beam_indices index =
     (let block_size_per_beam = shape' c ! 2 * shape' c ! 3 * shape' c ! 4;
          past_key_size = shape' c ! 1 * block_size_per_beam;
          element_count = shape' c ! 0 * past_key_size
      in
      bind (at (presents' c) index) (\<lambda>p.
      bind (deref p) (\<lambda>present.
      case CreateTensor (allocator_kvcache' (model' c)) (shape' c) ScoreType of (past, a) \<Rightarrow>
      bind (PickPastState_loop_Combined width block_size_per_beam past_key_size element_count
              (tensor_data present) beam_indices 0 (tensor_data past)) (\<lambda>past_data.
      bind (put (pasts' c) index (Some (past\<lparr>tensor_data := past_data\<rparr>))) (\<lambda>pasts.
      Returns (c\<lparr>pasts' := pasts, model' := (model' c)\<lparr>allocator_kvcache' := a\<rparr>\<rparr>))))))"

definition PickPastState_Combined ::
  "KV_Cache_Combined \<Rightarrow> int list \<Rightarrow> nat \<Rightarrow> KV_Cache_Combined outcome" where
  "PickPastState_Combined c beam_indices index =
     (if type' c = FLOAT then PickPastState_T_Combined 4 FLOAT c beam_indices index
      else PickPastState_T_Combined 2 FLOAT16 c beam_indices index)"

definition KV_Cache_Combined_Update ::
  "KV_Cache_Combined \<Rightarrow> int list \<Rightarrow> int \<Rightarrow> KV_Cache_Combined outcome" where
  "KV_Cache_Combined_Update c beam_indices current_length =
     (if \<not> (search_num_beams (params' (state' c)) = 1 \<or> beam_indices \<noteq> []) then AssertFails
      else
      bind (for_each [0..<layer_count' c]
              (\<lambda>i c.
                 if beam_indices = [] then
                   bind (at (presents' c) i) (\<lambda>present.
                   bind (put (pasts' c) i present) (\<lambda>pasts.
                   bind (put (presents' c) i None) (\<lambda>presents.
                   Returns (c\<lparr>pasts' := pasts, presents' := presents\<rparr>))))
                 else PickPastState_Combined c beam_indices i)
              c) (\<lambda>c.
      for_each [0..<layer_count' c]
        (\<lambda>i c.
           case CreateTensor (allocator_kvcache' (model' c)) (shape' c) (type' c) of (present, a) \<Rightarrow>
           bind (put (presents' c) i (Some present)) (\<lambda>presents.
           bind (deref (input_index' c)) (\<lambda>input_index.
           bind (at (pasts' c) i) (\<lambda>past.
           bind (put (inputs' (state' c)) (input_index + i) (get past)) (\<lambda>inputs.
           bind (deref (output_index' c)) (\<lambda>output_index.
           bind (put (outputs' (state' c)) (output_index + i) (get (Some present))) (\<lambda>outputs.
           Returns (c\<lparr>presents' := presents,
                      model' := (model' c)\<lparr>allocator_kvcache' := a\<rparr>,
                      state' := (state' c)\<lparr>inputs' := inputs, outputs' := outputs\<rparr>\<rparr>))))))))
        (c\<lparr>shape' := (shape' c)[3 := current_length]\<rparr>)))"

definition IsCacheNeeded :: "Model \<Rightarrow> bool outcome" where
  "IsCacheNeeded model =
     bind (ComposeKeyValueName (past_key_names (config' model)) 0) (\<lambda>name.
     Returns (HasInput (session_info' model) name))"

definition memset :: "byte list \<Rightarrow> int \<Rightarrow> byte list outcome" where
  "memset buf n =
     (if 0 \<le> n \<and> n \<le> int (length buf) then Returns (replicate (nat n) 0 @ drop (nat n) buf)
      else UndefinedBehaviour)"

definition share_buffer_warning :: string where
  "share_buffer_warning =
     ''past_present_share_buffer search option set to true, but has been disabled due to the current configuration. See https://aka.ms/generate_config for details''"

definition KV_Cache_ctor :: "State \<Rightarrow> Model \<Rightarrow> LogState \<Rightarrow> (KV_Cache \<times> LogState) outcome" where
  "KV_Cache_ctor state model g_log =
     (let decoder = config' model;
          search_share = search_past_present_share_buffer (params' state);
          layer_count = num_hidden_layers decoder;
          past_present_share_buffer =
            (search_share \<and> (search_num_beams (params' state) = 1 \<or> model_type decoder = ''whisper''));
          shape = [BatchBeamSize (params' state), num_key_value_heads decoder, 0, head_size decoder];
          g_log1 = (if enabled g_log \<and> warning g_log \<and> past_present_share_buffer \<noteq> search_share
                    then Log ''warning'' share_buffer_warning g_log else g_log)
      in
      bind (for_each [0..<layer_count]
              (\<lambda>i (ins, outs).
                 bind (ComposeKeyValueName (past_key_names decoder) (int i)) (\<lambda>past_key.
                 bind (ComposeKeyValueName (past_value_names decoder) (int i)) (\<lambda>past_value.
                 bind (ComposeKeyValueName (present_key_names decoder) (int i)) (\<lambda>present_key.
                 bind (ComposeKeyValueName (present_value_names decoder) (int i)) (\<lambda>present_value.
                 Returns (ins @ [past_key, past_value], outs @ [present_key, present_value]))))))
              ([], [])) (\<lambda>(ins, outs).
      bind (at ins 0) (\<lambda>name0.
      bind (GetInputDataType (session_info' model) name0) (\<lambda>ty.
      case CreateTensor (allocator_kvcache' model) shape ty of (empty_past, a1) \<Rightarrow>
      let shape2 = shape[2 := (if past_present_share_buffer then search_max_length (params' state)
                               else sequence_length (params' state))]
      in
      bind (case captured_graph_info' state of
              None \<Rightarrow> Returns []
            | Some static_buffers \<Rightarrow>
                if \<not> past_present_share_buffer then AssertFails
                else for_each [0..<layer_count * 2]
                       (\<lambda>i sb. bind (at static_buffers i) (\<lambda>b. Returns (sb @ [b]))) []) (\<lambda>sb.
      let kv_cache_size_bytes = int (SizeOf ty) * shape2 ! 0 * shape2 ! 1 * shape2 ! 2 * shape2 ! 3
      in
      bind (for_each [0..<layer_count * 2]
              (\<lambda>i (presents, a).
                 bind (if sb = [] then Returns (CreateTensor a shape2 ty)
                       else bind (at sb i) (\<lambda>b. Returns (CreateTensorOnStaticBuffer a b shape2 ty, a)))
                   (\<lambda>(t, a').
                 bind (memset (tensor_data t) kv_cache_size_bytes) (\<lambda>zeroed.
                 Returns (presents @ [Some (t\<lparr>tensor_data := zeroed\<rparr>)], a'))))
              ([], a1)) (\<lambda>(presents, a2).
      Returns (\<lparr>state' = state, model' = model\<lparr>allocator_kvcache' := a2\<rparr>,
                layer_count' = layer_count, shape' = shape2,
                type' = ty, empty_past' = Some empty_past,
                pasts' = replicate (layer_count * 2) None, presents' = presents,
                input_name_strings' = ins, output_name_strings' = outs,
                input_index' = None, output_index' = None,
                past_present_share_buffer' = past_present_share_buffer,
                sb_kv_caches' = sb\<rparr>, g_log1)))))))"

definition KV_Cache_AddEncoder :: "KV_Cache \<Rightarrow> KV_Cache outcome" where
  "KV_Cache_AddEncoder c =
     for_each [0..<layer_count' c * 2]
       (\<lambda>i c.
          bind (at (presents' c) i) (\<lambda>present.
          bind (at (output_name_strings' c) i) (\<lambda>output_name.
          Returns (c\<lparr>state' := (state' c)
            \<lparr>outputs' := outputs' (state' c) @ [get present],
             output_names' := output_names' (state' c) @ [output_name]\<rparr>\<rparr>))))
       c"

definition KV_Cache_Add :: "KV_Cache \<Rightarrow> KV_Cache outcome" where
  "KV_Cache_Add c =
     bind (for_each [0..<layer_count' c * 2]
       (\<lambda>i c.
          bind (at (input_name_strings' c) i) (\<lambda>input_name.
          bind (at (presents' c) i) (\<lambda>present.
          bind (at (output_name_strings' c) i) (\<lambda>output_name.
          Returns (c\<lparr>state' := (state' c)
            \<lparr>inputs' := inputs' (state' c) @ [get (empty_past' c)],
             input_names' := input_names' (state' c) @ [input_name],
             outputs' := outputs' (state' c) @ [get present],
             output_names' := output_names' (state' c) @ [output_name]\<rparr>\<rparr>)))))
       (c\<lparr>input_index' := Some (length (inputs' (state' c))),
          output_index' := Some (length (outputs' (state' c)))\<rparr>)) (\<lambda>c.
     if past_present_share_buffer' c then
       for_each [0..<layer_count' c * 2]
         (\<lambda>i c.
            bind (deref (input_index' c)) (\<lambda>input_index.
            bind (at (presents' c) i) (\<lambda>present.
            bind (put (inputs' (state' c)) (input_index + i) (get present)) (\<lambda>inputs.
            Returns (c\<lparr>state' := (state' c)\<lparr>inputs' := inputs\<rparr>\<rparr>)))))
         c
     else Returns c)"

fun PickPastState_loop ::
  "nat \<Rightarrow> int \<Rightarrow> int \<Rightarrow> byte list \<Rightarrow> int list \<Rightarrow> int \<Rightarrow> byte list \<Rightarrow> byte list outcome" where
  "PickPastState_loop width block_size_per_beam element_count present [] j past = Returns past"
| "PickPastState_loop width block_size_per_beam element_count present (beam_index # beam_indices) j past =
     (if subspan_ok width present element_count (beam_index * block_size_per_beam) block_size_per_beam \<and>
         subspan_ok width past element_count (j * block_size_per_beam) block_size_per_beam
      then
        PickPastState_loop width block_size_per_beam element_count present beam_indices (j + 1)
          (copy width present (beam_index * block_size_per_beam) block_size_per_beam
             past (j * block_size_per_beam))
      else UndefinedBehaviour)"

definition PickPastState_T ::
  "nat \<Rightarrow> ONNXTensorElementDataType \<Rightarrow> KV_Cache \<Rightarrow> int list \<Rightarrow> nat \<Rightarrow> KV_Cache outcome" where
  "PickPastState_T width ScoreType c beam_indices index =
     (let block_size_per_beam = shape' c ! 1 * shape' c ! 2 * shape' c ! 3;
          element_count = shape' c ! 0 * block_size_per_beam
      in
      bind (at (presents' c) index) (\<lambda>p.
      bind (deref p) (\<lambda>present_value.
      case CreateTensor (allocator_kvcache' (model' c)) (shape' c) ScoreType of (past_value, a) \<Rightarrow>
      bind (PickPastState_loop width block_size_per_beam element_count
              (tensor_data present_value) beam_indices 0 (tensor_data past_value)) (\<lambda>past_data.
      bind (put (pasts' c) index (Some (past_value\<lparr>tensor_data := past_data\<rparr>))) (\<lambda>pasts.
      Returns (c\<lparr>pasts' := pasts, model' := (model' c)\<lparr>allocator_kvcache' := a\<rparr>\<rparr>))))))"

definition PickPastState :: "KV_Cache \<Rightarrow> int list \<Rightarrow> nat \<Rightarrow> KV_Cache outcome" where
  "PickPastState c beam_indices index =
     (if type' c = FLOAT then PickPastState_T 4 FLOAT c beam_indices index
      else PickPastState_T 2 FLOAT16 c beam_indices index)"

definition KV_Cache_Update :: "KV_Cache \<Rightarrow> int list \<Rightarrow> int \<Rightarrow> KV_Cache outcome" where
  "KV_Cache_Update c beam_indices current_length =
     (if past_present_share_buffer' c then Returns c
      else
      bind (for_each [0..<layer_count' c * 2]
              (\<lambda>i c.
                 bind (if beam_indices = [] then
                         bind (at (presents' c) i) (\<lambda>present.
                         bind (put (pasts' c) i present) (\<lambda>pasts.
                         bind (put (presents' c) i None) (\<lambda>presents.
                         Returns (c\<lparr>pasts' := pasts, presents' := presents\<rparr>))))
                       else PickPastState c beam_indices i) (\<lambda>c.
                 bind (deref (input_index' c)) (\<lambda>input_index.
                 bind (at (pasts' c) i) (\<lambda>past.
                 bind (put (inputs' (state' c)) (input_index + i) (get past)) (\<lambda>inputs.
                 Returns (c\<lparr>state' := (state' c)\<lparr>inputs' := inputs\<rparr>\<rparr>))))))
              c) (\<lambda>c.
      for_each [0..<layer_count' c * 2]
        (\<lambda>i c.
           case CreateTensor (allocator_kvcache' (model' c)) (shape' c) (type' c) of (present, a) \<Rightarrow>
           bind (put (presents' c) i (Some present)) (\<lambda>presents.
           bind (deref (output_index' c)) (\<lambda>output_index.
           bind (put (outputs' (state' c)) (output_index + i) (get (Some present))) (\<lambda>outputs.
           Returns (c\<lparr>presents' := presents,
                      model' := (model' c)\<lparr>allocator_kvcache' := a\<rparr>,
                      state' := (state' c)\<lparr>outputs' := outputs\<rparr>\<rparr>)))))
        (c\<lparr>shape' := (shape' c)[2 := current_length]\<rparr>)))"

section \<open>The cross-attention cache\<close>

record Cross_Cache =
  cross_state' :: State
  cross_model' :: Model
  cross_layer_count' :: nat
  cross_shape' :: "int list"
  cross_type' :: ONNXTensorElementDataType
  values' :: "OrtValue option list"
  cross_input_name_strings' :: "string list"
  cross_output_name_strings' :: "string list"

definition Cross_Cache_ctor :: "State \<Rightarrow> Model \<Rightarrow> Cross_Cache outcome" where
  "Cross_Cache_ctor state model =
     (let decoder = config' model;
          layer_count = num_hidden_layers decoder;
          shape = [BatchBeamSize (params' state), num_key_value_heads decoder, 1500, head_size decoder]
      in
      bind (for_each [0..<layer_count]
              (\<lambda>i (ins, outs).
                 bind (ComposeKeyValueName (cross_past_key_names decoder) (int i)) (\<lambda>past_key.
                 bind (ComposeKeyValueName (cross_past_value_names decoder) (int i)) (\<lambda>past_value.
                 bind (ComposeKeyValueName (cross_present_key_names decoder) (int i)) (\<lambda>present_key.
                 bind (ComposeKeyValueName (cross_present_value_names decoder) (int i)) (\<lambda>present_value.
                 Returns (ins @ [past_key, past_value], outs @ [present_key, present_value]))))))
              ([], [])) (\<lambda>(ins, outs).
      bind (at ins 0) (\<lambda>name0.
      bind (GetInputDataType (session_info' model) name0) (\<lambda>ty.
      bind (for_each [0..<layer_count]
              (\<lambda>i (vals, a).
                 case CreateTensor a shape ty of (key, a') \<Rightarrow>
                 case CreateTensor a' shape ty of (val, a'') \<Rightarrow>
                 Returns (vals @ [Some key, Some val], a''))
              ([], allocator_kvcache' model)) (\<lambda>(vals, a).
      Returns \<lparr>cross_state' = state, cross_model' = model\<lparr>allocator_kvcache' := a\<rparr>,
               cross_layer_count' = layer_count, cross_shape' = shape, cross_type' = ty,
               values' = vals,
               cross_input_name_strings' = ins, cross_output_name_strings' = outs\<rparr>)))))"

definition Cross_Cache_AddOutputs :: "Cross_Cache \<Rightarrow> Cross_Cache outcome" where
  "Cross_Cache_AddOutputs c =
     for_each [0..<cross_layer_count' c * 2]
       (\<lambda>i c.
          bind (at (values' c) i) (\<lambda>v.
          bind (at (cross_output_name_strings' c) i) (\<lambda>output_name.
          Returns (c\<lparr>cross_state' := (cross_state' c)
            \<lparr>outputs' := outputs' (cross_state' c) @ [get v],
             output_names' := output_names' (cross_state' c) @ [output_name]\<rparr>\<rparr>))))
       c"

definition Cross_Cache_AddInputs :: "Cross_Cache \<Rightarrow> Cross_Cache outcome" where
  "Cross_Cache_AddInputs c =
     for_each [0..<cross_layer_count' c * 2]
       (\<lambda>i c.
          bind (at (values' c) i) (\<lambda>v.
          bind (at (cross_input_name_strings' c) i) (\<lambda>input_name.
          Returns (c\<lparr>cross_state' := (cross_state' c)
            \<lparr>inputs' := inputs' (cross_state' c) @ [get v],
             input_names' := input_names' (cross_state' c) @ [input_name]\<rparr>\<rparr>))))
       c"

section \<open>The sliding-window cache\<close>

text \<open>
  \<open>cpu_span<uint8_t>(p + off, n)\<close> followed by \<open>std::copy(src.begin(), src.end(), dst.begin())\<close>:
  both spans are unchecked, and the copy writes as many bytes as the source span has. The source
  bytes are read before the write, which is what the forward copy gives when the destination
  starts before the source, as it does in \<open>Slide\<close>.
\<close>

definition span_ok :: "byte list \<Rightarrow> int \<Rightarrow> int \<Rightarrow> bool" where
  "span_ok buf off n \<longleftrightarrow> 0 \<le> off \<and> 0 \<le> n \<and> off + n \<le> int (length buf)"

definition std_copy :: "byte list \<Rightarrow> int \<Rightarrow> int \<Rightarrow> byte list \<Rightarrow> int \<Rightarrow> int \<Rightarrow> byte list outcome" where
  "std_copy src soff sn dst doff dn =
     (if span_ok src soff sn \<and> span_ok dst doff dn \<and> span_ok dst doff sn
      then Returns (store dst (nat doff) (slice src (nat soff) (nat sn)))
      else UndefinedBehaviour)"

record SlidingWindowKeyValueCache =
  sw_state' :: State
  sw_model' :: Model
  sw_layer_count' :: nat
  window_size' :: int
  key_cache_shape_in' :: "int list"
  key_cache_shape_out' :: "int list"
  value_cache_shape_in' :: "int list"
  value_cache_shape_out' :: "int list"
  sw_type' :: ONNXTensorElementDataType
  key_caches_in' :: "OrtValue option list"
  key_caches_out' :: "OrtValue option list"
  value_caches_in' :: "OrtValue option list"
  value_caches_out' :: "OrtValue option list"
  sw_input_name_strings' :: "string list"
  sw_output_name_strings' :: "string list"
  sw_input_index' :: "nat option"
  sw_output_index' :: "nat option"

definition fill_n :: "byte list \<Rightarrow> int \<Rightarrow> byte \<Rightarrow> byte list outcome" where
  "fill_n buf n v =
     (if n \<le> 0 then Returns buf
      else if n \<le> int (length buf) then Returns (replicate (nat n) v @ drop (nat n) buf)
      else UndefinedBehaviour)"

definition SlidingWindowKeyValueCache_ctor :: "State \<Rightarrow> Model \<Rightarrow> SlidingWindowKeyValueCache outcome" where
  "SlidingWindowKeyValueCache_ctor state model =
     (let decoder = config' model;
          layer_count = num_hidden_layers decoder;
          window_size = sliding_window_size decoder;
          key_cache_shape_in = [num_key_value_heads decoder, 1, head_size decoder,
                                context_length decoder - window_size];
          key_cache_shape_out = [num_key_value_heads decoder, 1, head_size decoder, window_size];
          value_cache_shape_in = [num_key_value_heads decoder, 1,
                                  context_length decoder - window_size, head_size decoder];
          value_cache_shape_out = [num_key_value_heads decoder, 1, window_size, head_size decoder];
          pad = (word_of_int (sliding_pad_value decoder) :: byte)
      in
      bind (for_each [0..<layer_count]
              (\<lambda>i (ins, outs).
                 bind (ComposeKeyValueName (past_key_names decoder) (int i)) (\<lambda>past_key.
                 bind (ComposeKeyValueName (past_value_names decoder) (int i)) (\<lambda>past_value.
                 bind (ComposeKeyValueName (present_key_names decoder) (int i)) (\<lambda>present_key.
                 bind (ComposeKeyValueName (present_value_names decoder) (int i)) (\<lambda>present_value.
                 Returns (ins @ [past_key, past_value], outs @ [present_key, present_value]))))))
              ([], [])) (\<lambda>(ins, outs).
      bind (at ins 0) (\<lambda>name0.
      bind (GetInputDataType (session_info' model) name0) (\<lambda>ty.
      if ty \<noteq> UINT8 then
        Throws (runtime_error
          (''Expected input data type to be uint8_t for SlidingWindowKeyValueCache. Actual: ''
             @ print_int (case ty of FLOAT \<Rightarrow> 1 | UINT8 \<Rightarrow> 2 | INT8 \<Rightarrow> 3 | UINT16 \<Rightarrow> 4 | INT16 \<Rightarrow> 5
                 | INT32 \<Rightarrow> 6 | INT64 \<Rightarrow> 7 | BOOL \<Rightarrow> 9 | FLOAT16 \<Rightarrow> 10 | DOUBLE \<Rightarrow> 11
                 | UINT32 \<Rightarrow> 12 | UINT64 \<Rightarrow> 13 | BFLOAT16 \<Rightarrow> 16)))
      else
      bind (for_each [0..<layer_count]
              (\<lambda>i (kin, vin, kout, vout, a).
                 case CreateTensor a key_cache_shape_in ty of (key_in, a1) \<Rightarrow>
                 bind (fill_n (tensor_data key_in) (ElementCountFromShape key_cache_shape_in) pad)
                   (\<lambda>key_in_data.
                 case CreateTensor a1 value_cache_shape_in ty of (value_in, a2) \<Rightarrow>
                 bind (fill_n (tensor_data value_in) (ElementCountFromShape value_cache_shape_in) pad)
                   (\<lambda>value_in_data.
                 case CreateTensor a2 key_cache_shape_out ty of (key_out, a3) \<Rightarrow>
                 case CreateTensor a3 value_cache_shape_out ty of (value_out, a4) \<Rightarrow>
                 Returns (kin @ [Some (key_in\<lparr>tensor_data := key_in_data\<rparr>)],
                          vin @ [Some (value_in\<lparr>tensor_data := value_in_data\<rparr>)],
                          kout @ [Some key_out], vout @ [Some value_out], a4))))
              ([], [], [], [], allocator_device' model)) (\<lambda>(kin, vin, kout, vout, a).
      Returns \<lparr>sw_state' = state, sw_model' = model\<lparr>allocator_device' := a\<rparr>,
               sw_layer_count' = layer_count, window_size' = window_size,
               key_cache_shape_in' = key_cache_shape_in, key_cache_shape_out' = key_cache_shape_out,
               value_cache_shape_in' = value_cache_shape_in,
               value_cache_shape_out' = value_cache_shape_out,
               sw_type' = ty,
               key_caches_in' = kin, key_caches_out' = kout,
               value_caches_in' = vin, value_caches_out' = vout,
               sw_input_name_strings' = ins, sw_output_name_strings' = outs,
               sw_input_index' = None, sw_output_index' = None\<rparr>)))))"

definition SlidingWindowKeyValueCache_Add ::
  "SlidingWindowKeyValueCache \<Rightarrow> SlidingWindowKeyValueCache outcome" where
  "SlidingWindowKeyValueCache_Add c =
     for_each [0..<sw_layer_count' c]
       (\<lambda>layer_idx c.
          bind (at (key_caches_in' c) layer_idx) (\<lambda>key_in.
          bind (at (sw_input_name_strings' c) (2 * layer_idx)) (\<lambda>key_in_name.
          bind (at (value_caches_in' c) layer_idx) (\<lambda>value_in.
          bind (at (sw_input_name_strings' c) (2 * layer_idx + 1)) (\<lambda>value_in_name.
          bind (at (key_caches_out' c) layer_idx) (\<lambda>key_out.
          bind (at (sw_output_name_strings' c) (2 * layer_idx)) (\<lambda>key_out_name.
          bind (at (value_caches_out' c) layer_idx) (\<lambda>value_out.
          bind (at (sw_output_name_strings' c) (2 * layer_idx + 1)) (\<lambda>value_out_name.
          Returns (c\<lparr>sw_state' := (sw_state' c)
            \<lparr>inputs' := inputs' (sw_state' c) @ [get key_in, get value_in],
             input_names' := input_names' (sw_state' c) @ [key_in_name, value_in_name],
             outputs' := outputs' (sw_state' c) @ [get key_out, get value_out],
             output_names' := output_names' (sw_state' c) @ [key_out_name, value_out_name]\<rparr>\<rparr>))))))))))
       (c\<lparr>sw_input_index' := Some (length (inputs' (sw_state' c))),
          sw_output_index' := Some (length (outputs' (sw_state' c)))\<rparr>)"

definition Slide :: "SlidingWindowKeyValueCache \<Rightarrow> SlidingWindowKeyValueCache outcome" where
  "Slide c =
     for_each [0..<sw_layer_count' c]
       (\<lambda>layer_idx c.
          let K = key_cache_shape_in' c; Ko = key_cache_shape_out' c;
              V = value_cache_shape_in' c; Vo = value_cache_shape_out' c;
              W = window_size' c
          in
          bind (at (key_caches_in' c) layer_idx) (\<lambda>p. bind (deref p) (\<lambda>key_in.
          bind (at (key_caches_out' c) layer_idx) (\<lambda>p. bind (deref p) (\<lambda>key_out.
          bind (for_each (map int [0..<nat (K ! 0 * K ! 2)])
                  (\<lambda>j key_cache_in_data.
                     bind (std_copy key_cache_in_data (j * K ! 3 + W) (K ! 3 - W)
                             key_cache_in_data (j * K ! 3) (K ! 3 - W)) (\<lambda>key_cache_in_data.
                     std_copy (tensor_data key_out) (j * Ko ! 3) W
                       key_cache_in_data (j * K ! 3 + K ! 3 - W) W))
                  (tensor_data key_in)) (\<lambda>key_cache_in_data.
          bind (at (value_caches_in' c) layer_idx) (\<lambda>p. bind (deref p) (\<lambda>value_in.
          bind (at (value_caches_out' c) layer_idx) (\<lambda>p. bind (deref p) (\<lambda>value_out.
          bind (for_each (map int [0..<nat (V ! 0)])
                  (\<lambda>j value_cache_in_data.
                     bind (std_copy value_cache_in_data (j * V ! 2 * V ! 3 + W * V ! 3) ((V ! 2 - W) * V ! 3)
                             value_cache_in_data (j * V ! 2 * V ! 3) ((V ! 2 - W) * V ! 3))
                       (\<lambda>value_cache_in_data.
                     std_copy (tensor_data value_out) (j * Vo ! 2 * Vo ! 3) (W * Vo ! 3)
                       value_cache_in_data (j * V ! 2 * V ! 3 + (V ! 2 - W) * V ! 3) (W * V ! 3)))
                  (tensor_data value_in)) (\<lambda>value_cache_in_data.
          Returns (c\<lparr>key_caches_in' :=
                       (key_caches_in' c)[layer_idx := Some (key_in\<lparr>tensor_data := key_cache_in_data\<rparr>)],
                     value_caches_in' :=
                       (value_caches_in' c)[layer_idx := Some (value_in\<lparr>tensor_data := value_cache_in_data\<rparr>)]\<rparr>
                  ))))))))))))
       c"

definition SlidingWindowKeyValueCache_Update ::
  "SlidingWindowKeyValueCache \<Rightarrow> int list \<Rightarrow> int \<Rightarrow> SlidingWindowKeyValueCache outcome" where
  "SlidingWindowKeyValueCache_Update c beam_indices current_length =
     (if window_size' c = 1 then Slide c
      else
      let decoder = config' (sw_model' c);
          updated_window_size = 1;
          updated_key_cache_shape_in = [num_key_value_heads decoder, 1, head_size decoder,
                                        context_length decoder - updated_window_size];
          updated_value_cache_shape_in = [num_key_value_heads decoder, 1,
                                          context_length decoder - updated_window_size, head_size decoder];
          updated_key_cache_shape_out = [num_key_value_heads decoder, 1, head_size decoder,
                                         updated_window_size];
          updated_value_cache_shape_out = [num_key_value_heads decoder, 1, updated_window_size,
                                           head_size decoder]
      in
      bind (for_each [0..<sw_layer_count' c]
        (\<lambda>layer_idx c.
          let K = key_cache_shape_in' c; Ko = key_cache_shape_out' c;
              V = value_cache_shape_in' c; Vo = value_cache_shape_out' c;
              W = window_size' c;
              UK = updated_key_cache_shape_in; UV = updated_value_cache_shape_in
          in
          case CreateTensor (allocator_device' (sw_model' c)) UK (sw_type' c) of (key_cache, a1) \<Rightarrow>
          bind (at (key_caches_in' c) layer_idx) (\<lambda>p. bind (deref p) (\<lambda>key_in.
          bind (at (key_caches_out' c) layer_idx) (\<lambda>p. bind (deref p) (\<lambda>key_out.
          bind (for_each (map int [0..<nat (UK ! 0 * UK ! 2)])
                  (\<lambda>j key_cache_data.
                     bind (std_copy (tensor_data key_in) (j * K ! 3 + updated_window_size)
                             (K ! 3 - updated_window_size)
                             key_cache_data (j * UK ! 3) (UK ! 3 - updated_window_size))
                       (\<lambda>key_cache_data.
                     std_copy (tensor_data key_out) (j * Ko ! 3) W
                       key_cache_data (j * UK ! 3 + K ! 3 - updated_window_size) W))
                  (tensor_data key_cache)) (\<lambda>key_cache_data.
          case CreateTensor a1 updated_key_cache_shape_out (sw_type' c) of (new_key_out, a2) \<Rightarrow>
          case CreateTensor a2 UV (sw_type' c) of (value_cache, a3) \<Rightarrow>
          bind (at (value_caches_in' c) layer_idx) (\<lambda>p. bind (deref p) (\<lambda>value_in.
          bind (at (value_caches_out' c) layer_idx) (\<lambda>p. bind (deref p) (\<lambda>value_out.
          bind (for_each (map int [0..<nat (UV ! 0)])
                  (\<lambda>j value_cache_data.
                     bind (std_copy (tensor_data value_in)
                             (j * Vo ! 2 * Vo ! 3 + updated_window_size * Vo ! 3)
                             ((V ! 2 - updated_window_size) * V ! 3)
                             value_cache_data (j * UV ! 2 * UV ! 3)
                             ((V ! 2 - updated_window_size) * UV ! 3))
                       (\<lambda>value_cache_data.
                     std_copy (tensor_data value_out) (j * Vo ! 2 * Vo ! 3) (W * Vo ! 3)
                       value_cache_data
                       (j * UV ! 2 * UV ! 3 + (V ! 2 - updated_window_size) * UV ! 3)
                       (W * Vo ! 3)))
                  (tensor_data value_cache)) (\<lambda>value_cache_data.
          case CreateTensor a3 updated_value_cache_shape_out (sw_type' c) of (new_value_out, a4) \<Rightarrow>
          Returns (c\<lparr>key_caches_in' :=
                       (key_caches_in' c)[layer_idx := Some (key_cache\<lparr>tensor_data := key_cache_data\<rparr>)],
                     key_caches_out' := (key_caches_out' c)[layer_idx := Some new_key_out],
                     value_caches_in' :=
                       (value_caches_in' c)[layer_idx := Some (value_cache\<lparr>tensor_data := value_cache_data\<rparr>)],
                     value_caches_out' := (value_caches_out' c)[layer_idx := Some new_value_out],
                     sw_model' := (sw_model' c)\<lparr>allocator_device' := a4\<rparr>\<rparr>))))))))))))
        c) (\<lambda>c.
      for_each [0..<sw_layer_count' c]
        (\<lambda>layer_idx c.
           bind (deref (sw_input_index' c)) (\<lambda>input_index.
           bind (deref (sw_output_index' c)) (\<lambda>output_index.
           bind (at (key_caches_in' c) layer_idx) (\<lambda>key_in.
           bind (put (inputs' (sw_state' c)) (input_index + 2 * layer_idx) (get key_in)) (\<lambda>inputs1.
           bind (at (value_caches_in' c) layer_idx) (\<lambda>value_in.
           bind (put inputs1 (input_index + 2 * layer_idx + 1) (get value_in)) (\<lambda>inputs2.
           bind (at (key_caches_out' c) layer_idx) (\<lambda>key_out.
           bind (put (outputs' (sw_state' c)) (output_index + 2 * layer_idx) (get key_out)) (\<lambda>outputs1.
           bind (at (value_caches_out' c) layer_idx) (\<lambda>value_out.
           bind (put outputs1 (output_index + 2 * layer_idx + 1) (get value_out)) (\<lambda>outputs2.
           Returns (c\<lparr>sw_state' := (sw_state' c)\<lparr>inputs' := inputs2, outputs' := outputs2\<rparr>\<rparr>))))))))))))
        (c\<lparr>window_size' := 1,
           key_cache_shape_in' := updated_key_cache_shape_in,
           value_cache_shape_in' := updated_value_cache_shape_in,
           key_cache_shape_out' := updated_key_cache_shape_out,
           value_cache_shape_out' := updated_value_cache_shape_out\<rparr>)))"

section \<open>Predicates of the statements\<close>

text \<open>
  A name template with one index conversion, \<open>prefix %d suffix\<close>, and two such templates whose
  names cannot coincide because neither prefix begins the other or neither suffix ends the other.
\<close>

definition index_template :: "string \<Rightarrow> string \<Rightarrow> string \<Rightarrow> bool" where
  "index_template t p s \<longleftrightarrow> t = p @ ''%d'' @ s \<and> CHR ''%'' \<notin> set p \<and> CHR ''%'' \<notin> set s"

definition templates_apart :: "string \<Rightarrow> string \<Rightarrow> string \<Rightarrow> string \<Rightarrow> bool" where
  "templates_apart p s p' s' \<longleftrightarrow>
     (\<not> prefix p p' \<and> \<not> prefix p' p) \<or> (\<not> suffix s s' \<and> \<not> suffix s' s)"

section \<open>A small configuration for the concrete checks\<close>

definition example_config :: "string \<Rightarrow> Config" where
  "example_config family =
     \<lparr>model_type = family, context_length = 8, num_hidden_layers = 1,
      num_key_value_heads = 1, head_size = 1,
      past_names = ''past_%d'', present_names = ''present_%d'',
      past_key_names = ''past_key_values.%d.key'', past_value_names = ''past_key_values.%d.value'',
      present_key_names = ''present.%d.key'', present_value_names = ''present.%d.value'',
      cross_past_key_names = ''past_key_cross_%d'', cross_past_value_names = ''past_value_cross_%d'',
      cross_present_key_names = ''present_key_cross_%d'',
      cross_present_value_names = ''present_value_cross_%d'',
      sliding_window_size = 2, sliding_pad_value = 0\<rparr>"

definition example_params :: "int \<Rightarrow> bool \<Rightarrow> GeneratorParams" where
  "example_params num_beams share =
     \<lparr>batch_size = 1, sequence_length = 1, search_num_beams = num_beams,
      search_max_length = 4, search_past_present_share_buffer = share\<rparr>"

definition example_session :: "ONNXTensorElementDataType \<Rightarrow> (string \<rightharpoonup> ONNXTensorElementDataType)" where
  "example_session ty =
     [''past_0'' \<mapsto> ty, ''past_key_values.0.key'' \<mapsto> ty, ''past_key_values.0.value'' \<mapsto> ty,
      ''past_key_cross_0'' \<mapsto> ty, ''past_value_cross_0'' \<mapsto> ty]"

definition example_allocator :: Allocator where
  "example_allocator = \<lparr>next_address = 0, memory = (\<lambda>a i. 0)\<rparr>"

definition example_model :: "string \<Rightarrow> ONNXTensorElementDataType \<Rightarrow> Model" where
  "example_model family ty =
     \<lparr>config' = example_config family, session_info' = example_session ty,
      allocator_kvcache' = example_allocator, allocator_device' = example_allocator\<rparr>"

definition example_state :: "int \<Rightarrow> bool \<Rightarrow> State" where
  "example_state num_beams share =
     \<lparr>params' = example_params num_beams share, inputs' = [], input_names' = [],
      outputs' = [], output_names' = [], captured_graph_info' = None\<rparr>"

text \<open>Calls of \<open>Update\<close> one after the other, each with its beam indices and length.\<close>

fun Update_all :: "KV_Cache \<Rightarrow> (int list \<times> int) list \<Rightarrow> KV_Cache outcome" where
  "Update_all c [] = Returns c"
| "Update_all c ((beam_indices, current_length) # calls) =
     bind (KV_Cache_Update c beam_indices current_length) (\<lambda>c. Update_all c calls)"

text \<open>
  The bytes of beam row \<open>r\<close> in a buffer whose rows are \<open>block\<close> elements of \<open>width\<close> bytes;
  in the combined layout the key rows come first and the value rows after \<open>rows\<close> key rows.
\<close>

definition beam_row :: "nat \<Rightarrow> int \<Rightarrow> byte list \<Rightarrow> int \<Rightarrow> byte list" where
  "beam_row width block buf r = slice buf (width * nat (r * block)) (width * nat block)"

definition key_row :: "nat \<Rightarrow> int \<Rightarrow> byte list \<Rightarrow> int \<Rightarrow> byte list" where
  "key_row width block buf r = beam_row width block buf r"

definition value_row :: "nat \<Rightarrow> int \<Rightarrow> int \<Rightarrow> byte list \<Rightarrow> int \<Rightarrow> byte list" where
  "value_row width block rows buf r = beam_row width block buf (rows + r)"

text \<open>
  The state of a cache between \<open>Add\<close> and \<open>Update\<close>, once the run has written the present
  tensors: the shape has its rank and no negative dimension, every present tensor exists with
  the cache's shape, type and as many bytes as they ask for, the past and present vectors have
  their constructed sizes, and the slots bound by \<open>Add\<close> exist in the request.
\<close>

definition tensor_ok :: "int list \<Rightarrow> ONNXTensorElementDataType \<Rightarrow> OrtValue option \<Rightarrow> bool" where
  "tensor_ok shape ty p \<longleftrightarrow>
     (case p of
        None \<Rightarrow> False
      | Some t \<Rightarrow> tensor_shape t = shape \<and> tensor_type t = ty \<and>
          length (tensor_data t) = SizeOf ty * nat (ElementCountFromShape shape))"

definition slots_bound :: "nat option \<Rightarrow> nat \<Rightarrow> nat option list \<Rightarrow> bool" where
  "slots_bound index n slots \<longleftrightarrow> (case index of None \<Rightarrow> False | Some i \<Rightarrow> i + n \<le> length slots)"

definition wf_KV_Cache_Combined :: "KV_Cache_Combined \<Rightarrow> bool" where
  "wf_KV_Cache_Combined c \<longleftrightarrow>
     length (shape' c) = 5 \<and> shape' c ! 0 = 2 \<and> list_all (\<lambda>d. 0 \<le> d) (shape' c) \<and>
     length (presents' c) = layer_count' c \<and> length (pasts' c) = layer_count' c \<and>
     list_all (tensor_ok (shape' c) (type' c)) (presents' c) \<and>
     slots_bound (input_index' c) (layer_count' c) (inputs' (state' c)) \<and>
     slots_bound (output_index' c) (layer_count' c) (outputs' (state' c))"

definition wf_KV_Cache :: "KV_Cache \<Rightarrow> bool" where
  "wf_KV_Cache c \<longleftrightarrow>
     length (shape' c) = 4 \<and> list_all (\<lambda>d. 0 \<le> d) (shape' c) \<and>
     length (presents' c) = layer_count' c * 2 \<and> length (pasts' c) = layer_count' c * 2 \<and>
     list_all (tensor_ok (shape' c) (type' c)) (presents' c) \<and>
     slots_bound (input_index' c) (layer_count' c * 2) (inputs' (state' c)) \<and>
     slots_bound (output_index' c) (layer_count' c * 2) (outputs' (state' c))"

text \<open>
  \<open>dst\<close> holds in beam row \<open>j\<close> what \<open>src\<close> holds in beam row \<open>beam_indices[j]\<close>: for the split
  layout, and for the combined layout in the key half and in the value half.
\<close>

definition gathered :: "nat \<Rightarrow> int \<Rightarrow> int list \<Rightarrow> byte list \<Rightarrow> byte list \<Rightarrow> bool" where
  "gathered width block beam_indices dst src \<longleftrightarrow>
     list_all (\<lambda>j. beam_row width block dst (int j) = beam_row width block src (beam_indices ! j))
       [0..<length beam_indices]"

definition gathered_kv :: "nat \<Rightarrow> int \<Rightarrow> int \<Rightarrow> int list \<Rightarrow> byte list \<Rightarrow> byte list \<Rightarrow> bool" where
  "gathered_kv width block rows beam_indices dst src \<longleftrightarrow>
     list_all (\<lambda>j. key_row width block dst (int j) = key_row width block src (beam_indices ! j) \<and>
         value_row width block rows dst (int j) = value_row width block rows src (beam_indices ! j))
       [0..<length beam_indices]"

text \<open>
  The run of the model between two calls of \<open>Update\<close> writes the present tensors; \<open>d\<close> is what
  it leaves in each of them.
\<close>

definition with_present_data :: "byte list \<Rightarrow> 'a KV_Cache_Combined_scheme \<Rightarrow> 'a KV_Cache_Combined_scheme" where
  "with_present_data d c = c\<lparr>presents' := map (map_option (\<lambda>t. t\<lparr>tensor_data := d\<rparr>)) (presents' c)\<rparr>"



text \<open>The model whose session declares the element type \<open>ty\<close> for the input \<open>name\<close>.\<close>

definition with_input_type :: "Model \<Rightarrow> string \<Rightarrow> ONNXTensorElementDataType \<Rightarrow> Model" where
  "with_input_type model name ty = model\<lparr>session_info' := (session_info' model)(name \<mapsto> ty)\<rparr>"

section \<open>The sliding-window cache: the loops of Update by name, and its well-formed states\<close>

text \<open>
  The loops of the collapse in \<open>SlidingWindowKeyValueCache::Update\<close>, each under a name of its
  own: the rows of one key tensor, the rows of one value tensor, the body of the loop over the
  layers, and the body of the loop that rebinds the slots. \<open>Update\<close> is shown equal to their
  composition before anything is proved about it.
\<close>

definition concat_key_rows ::
  "int \<Rightarrow> int \<Rightarrow> int \<Rightarrow> int \<Rightarrow> int \<Rightarrow> byte list \<Rightarrow> byte list \<Rightarrow> byte list \<Rightarrow> byte list outcome" where
  "concat_key_rows chunks K3 Ko3 UK3 W key_in key_out key_cache_data =
     for_each (map int [0..<nat chunks])
       (\<lambda>j key_cache_data.
          bind (std_copy key_in (j * K3 + 1) (K3 - 1) key_cache_data (j * UK3) (UK3 - 1))
            (\<lambda>key_cache_data.
          std_copy key_out (j * Ko3) W key_cache_data (j * UK3 + K3 - 1) W))
       key_cache_data"

definition concat_value_rows ::
  "int \<Rightarrow> int \<Rightarrow> int \<Rightarrow> int \<Rightarrow> int \<Rightarrow> int \<Rightarrow> int \<Rightarrow> int \<Rightarrow> byte list \<Rightarrow> byte list \<Rightarrow> byte list
     \<Rightarrow> byte list outcome" where
  "concat_value_rows heads V2 V3 Vo2 Vo3 UV2 UV3 W value_in value_out value_cache_data =
     for_each (map int [0..<nat heads])
       (\<lambda>j value_cache_data.
          bind (std_copy value_in (j * Vo2 * Vo3 + 1 * Vo3) ((V2 - 1) * V3)
                  value_cache_data (j * UV2 * UV3) ((V2 - 1) * UV3))
            (\<lambda>value_cache_data.
          std_copy value_out (j * Vo2 * Vo3) (W * Vo3)
            value_cache_data (j * UV2 * UV3 + (V2 - 1) * UV3) (W * Vo3)))
       value_cache_data"

definition collapse_layer ::
  "int list \<Rightarrow> int list \<Rightarrow> int list \<Rightarrow> int list \<Rightarrow> nat \<Rightarrow> SlidingWindowKeyValueCache
     \<Rightarrow> SlidingWindowKeyValueCache outcome" where
  "collapse_layer UK UV UKo UVo layer_idx c =
     (case CreateTensor (allocator_device' (sw_model' c)) UK (sw_type' c) of (key_cache, a1) \<Rightarrow>
      bind (at (key_caches_in' c) layer_idx) (\<lambda>p. bind (deref p) (\<lambda>key_in.
      bind (at (key_caches_out' c) layer_idx) (\<lambda>p. bind (deref p) (\<lambda>key_out.
      bind (concat_key_rows (UK ! 0 * UK ! 2) (key_cache_shape_in' c ! 3) (key_cache_shape_out' c ! 3)
              (UK ! 3) (window_size' c) (tensor_data key_in) (tensor_data key_out)
              (tensor_data key_cache)) (\<lambda>key_cache_data.
      case CreateTensor a1 UKo (sw_type' c) of (new_key_out, a2) \<Rightarrow>
      case CreateTensor a2 UV (sw_type' c) of (value_cache, a3) \<Rightarrow>
      bind (at (value_caches_in' c) layer_idx) (\<lambda>p. bind (deref p) (\<lambda>value_in.
      bind (at (value_caches_out' c) layer_idx) (\<lambda>p. bind (deref p) (\<lambda>value_out.
      bind (concat_value_rows (UV ! 0) (value_cache_shape_in' c ! 2) (value_cache_shape_in' c ! 3)
              (value_cache_shape_out' c ! 2) (value_cache_shape_out' c ! 3) (UV ! 2) (UV ! 3)
              (window_size' c) (tensor_data value_in) (tensor_data value_out)
              (tensor_data value_cache)) (\<lambda>value_cache_data.
      case CreateTensor a3 UVo (sw_type' c) of (new_value_out, a4) \<Rightarrow>
      Returns (c\<lparr>key_caches_in' :=
                   (key_caches_in' c)[layer_idx := Some (key_cache\<lparr>tensor_data := key_cache_data\<rparr>)],
                 key_caches_out' := (key_caches_out' c)[layer_idx := Some new_key_out],
                 value_caches_in' :=
                   (value_caches_in' c)[layer_idx := Some (value_cache\<lparr>tensor_data := value_cache_data\<rparr>)],
                 value_caches_out' := (value_caches_out' c)[layer_idx := Some new_value_out],
                 sw_model' := (sw_model' c)\<lparr>allocator_device' := a4\<rparr>\<rparr>))))))))))))"

definition rebind_slots :: "nat \<Rightarrow> SlidingWindowKeyValueCache \<Rightarrow> SlidingWindowKeyValueCache outcome" where
  "rebind_slots layer_idx c =
     bind (deref (sw_input_index' c)) (\<lambda>input_index.
     bind (deref (sw_output_index' c)) (\<lambda>output_index.
     bind (at (key_caches_in' c) layer_idx) (\<lambda>key_in.
     bind (put (inputs' (sw_state' c)) (input_index + 2 * layer_idx) (get key_in)) (\<lambda>inputs1.
     bind (at (value_caches_in' c) layer_idx) (\<lambda>value_in.
     bind (put inputs1 (input_index + 2 * layer_idx + 1) (get value_in)) (\<lambda>inputs2.
     bind (at (key_caches_out' c) layer_idx) (\<lambda>key_out.
     bind (put (outputs' (sw_state' c)) (output_index + 2 * layer_idx) (get key_out)) (\<lambda>outputs1.
     bind (at (value_caches_out' c) layer_idx) (\<lambda>value_out.
     bind (put outputs1 (output_index + 2 * layer_idx + 1) (get value_out)) (\<lambda>outputs2.
     Returns (c\<lparr>sw_state' := (sw_state' c)\<lparr>inputs' := inputs2, outputs' := outputs2\<rparr>\<rparr>)))))))))))"

text \<open>
  The state of a sliding-window cache between \<open>Add\<close> and \<open>Update\<close>, once the run has written
  the output tensors: the element type is \<open>uint8\<close>, the four shapes are those of the constructor
  for the current window size, every tensor exists with its shape and as many bytes as it asks
  for, and the slots bound by \<open>Add\<close> exist in the request.
\<close>

definition wf_SlidingWindowKeyValueCache :: "SlidingWindowKeyValueCache \<Rightarrow> bool" where
  "wf_SlidingWindowKeyValueCache c \<longleftrightarrow>
     (let decoder = config' (sw_model' c);
          H = num_key_value_heads decoder; D = head_size decoder;
          C = context_length decoder; W = window_size' c; L = sw_layer_count' c
      in
      0 \<le> H \<and> 0 \<le> D \<and> sw_type' c = UINT8 \<and>
      key_cache_shape_in' c = [H, 1, D, C - W] \<and> key_cache_shape_out' c = [H, 1, D, W] \<and>
      value_cache_shape_in' c = [H, 1, C - W, D] \<and> value_cache_shape_out' c = [H, 1, W, D] \<and>
      length (key_caches_in' c) = L \<and> length (key_caches_out' c) = L \<and>
      length (value_caches_in' c) = L \<and> length (value_caches_out' c) = L \<and>
      list_all (tensor_ok (key_cache_shape_in' c) UINT8) (key_caches_in' c) \<and>
      list_all (tensor_ok (key_cache_shape_out' c) UINT8) (key_caches_out' c) \<and>
      list_all (tensor_ok (value_cache_shape_in' c) UINT8) (value_caches_in' c) \<and>
      list_all (tensor_ok (value_cache_shape_out' c) UINT8) (value_caches_out' c) \<and>
      slots_bound (sw_input_index' c) (2 * L) (inputs' (sw_state' c)) \<and>
      slots_bound (sw_output_index' c) (2 * L) (outputs' (sw_state' c)))"

text \<open>
  Row \<open>j\<close> of a buffer whose rows are \<open>len\<close> bytes, and the last \<open>w\<close> bytes of that row; the new
  key-in buffer holds, at the end of each of its rows, the row of the key-out buffer.
\<close>

definition cache_row :: "int \<Rightarrow> byte list \<Rightarrow> int \<Rightarrow> byte list" where
  "cache_row len buf j = slice buf (nat (j * len)) (nat len)"

definition cache_row_tail :: "int \<Rightarrow> int \<Rightarrow> byte list \<Rightarrow> int \<Rightarrow> byte list" where
  "cache_row_tail len w buf j = slice buf (nat (j * len + (len - w))) (nat w)"

definition key_tails :: "int \<Rightarrow> int \<Rightarrow> int \<Rightarrow> byte list \<Rightarrow> byte list \<Rightarrow> bool" where
  "key_tails chunks len w key_in key_out \<longleftrightarrow>
     list_all (\<lambda>j. cache_row_tail len w key_in (int j) = cache_row w key_out (int j)) [0..<nat chunks]"

text \<open>What the run of the model leaves in the key-out tensors.\<close>

definition with_key_out_data :: "byte list \<Rightarrow> SlidingWindowKeyValueCache \<Rightarrow> SlidingWindowKeyValueCache" where
  "with_key_out_data d c =
     c\<lparr>key_caches_out' := map (map_option (\<lambda>t. t\<lparr>tensor_data := d\<rparr>)) (key_caches_out' c)\<rparr>"

section \<open>Properties of the readback staging buffer\<close>

lemma bind_assoc: "bind (bind m f) g = bind m (\<lambda>x. bind (f x) g)"
  by (cases m) simp_all

lemma returns_iff: "returns m \<longleftrightarrow> (\<exists>x. m = Returns x)"
  by (cases m) (simp_all add: returns_def)

lemma ComputeNewCapacity_loop_least:
  "0 < n \<Longrightarrow> n < 2 ^ 64 \<Longrightarrow>
   \<exists>r. ComputeNewCapacity_loop n d = Some r \<and>
     (case r of
        Returns m \<Rightarrow> d \<le> m \<and> n \<le> m \<and> m < 2 ^ 64 \<and> (\<exists>k. m = n * 2 ^ k) \<and> (m = n \<or> m < 2 * d)
      | Throws e \<Rightarrow> e = E_OUTOFMEMORY \<and> (\<exists>k. n * 2 ^ k < d \<and> SIZE_MAX div 2 \<le> n * 2 ^ k)
      | _ \<Rightarrow> False)"
proof (induction "2 ^ 64 - n" arbitrary: n rule: less_induct)
  case less
  show ?case
  proof (cases "n < d")
    case False
    then have "ComputeNewCapacity_loop n d = Some (Returns n)"
      by (subst ComputeNewCapacity_loop.simps) simp
    moreover have "\<exists>k. n = n * 2 ^ k" by (rule exI [of _ 0]) simp
    ultimately show ?thesis using False less.prems by simp
  next
    case True
    show ?thesis
    proof (cases "SIZE_MAX div 2 \<le> n")
      case True
      with \<open>n < d\<close> have "ComputeNewCapacity_loop n d = Some (Throws E_OUTOFMEMORY)"
        by (subst ComputeNewCapacity_loop.simps) simp
      moreover have "\<exists>k. n * 2 ^ k < d \<and> SIZE_MAX div 2 \<le> n * 2 ^ k"
        using True \<open>n < d\<close> by (intro exI [of _ 0]) simp
      ultimately show ?thesis by simp
    next
      case False
      then have small: "n * 2 < 2 ^ 64" by (simp add: SIZE_MAX_def)
      then have step: "ComputeNewCapacity_loop n d = ComputeNewCapacity_loop (n * 2) d"
        using False \<open>n < d\<close> by (subst ComputeNewCapacity_loop.simps) simp
      have "(2::nat) ^ 64 - n * 2 < 2 ^ 64 - n" using less.prems small by simp
      from less.hyps [OF this] less.prems small
      obtain r where r: "ComputeNewCapacity_loop (n * 2) d = Some r"
        and post: "(case r of
            Returns m \<Rightarrow> d \<le> m \<and> n * 2 \<le> m \<and> m < 2 ^ 64 \<and> (\<exists>k. m = n * 2 * 2 ^ k) \<and>
              (m = n * 2 \<or> m < 2 * d)
          | Throws e \<Rightarrow> e = E_OUTOFMEMORY \<and> (\<exists>k. n * 2 * 2 ^ k < d \<and> SIZE_MAX div 2 \<le> n * 2 * 2 ^ k)
          | _ \<Rightarrow> False)"
        by auto
      have shift: "n * 2 * 2 ^ k = n * 2 ^ Suc k" for k by simp
      show ?thesis
      proof (cases r)
        case (Returns m)
        with post have m: "d \<le> m" "n * 2 \<le> m" "m < 2 ^ 64" "m = n * 2 \<or> m < 2 * d"
          and "\<exists>k. m = n * 2 * 2 ^ k" by simp_all
        then obtain k where "m = n * 2 ^ Suc k" unfolding shift by blast
        then have "\<exists>k. m = n * 2 ^ k" by blast
        moreover have "m < 2 * d" using m(4) \<open>n < d\<close> by auto
        ultimately show ?thesis using Returns m r step by simp
      next
        case (Throws e)
        with post obtain k where "n * 2 ^ Suc k < d \<and> SIZE_MAX div 2 \<le> n * 2 ^ Suc k"
          by (auto simp only: shift outcome.case)
        then have "\<exists>k. n * 2 ^ k < d \<and> SIZE_MAX div 2 \<le> n * 2 ^ k" by blast
        with Throws post r step show ?thesis by simp
      qed (use post in simp_all)
    qed
  qed
qed

lemma ComputeNewCapacity_cases:
  assumes "0 < n" "n < 2 ^ 64"
  shows "(\<exists>m. ComputeNewCapacity n d = Returns m \<and> d \<le> m \<and> n \<le> m \<and> m < 2 ^ 64 \<and>
            (\<exists>k. m = n * 2 ^ k) \<and> (m = n \<or> m < 2 * d)) \<or>
         (ComputeNewCapacity n d = Throws E_OUTOFMEMORY \<and>
            (\<exists>k. n * 2 ^ k < d \<and> SIZE_MAX div 2 \<le> n * 2 ^ k))"
proof -
  from ComputeNewCapacity_loop_least [OF assms, of d]
  obtain r where r: "ComputeNewCapacity_loop n d = Some r"
    and post: "(case r of
        Returns m \<Rightarrow> d \<le> m \<and> n \<le> m \<and> m < 2 ^ 64 \<and> (\<exists>k. m = n * 2 ^ k) \<and> (m = n \<or> m < 2 * d)
      | Throws e \<Rightarrow> e = E_OUTOFMEMORY \<and> (\<exists>k. n * 2 ^ k < d \<and> SIZE_MAX div 2 \<le> n * 2 ^ k)
      | _ \<Rightarrow> False)"
    by blast
  show ?thesis
  proof (cases r)
    case (Returns m)
    with r post show ?thesis by (simp add: ComputeNewCapacity_def)
  next
    case (Throws e)
    with r post show ?thesis by (simp add: ComputeNewCapacity_def)
  qed (use post in simp_all)
qed

lemma grow_cases:
  assumes c: "0 < c" and n: "n = c * 2 ^ k0" "n < 2 ^ 64"
  shows "(\<exists>m. (bind (ComputeNewCapacity n sz) (\<lambda>cap.
                   bind (CreateReadbackHeap device cap) (\<lambda>r.
                   EnsureReadbackHeap_check (h\<lparr>m_capacity := cap, m_readbackHeap := Some r\<rparr>) sz))) = Returns (h\<lparr>m_capacity := m, m_readbackHeap := Some m\<rparr>) \<and>
            n \<le> m \<and> sz \<le> m \<and> (\<exists>k. m = c * 2 ^ k) \<and> m < 2 ^ 64 \<and> device m \<and>
            (m = n \<or> m < 2 * sz)) \<or>
         ((bind (ComputeNewCapacity n sz) (\<lambda>cap.
                   bind (CreateReadbackHeap device cap) (\<lambda>r.
                   EnsureReadbackHeap_check (h\<lparr>m_capacity := cap, m_readbackHeap := Some r\<rparr>) sz))) = Throws E_OUTOFMEMORY \<and> (\<exists>k. c * 2 ^ k < sz \<and> SIZE_MAX div 2 \<le> c * 2 ^ k)) \<or>
         ((bind (ComputeNewCapacity n sz) (\<lambda>cap.
                   bind (CreateReadbackHeap device cap) (\<lambda>r.
                   EnsureReadbackHeap_check (h\<lparr>m_capacity := cap, m_readbackHeap := Some r\<rparr>) sz))) = Throws FAILED_HRESULT \<and> (\<exists>k. sz \<le> c * 2 ^ k \<and> c * 2 ^ k < 2 ^ 64 \<and> \<not> device (c * 2 ^ k)))"
proof -
  have pos: "0 < n" using n c by simp
  have mult: "n * 2 ^ k = c * 2 ^ (k0 + k)" for k by (simp add: n power_add)
  from ComputeNewCapacity_cases [OF pos n(2), of sz]
  show ?thesis
  proof
    assume "\<exists>m. ComputeNewCapacity n sz = Returns m \<and> sz \<le> m \<and> n \<le> m \<and> m < 2 ^ 64 \<and>
            (\<exists>k. m = n * 2 ^ k) \<and> (m = n \<or> m < 2 * sz)"
    then obtain m k where m: "ComputeNewCapacity n sz = Returns m" "sz \<le> m" "n \<le> m" "m < 2 ^ 64"
      "m = n * 2 ^ k" "m = n \<or> m < 2 * sz" by blast
    from m(5) have ck: "m = c * 2 ^ (k0 + k)" by (simp only: mult)
    show ?thesis
    proof (cases "device m")
      case True
      then have "(bind (ComputeNewCapacity n sz) (\<lambda>cap.
                   bind (CreateReadbackHeap device cap) (\<lambda>r.
                   EnsureReadbackHeap_check (h\<lparr>m_capacity := cap, m_readbackHeap := Some r\<rparr>) sz))) = Returns (h\<lparr>m_capacity := m, m_readbackHeap := Some m\<rparr>)"
        using m(1,2) by (simp add: CreateReadbackHeap_def EnsureReadbackHeap_check_def)
      with m ck True show ?thesis by blast
    next
      case False
      then have "(bind (ComputeNewCapacity n sz) (\<lambda>cap.
                   bind (CreateReadbackHeap device cap) (\<lambda>r.
                   EnsureReadbackHeap_check (h\<lparr>m_capacity := cap, m_readbackHeap := Some r\<rparr>) sz))) = Throws FAILED_HRESULT"
        using m(1) by (simp add: CreateReadbackHeap_def)
      with m(2,4) ck False show ?thesis by blast
    qed
  next
    assume "ComputeNewCapacity n sz = Throws E_OUTOFMEMORY \<and>
            (\<exists>k. n * 2 ^ k < sz \<and> SIZE_MAX div 2 \<le> n * 2 ^ k)"
    then obtain k where t: "ComputeNewCapacity n sz = Throws E_OUTOFMEMORY"
      "n * 2 ^ k < sz" "SIZE_MAX div 2 \<le> n * 2 ^ k" by blast
    from t(1) have "(bind (ComputeNewCapacity n sz) (\<lambda>cap.
                   bind (CreateReadbackHeap device cap) (\<lambda>r.
                   EnsureReadbackHeap_check (h\<lparr>m_capacity := cap, m_readbackHeap := Some r\<rparr>) sz))) = Throws E_OUTOFMEMORY" by simp
    with t(2,3) show ?thesis unfolding mult by blast
  qed
qed

lemma grown_cases:
  fixes h :: DmlReadbackHeap
  assumes g: "(\<exists>m. E = Returns (h\<lparr>m_capacity := m, m_readbackHeap := Some m\<rparr>) \<and>
            n \<le> m \<and> sz \<le> m \<and> (\<exists>k. m = c * 2 ^ k) \<and> m < 2 ^ 64 \<and> device m \<and>
            (m = n \<or> m < 2 * sz)) \<or>
         (E = Throws E_OUTOFMEMORY \<and> (\<exists>k. c * 2 ^ k < sz \<and> SIZE_MAX div 2 \<le> c * 2 ^ k)) \<or>
         (E = Throws FAILED_HRESULT \<and> (\<exists>k. sz \<le> c * 2 ^ k \<and> c * 2 ^ k < 2 ^ 64 \<and> \<not> device (c * 2 ^ k)))"
    and n: "m_capacity h \<le> n" "n = m_capacity h \<or> n = c"
  shows "(\<exists>h'. E = Returns h' \<and>
            m_capacity h \<le> m_capacity h' \<and> sz \<le> m_capacity h' \<and>
            (\<exists>k. m_capacity h' = c * 2 ^ k) \<and> m_capacity h' < 2 ^ 64 \<and>
            m_readbackHeap h' = Some (m_capacity h') \<and>
            (h' = h \<or> device (m_capacity h')) \<and>
            (m_capacity h' = m_capacity h \<or> m_capacity h' = c \<or> m_capacity h' < 2 * sz)) \<or>
         (E = Throws E_OUTOFMEMORY \<and> (\<exists>k. c * 2 ^ k < sz \<and> SIZE_MAX div 2 \<le> c * 2 ^ k)) \<or>
         (E = Throws FAILED_HRESULT \<and> (\<exists>k. sz \<le> c * 2 ^ k \<and> c * 2 ^ k < 2 ^ 64 \<and> \<not> device (c * 2 ^ k)))"
  using g
proof (elim disjE)
  assume "\<exists>m. E = Returns (h\<lparr>m_capacity := m, m_readbackHeap := Some m\<rparr>) \<and>
            n \<le> m \<and> sz \<le> m \<and> (\<exists>k. m = c * 2 ^ k) \<and> m < 2 ^ 64 \<and> device m \<and>
            (m = n \<or> m < 2 * sz)"
  then obtain m where m: "E = Returns (h\<lparr>m_capacity := m, m_readbackHeap := Some m\<rparr>)"
    "n \<le> m" "sz \<le> m" "\<exists>k. m = c * 2 ^ k" "m < 2 ^ 64" "device m" "m = n \<or> m < 2 * sz"
    by blast
  let ?h' = "h\<lparr>m_capacity := m, m_readbackHeap := Some m\<rparr>"
  have "m_capacity h \<le> m_capacity ?h'" using m(2) n(1) by simp
  moreover have "m_capacity ?h' = m_capacity h \<or> m_capacity ?h' = c \<or> m_capacity ?h' < 2 * sz"
    using m(7) n(2) by auto
  ultimately have "E = Returns ?h' \<and>
            m_capacity h \<le> m_capacity ?h' \<and> sz \<le> m_capacity ?h' \<and>
            (\<exists>k. m_capacity ?h' = c * 2 ^ k) \<and> m_capacity ?h' < 2 ^ 64 \<and>
            m_readbackHeap ?h' = Some (m_capacity ?h') \<and>
            (?h' = h \<or> device (m_capacity ?h')) \<and>
            (m_capacity ?h' = m_capacity h \<or> m_capacity ?h' = c \<or> m_capacity ?h' < 2 * sz)"
    using m by simp
  then show ?thesis by blast
qed blast+

lemma EnsureReadbackHeap_cases:
  assumes c: "0 < c" "c < 2 ^ 64"
    and inv: "(m_readbackHeap h = None \<and> m_capacity h = 0) \<or>
              (\<exists>k. m_readbackHeap h = Some (c * 2 ^ k) \<and> m_capacity h = c * 2 ^ k \<and> c * 2 ^ k < 2 ^ 64)"
  shows "(\<exists>h'. EnsureReadbackHeap c device h sz = Returns h' \<and>
            m_capacity h \<le> m_capacity h' \<and> sz \<le> m_capacity h' \<and>
            (\<exists>k. m_capacity h' = c * 2 ^ k) \<and> m_capacity h' < 2 ^ 64 \<and>
            m_readbackHeap h' = Some (m_capacity h') \<and>
            (h' = h \<or> device (m_capacity h')) \<and>
            (m_capacity h' = m_capacity h \<or> m_capacity h' = c \<or> m_capacity h' < 2 * sz)) \<or>
         (EnsureReadbackHeap c device h sz = Throws E_OUTOFMEMORY \<and>
            (\<exists>k. c * 2 ^ k < sz \<and> SIZE_MAX div 2 \<le> c * 2 ^ k)) \<or>
         (EnsureReadbackHeap c device h sz = Throws FAILED_HRESULT \<and>
            (\<exists>k. sz \<le> c * 2 ^ k \<and> c * 2 ^ k < 2 ^ 64 \<and> \<not> device (c * 2 ^ k)))"
  using inv
proof
  assume fresh: "m_readbackHeap h = None \<and> m_capacity h = 0"
  have e: "EnsureReadbackHeap c device h sz =
      bind (ComputeNewCapacity c sz) (\<lambda>cap.
                   bind (CreateReadbackHeap device cap) (\<lambda>r.
                   EnsureReadbackHeap_check (h\<lparr>m_capacity := cap, m_readbackHeap := Some r\<rparr>) sz))"
    using fresh by (simp add: EnsureReadbackHeap_def bind_assoc)
  have "c = c * 2 ^ 0" by simp
  from grow_cases [OF c(1) this c(2), of sz device h]
  show ?thesis unfolding e by (rule grown_cases) (use fresh in simp_all)
next
  assume "\<exists>k. m_readbackHeap h = Some (c * 2 ^ k) \<and> m_capacity h = c * 2 ^ k \<and> c * 2 ^ k < 2 ^ 64"
  then obtain k where k: "m_readbackHeap h = Some (c * 2 ^ k)" "m_capacity h = c * 2 ^ k"
    "c * 2 ^ k < 2 ^ 64" by blast
  show ?thesis
  proof (cases "m_capacity h < sz")
    case True
    have e: "EnsureReadbackHeap c device h sz =
      bind (ComputeNewCapacity (m_capacity h) sz) (\<lambda>cap.
                   bind (CreateReadbackHeap device cap) (\<lambda>r.
                   EnsureReadbackHeap_check (h\<lparr>m_capacity := cap, m_readbackHeap := Some r\<rparr>) sz))"
      using k True by (simp add: EnsureReadbackHeap_def bind_assoc)
    have lt: "m_capacity h < 2 ^ 64" using k by simp
    from grow_cases [OF c(1) k(2) lt, of sz device h]
    show ?thesis unfolding e by (rule grown_cases) simp_all
  next
    case False
    then have "EnsureReadbackHeap c device h sz = Returns h"
      using k by (simp add: EnsureReadbackHeap_def EnsureReadbackHeap_check_def)
    moreover have "\<exists>j. m_capacity h = c * 2 ^ j" using k(2) by blast
    ultimately show ?thesis using False k by simp
  qed
qed

text \<open>
  C6. With a positive initial capacity, on a heap that is either not yet created or holds a
  power-of-two multiple of the initial capacity, \<open>EnsureReadbackHeap\<close> does one of three things.
  It returns: the capacity has not shrunk, is at least the requested size, is a power-of-two
  multiple of the initial capacity below \<open>2 ^ 64\<close> (computed without wrap-around), is the width
  of the resource, is that of an unchanged heap or of a buffer the device granted, and is the
  first sufficient capacity the doubling meets (the old capacity, the initial capacity, or less
  than twice the request). It throws \<open>E_OUTOFMEMORY\<close>: the doubling reached \<open>SIZE_MAX div 2\<close>
  while still below the request. Or it throws the device's failure: the device refused a buffer
  of a sufficient capacity. Moreover a request of at most \<open>SIZE_MAX div 2\<close> on a device that
  grants every buffer returns; a request that the heap already covers leaves the heap as it is;
  and when no power-of-two multiple of the initial capacity below \<open>2 ^ 64\<close> reaches the request,
  the call throws \<open>E_OUTOFMEMORY\<close> instead of handing out a truncated capacity.
\<close>

theorem EnsureReadbackHeap_capacity:
  assumes c: "0 < c" "c < 2 ^ 64"
    and inv: "(m_readbackHeap h = None \<and> m_capacity h = 0) \<or>
              (\<exists>k. m_readbackHeap h = Some (c * 2 ^ k) \<and> m_capacity h = c * 2 ^ k \<and> c * 2 ^ k < 2 ^ 64)"
  shows "((\<exists>h'. EnsureReadbackHeap c device h sz = Returns h' \<and>
            m_capacity h \<le> m_capacity h' \<and> sz \<le> m_capacity h' \<and>
            (\<exists>k. m_capacity h' = c * 2 ^ k) \<and> m_capacity h' < 2 ^ 64 \<and>
            m_readbackHeap h' = Some (m_capacity h') \<and>
            (h' = h \<or> device (m_capacity h')) \<and>
            (m_capacity h' = m_capacity h \<or> m_capacity h' = c \<or> m_capacity h' < 2 * sz)) \<or>
          (EnsureReadbackHeap c device h sz = Throws E_OUTOFMEMORY \<and>
            (\<exists>k. c * 2 ^ k < sz \<and> SIZE_MAX div 2 \<le> c * 2 ^ k)) \<or>
          (EnsureReadbackHeap c device h sz = Throws FAILED_HRESULT \<and>
            (\<exists>k. sz \<le> c * 2 ^ k \<and> c * 2 ^ k < 2 ^ 64 \<and> \<not> device (c * 2 ^ k)))) \<and>
         (sz \<le> SIZE_MAX div 2 \<and> (\<forall>n. device n) \<longrightarrow>
            (\<exists>h'. EnsureReadbackHeap c device h sz = Returns h' \<and> sz \<le> m_capacity h' \<and>
               (\<exists>k. m_capacity h' = c * 2 ^ k))) \<and>
         (m_readbackHeap h \<noteq> None \<and> sz \<le> m_capacity h \<longrightarrow>
            EnsureReadbackHeap c device h sz = Returns h) \<and>
         ((\<forall>k. c * 2 ^ k < sz \<or> 2 ^ 64 \<le> c * 2 ^ k) \<longrightarrow>
            EnsureReadbackHeap c device h sz = Throws E_OUTOFMEMORY)"
proof (intro conjI impI)
  note cases = EnsureReadbackHeap_cases [OF c inv, of device sz]
  show "(\<exists>h'. EnsureReadbackHeap c device h sz = Returns h' \<and>
            m_capacity h \<le> m_capacity h' \<and> sz \<le> m_capacity h' \<and>
            (\<exists>k. m_capacity h' = c * 2 ^ k) \<and> m_capacity h' < 2 ^ 64 \<and>
            m_readbackHeap h' = Some (m_capacity h') \<and>
            (h' = h \<or> device (m_capacity h')) \<and>
            (m_capacity h' = m_capacity h \<or> m_capacity h' = c \<or> m_capacity h' < 2 * sz)) \<or>
          (EnsureReadbackHeap c device h sz = Throws E_OUTOFMEMORY \<and>
            (\<exists>k. c * 2 ^ k < sz \<and> SIZE_MAX div 2 \<le> c * 2 ^ k)) \<or>
          (EnsureReadbackHeap c device h sz = Throws FAILED_HRESULT \<and>
            (\<exists>k. sz \<le> c * 2 ^ k \<and> c * 2 ^ k < 2 ^ 64 \<and> \<not> device (c * 2 ^ k)))"
    by (rule cases)
  show "\<exists>h'. EnsureReadbackHeap c device h sz = Returns h' \<and> sz \<le> m_capacity h' \<and>
               (\<exists>k. m_capacity h' = c * 2 ^ k)"
    if "sz \<le> SIZE_MAX div 2 \<and> (\<forall>n. device n)"
  proof -
    from that have small: "sz \<le> SIZE_MAX div 2" and grants: "\<And>n. device n" by simp_all
    have no_oom: "\<not> (\<exists>k. c * 2 ^ k < sz \<and> SIZE_MAX div 2 \<le> c * 2 ^ k)"
      using small by auto
    from cases no_oom grants show ?thesis by blast
  qed
  show "EnsureReadbackHeap c device h sz = Returns h"
    if "m_readbackHeap h \<noteq> None \<and> sz \<le> m_capacity h"
  proof -
    from that inv obtain k where "m_readbackHeap h = Some (c * 2 ^ k)" "m_capacity h = c * 2 ^ k"
      by auto
    with that show ?thesis
      by (simp add: EnsureReadbackHeap_def EnsureReadbackHeap_check_def)
  qed
  show "EnsureReadbackHeap c device h sz = Throws E_OUTOFMEMORY"
    if none: "\<forall>k. c * 2 ^ k < sz \<or> 2 ^ 64 \<le> c * 2 ^ k"
  proof -
    have no: "\<not> (sz \<le> c * 2 ^ k \<and> c * 2 ^ k < 2 ^ 64)" for k
      using none [rule_format, of k] by linarith
    have "EnsureReadbackHeap c device h sz \<noteq> Returns h'" for h'
    proof
      assume r: "EnsureReadbackHeap c device h sz = Returns h'"
      with cases have "sz \<le> m_capacity h' \<and> (\<exists>k. m_capacity h' = c * 2 ^ k) \<and> m_capacity h' < 2 ^ 64"
        by auto
      then obtain k where "sz \<le> c * 2 ^ k \<and> c * 2 ^ k < 2 ^ 64" by auto
      with no [of k] show False by simp
    qed
    moreover have "\<not> (\<exists>k. sz \<le> c * 2 ^ k \<and> c * 2 ^ k < 2 ^ 64 \<and> \<not> device (c * 2 ^ k))"
      using no by blast
    ultimately show ?thesis using cases by blast
  qed
qed

theorem EnsureReadbackHeap_capacity_witness:
  "(0::nat) < 1048576 \<and> (1048576::nat) < 2 ^ 64 \<and> (3000000::nat) \<le> SIZE_MAX div 2 \<and>
   EnsureReadbackHeap 1048576 (\<lambda>n. True) \<lparr>m_readbackHeap = None, m_capacity = 0\<rparr> 3000000
     = Returns \<lparr>m_readbackHeap = Some 4194304, m_capacity = 4194304\<rparr> \<and>
   (4194304::nat) = 1048576 * 2 ^ 2 \<and>
   EnsureReadbackHeap 1048576 (\<lambda>n. True) \<lparr>m_readbackHeap = Some 4194304, m_capacity = 4194304\<rparr> 3000
     = Returns \<lparr>m_readbackHeap = Some 4194304, m_capacity = 4194304\<rparr> \<and>
   EnsureReadbackHeap 1048576 (\<lambda>n. n < 2000000) \<lparr>m_readbackHeap = None, m_capacity = 0\<rparr> 3000000
     = Throws FAILED_HRESULT \<and>
   EnsureReadbackHeap 1048576 (\<lambda>n. True) \<lparr>m_readbackHeap = None, m_capacity = 0\<rparr> (2 ^ 64 - 1)
     = Throws E_OUTOFMEMORY"
  using EnsureReadbackHeap_capacity [where c = 1048576 and h = "\<lparr>m_readbackHeap = None, m_capacity = 0\<rparr>"
      and device = "\<lambda>n. True" and sz = 3000000]
  by (simp add: EnsureReadbackHeap_def ComputeNewCapacity_def ComputeNewCapacity_loop.simps
      CreateReadbackHeap_def EnsureReadbackHeap_check_def SIZE_MAX_def)

lemma unat_totalSize:
  "unat (totalSize acc dstSizes) = (unat acc + sum_list (map unat dstSizes)) mod 2 ^ 32"
proof (induction dstSizes arbitrary: acc)
  case Nil
  have "unat acc < 2 ^ 32" using unsigned_less [of acc, where 'a = nat] by simp
  then show ?case by simp
next
  case (Cons s dstSizes)
  have "unat (acc + s) = (unat acc + unat s) mod 2 ^ 32"
    by (simp add: unat_word_ariths)
  then show ?case
    by (simp add: Cons.IH mod_add_left_eq add.assoc)
qed

lemma overflowing_regions:
  "ReadbackFromGpu 1048576 (\<lambda>n. True) True \<lparr>m_readbackHeap = None, m_capacity = 0\<rparr>
      [0, 1] [2147483648, 2147483648] [0, 1]
     = Returns (\<lparr>m_readbackHeap = Some 1048576, m_capacity = 1048576\<rparr>,
          [CopyBufferRegion 0 0 2147483648, CopyBufferRegion 2147483648 1 2147483648, Flush,
           WaitForSignal, ReleaseCompletedReferences, MapHeap,
           Memcpy 0 0 2147483648, Memcpy 1 2147483648 2147483648, Unmap])"
  by (simp add: ReadbackFromGpu_def EnsureReadbackHeap_def ComputeNewCapacity_def
      ComputeNewCapacity_loop.simps CreateReadbackHeap_def EnsureReadbackHeap_check_def)

text \<open>
  C10. The multi-region \<open>ReadbackFromGpu\<close>, called with as many sizes and sources as regions and
  at least one region, is \<open>EnsureReadbackHeap\<close> on the sum of the region sizes in unsigned 32-bit
  arithmetic (the true total modulo \<open>2 ^ 32\<close>) followed by the copies. When it returns, the heap
  it leaves is the one \<open>EnsureReadbackHeap\<close> gives for the reduced sum, with the first capacity
  the doubling meets that covers the reduced sum; it returns whenever the device grants every
  buffer and the heap can be mapped. When the true total is below \<open>2 ^ 32\<close> the size ensured is
  the true total. For the two regions of \<open>2 ^ 31\<close> bytes, whose true total is \<open>2 ^ 32\<close>, the call
  returns with a heap whose capacity is strictly smaller than the true total.
\<close>

theorem ReadbackFromGpu_totalSize_mod:
  fixes dstSizes :: "32 word list"
  defines "S \<equiv> sum_list (map unat dstSizes)"
  assumes c: "0 < c" "c < 2 ^ 64"
    and inv: "(m_readbackHeap h = None \<and> m_capacity h = 0) \<or>
              (\<exists>k. m_readbackHeap h = Some (c * 2 ^ k) \<and> m_capacity h = c * 2 ^ k \<and> c * 2 ^ k < 2 ^ 64)"
    and len: "length dst = length src" "length dstSizes = length src" and ne: "dst \<noteq> []"
  shows "ReadbackFromGpu c device map_ok h dst dstSizes src =
           bind (EnsureReadbackHeap c device h (S mod 2 ^ 32)) (\<lambda>h'.
             if map_ok then
               Returns (h', copy_regions 0 0 dstSizes
                            @ [Flush, WaitForSignal, ReleaseCompletedReferences, MapHeap]
                            @ memcpy_regions 0 0 dstSizes @ [Unmap])
             else Throws FAILED_HRESULT) \<and>
         (\<forall>h' cmds. ReadbackFromGpu c device map_ok h dst dstSizes src = Returns (h', cmds) \<longrightarrow>
            EnsureReadbackHeap c device h (S mod 2 ^ 32) = Returns h' \<and>
            S mod 2 ^ 32 \<le> m_capacity h' \<and> m_readbackHeap h' = Some (m_capacity h') \<and>
            (m_capacity h' = m_capacity h \<or> m_capacity h' = c \<or> m_capacity h' < 2 * (S mod 2 ^ 32))) \<and>
         ((\<forall>n. device n) \<and> map_ok \<longrightarrow>
            returns (ReadbackFromGpu c device map_ok h dst dstSizes src)) \<and>
         (S < 2 ^ 32 \<longrightarrow>
            ReadbackFromGpu c device map_ok h dst dstSizes src =
              bind (EnsureReadbackHeap c device h S) (\<lambda>h'.
                if map_ok then
                  Returns (h', copy_regions 0 0 dstSizes
                               @ [Flush, WaitForSignal, ReleaseCompletedReferences, MapHeap]
                               @ memcpy_regions 0 0 dstSizes @ [Unmap])
                else Throws FAILED_HRESULT) \<and>
            (\<forall>h' cmds. ReadbackFromGpu c device map_ok h dst dstSizes src = Returns (h', cmds) \<longrightarrow>
               EnsureReadbackHeap c device h S = Returns h' \<and> S \<le> m_capacity h')) \<and>
         (\<exists>regions sizes sources h' cmds.
            2 ^ 32 \<le> sum_list (map unat sizes) \<and>
            ReadbackFromGpu 1048576 (\<lambda>n. True) True \<lparr>m_readbackHeap = None, m_capacity = 0\<rparr>
              regions sizes sources = Returns (h', cmds) \<and>
            m_capacity h' < sum_list (map unat sizes))"
proof -
  let ?R = "ReadbackFromGpu c device map_ok h dst dstSizes src"
  let ?E = "EnsureReadbackHeap c device h (S mod 2 ^ 32)"
  have total: "unat (totalSize 0 dstSizes) = S mod 2 ^ 32"
    by (simp add: unat_totalSize S_def)
  have eq: "?R = bind ?E (\<lambda>h'.
             if map_ok then
               Returns (h', copy_regions 0 0 dstSizes
                            @ [Flush, WaitForSignal, ReleaseCompletedReferences, MapHeap]
                            @ memcpy_regions 0 0 dstSizes @ [Unmap])
             else Throws FAILED_HRESULT)"
    using len ne by (simp add: ReadbackFromGpu_def total)
  note cases = EnsureReadbackHeap_cases [OF c inv, of device "S mod 2 ^ 32"]
  have ret: "?E = Returns h' \<and> S mod 2 ^ 32 \<le> m_capacity h' \<and>
      m_readbackHeap h' = Some (m_capacity h') \<and>
      (m_capacity h' = m_capacity h \<or> m_capacity h' = c \<or> m_capacity h' < 2 * (S mod 2 ^ 32))"
    if r: "?R = Returns (h', cmds)" for h' cmds
  proof -
    from r have e: "?E = Returns h'"
      unfolding eq by (cases ?E) (auto split: if_splits)
    with cases show ?thesis by auto
  qed
  have small: "S mod 2 ^ 32 \<le> SIZE_MAX div 2"
  proof -
    have "S mod 2 ^ 32 < 2 ^ 32" by simp
    then show ?thesis by (simp add: SIZE_MAX_def)
  qed
  have runs: "returns ?R" if "(\<forall>n. device n) \<and> map_ok"
  proof -
    have "\<not> (\<exists>k. c * 2 ^ k < S mod 2 ^ 32 \<and> SIZE_MAX div 2 \<le> c * 2 ^ k)"
      using small by auto
    with cases that obtain h' where "?E = Returns h'" by blast
    with that show ?thesis unfolding eq by (simp add: returns_def)
  qed
  have eq_small: "?R = bind (EnsureReadbackHeap c device h S) (\<lambda>h'.
             if map_ok then
               Returns (h', copy_regions 0 0 dstSizes
                            @ [Flush, WaitForSignal, ReleaseCompletedReferences, MapHeap]
                            @ memcpy_regions 0 0 dstSizes @ [Unmap])
             else Throws FAILED_HRESULT)" if "S < 2 ^ 32"
    using eq that by simp
  have true_total: "EnsureReadbackHeap c device h S = Returns h' \<and> S \<le> m_capacity h'"
    if "S < 2 ^ 32" and r: "?R = Returns (h', cmds)" for h' cmds
    using ret [OF r] that(1) by simp
  have over: "\<exists>regions sizes sources h' cmds.
            2 ^ 32 \<le> sum_list (map unat sizes) \<and>
            ReadbackFromGpu 1048576 (\<lambda>n. True) True \<lparr>m_readbackHeap = None, m_capacity = 0\<rparr>
              regions sizes sources = Returns (h', cmds) \<and>
            m_capacity h' < sum_list (map unat sizes)"
    apply (rule exI [of _ "[0, 1]"], rule exI [of _ "[2147483648, 2147483648]"])
    apply (rule exI [of _ "[0, 1]"])
    apply (rule exI [of _ "\<lparr>m_readbackHeap = Some 1048576, m_capacity = 1048576\<rparr>"])
    apply (rule exI)
    apply (rule conjI)
     apply simp
    apply (rule conjI)
     apply (rule overflowing_regions)
    apply simp
    done
  from eq ret runs eq_small true_total over show ?thesis by blast
qed

theorem ReadbackFromGpu_totalSize_mod_witness:
  "(0::nat) < 1048576 \<and> (1048576::nat) < 2 ^ 64 \<and>
   sum_list (map unat [3, 5 :: 32 word]) < 2 ^ 32 \<and>
   ReadbackFromGpu 1048576 (\<lambda>n. True) True \<lparr>m_readbackHeap = None, m_capacity = 0\<rparr> [0, 1] [3, 5] [0, 1]
     = Returns (\<lparr>m_readbackHeap = Some 1048576, m_capacity = 1048576\<rparr>,
          [CopyBufferRegion 0 0 3, CopyBufferRegion 3 1 5, Flush, WaitForSignal,
           ReleaseCompletedReferences, MapHeap, Memcpy 0 0 3, Memcpy 1 3 5, Unmap]) \<and>
   EnsureReadbackHeap 1048576 (\<lambda>n. True) \<lparr>m_readbackHeap = None, m_capacity = 0\<rparr>
       (sum_list (map unat [3, 5 :: 32 word]))
     = Returns \<lparr>m_readbackHeap = Some 1048576, m_capacity = 1048576\<rparr> \<and>
   sum_list (map unat [3, 5 :: 32 word]) \<le> 1048576 \<and>
   (2 :: nat) ^ 32 \<le> sum_list (map unat [2147483648, 2147483648 :: 32 word]) \<and>
   sum_list (map unat [2147483648, 2147483648 :: 32 word]) mod 2 ^ 32 = 0 \<and>
   ReadbackFromGpu 1048576 (\<lambda>n. True) True \<lparr>m_readbackHeap = None, m_capacity = 0\<rparr>
      [0, 1] [2147483648, 2147483648] [0, 1]
     = Returns (\<lparr>m_readbackHeap = Some 1048576, m_capacity = 1048576\<rparr>,
          [CopyBufferRegion 0 0 2147483648, CopyBufferRegion 2147483648 1 2147483648, Flush,
           WaitForSignal, ReleaseCompletedReferences, MapHeap,
           Memcpy 0 0 2147483648, Memcpy 1 2147483648 2147483648, Unmap]) \<and>
   (1048576 :: nat) < sum_list (map unat [2147483648, 2147483648 :: 32 word])"
proof -
  have run: "ReadbackFromGpu 1048576 (\<lambda>n. True) True \<lparr>m_readbackHeap = None, m_capacity = 0\<rparr> [0, 1] [3, 5] [0, 1]
     = Returns (\<lparr>m_readbackHeap = Some 1048576, m_capacity = 1048576\<rparr>,
          [CopyBufferRegion 0 0 3, CopyBufferRegion 3 1 5, Flush, WaitForSignal,
           ReleaseCompletedReferences, MapHeap, Memcpy 0 0 3, Memcpy 1 3 5, Unmap])"
    by (simp add: ReadbackFromGpu_def EnsureReadbackHeap_def ComputeNewCapacity_def
        ComputeNewCapacity_loop.simps CreateReadbackHeap_def EnsureReadbackHeap_check_def)
  have small: "sum_list (map unat [3, 5 :: 32 word]) < 2 ^ 32" by simp
  from ReadbackFromGpu_totalSize_mod [where dstSizes = "[3, 5]" and dst = "[0, 1]" and c = 1048576
      and device = "\<lambda>n. True" and map_ok = True and h = "\<lparr>m_readbackHeap = None, m_capacity = 0\<rparr>"
      and src = "[0, 1]"] run small
  have "EnsureReadbackHeap 1048576 (\<lambda>n. True) \<lparr>m_readbackHeap = None, m_capacity = 0\<rparr>
       (sum_list (map unat [3, 5 :: 32 word]))
     = Returns \<lparr>m_readbackHeap = Some 1048576, m_capacity = 1048576\<rparr> \<and>
   sum_list (map unat [3, 5 :: 32 word]) \<le> 1048576"
    by simp
  with run small overflowing_regions show ?thesis by simp
qed

section \<open>Loops, names, constructors\<close>


lemma bind_Returns_right: "bind m Returns = m"
  by (cases m) simp_all

lemma for_each_append:
  "for_each (xs @ ys) body s = bind (for_each xs body s) (for_each ys body)"
proof (induction xs arbitrary: s)
  case Nil
  show ?case by simp
next
  case (Cons a xs)
  show ?case by (cases "body a s") (simp_all add: Cons.IH)
qed

lemma for_each_upt_Suc:
  "for_each [0..<Suc n] body s = bind (for_each [0..<n] body s) (body n)"
proof -
  have "for_each [n] body s' = body n s'" for s'
    by (cases "body n s'") simp_all
  then have "bind m (for_each [n] body) = bind m (body n)" for m
    by (cases m) simp_all
  then show ?thesis by (simp add: for_each_append)
qed

lemma bind_Returns_iff:
  "bind m f = Returns y \<longleftrightarrow> (\<exists>x. m = Returns x \<and> f x = Returns y)"
  by (cases m) simp_all

lemma for_each_upt_rule:
  assumes "I 0 s"
    and "\<And>i t. i < n \<Longrightarrow> I i t \<Longrightarrow> \<exists>t'. body i t = Returns t' \<and> I (Suc i) t'"
  shows "\<exists>t. for_each [0..<n] body s = Returns t \<and> I n t"
  using assms(2)
proof (induction n)
  case 0
  then show ?case using assms(1) by simp
next
  case (Suc n)
  then obtain t where t: "for_each [0..<n] body s = Returns t" "I n t" by force
  from Suc.prems [of n t] t(2) obtain t' where "body n t = Returns t'" "I (Suc n) t'" by auto
  with t show ?case by (simp add: for_each_upt_Suc del: upt_Suc)
qed

lemma for_each_upt_Returns:
  assumes "for_each [0..<n] body s = Returns t" and "I 0 s"
    and "\<And>i u u'. i < n \<Longrightarrow> I i u \<Longrightarrow> body i u = Returns u' \<Longrightarrow> I (Suc i) u'"
  shows "I n t"
  using assms(1,3)
proof (induction n arbitrary: t)
  case 0
  then show ?case using assms(2) by simp
next
  case (Suc n)
  from Suc.prems(1) obtain u where u: "for_each [0..<n] body s = Returns u" "body n u = Returns t"
    by (auto simp: for_each_upt_Suc bind_Returns_iff simp del: upt_Suc)
  have "I n u" by (rule Suc.IH [OF u(1)]) (use Suc.prems(2) in auto)
  with u(2) Suc.prems(2) [of n u t] show ?case by simp
qed

lemma decimal_nonempty: "decimal n \<noteq> []"
  by (subst decimal.simps) simp

lemma digit_cases: "k < 10 \<Longrightarrow> k \<in> {0, 1, 2, 3, 4, 5, 6, 7, 8, 9 :: nat}"
  by auto

lemma digit_inj:
  "a < 10 \<Longrightarrow> b < 10 \<Longrightarrow> ''0123456789'' ! a = ''0123456789'' ! b \<Longrightarrow> a = b"
  by (drule digit_cases, drule digit_cases) auto

lemma digit_no_percent: "k < 10 \<Longrightarrow> ''0123456789'' ! k \<noteq> CHR ''%''"
  by (drule digit_cases) auto

lemma decimal_inj: "decimal m = decimal n \<Longrightarrow> m = n"
proof (induction m arbitrary: n rule: decimal.induct)
  case (1 m)
  show ?case
  proof (cases "m < 10")
    case True
    with 1(2) have eq: "decimal n = [''0123456789'' ! m]" by (subst (asm) decimal.simps) simp
    show ?thesis
    proof (cases "n < 10")
      case n: True
      then have "decimal n = [''0123456789'' ! n]" by (subst decimal.simps) simp
      with eq True n show ?thesis by (auto dest: digit_inj)
    next
      case False
      then have "decimal n = decimal (n div 10) @ [''0123456789'' ! (n mod 10)]"
        by (subst decimal.simps) simp
      with eq decimal_nonempty [of "n div 10"] show ?thesis
        by (cases "decimal (n div 10)") simp_all
    qed
  next
    case False
    then have m: "decimal m = decimal (m div 10) @ [''0123456789'' ! (m mod 10)]"
      by (subst decimal.simps) simp
    show ?thesis
    proof (cases "n < 10")
      case True
      then have "decimal n = [''0123456789'' ! n]" by (subst decimal.simps) simp
      with m 1(2) decimal_nonempty [of "m div 10"] show ?thesis
        by (cases "decimal (m div 10)") simp_all
    next
      case n: False
      then have "decimal n = decimal (n div 10) @ [''0123456789'' ! (n mod 10)]"
        by (subst decimal.simps) simp
      with m 1(2) have "decimal (m div 10) = decimal (n div 10)"
        and "''0123456789'' ! (m mod 10) = ''0123456789'' ! (n mod 10)" by simp_all
      then have "m div 10 = n div 10" "m mod 10 = n mod 10"
        using 1(1) [OF False] digit_inj [of "m mod 10" "n mod 10"] by auto
      then show ?thesis by (metis div_mult_mod_eq)
    qed
  qed
qed

lemma decimal_no_percent: "CHR ''%'' \<notin> set (decimal n)"
proof (induction n rule: decimal.induct)
  case (1 n)
  show ?case
  proof (cases "n < 10")
    case True
    then show ?thesis by (subst decimal.simps) (simp add: digit_no_percent [symmetric])
  next
    case False
    with 1 show ?thesis by (subst decimal.simps) (simp add: digit_no_percent [symmetric])
  qed
qed

lemma snprintf_literal_char:
  "CHR ''%'' \<noteq> c \<Longrightarrow> snprintf (c # xs) i u = map_option ((#) c) (snprintf xs i u)"
  by (cases xs) auto

lemma snprintf_literal: "CHR ''%'' \<notin> set s \<Longrightarrow> snprintf s i u = Some s"
  by (induction s) (simp_all add: snprintf_literal_char)

lemma snprintf_index:
  "CHR ''%'' \<notin> set p \<Longrightarrow> CHR ''%'' \<notin> set s \<Longrightarrow>
   snprintf (p @ ''%d'' @ s) i False = Some (p @ print_int i @ s)"
  by (induction p) (simp_all add: snprintf_literal_char snprintf_literal)

lemma ComposeKeyValueName_index:
  assumes "index_template t p s" and "ComposeKeyValueName t (int k) = Returns name"
  shows "name = p @ decimal k @ s"
proof -
  from assms(1) have "snprintf t (int k) False = Some (p @ print_int (int k) @ s)"
    unfolding index_template_def using snprintf_index by blast
  with assms(2) show ?thesis
    by (simp add: ComposeKeyValueName_def print_int_def split: if_splits)
qed

lemma names_differ_index:
  "i \<noteq> j \<Longrightarrow> p @ decimal i @ s \<noteq> p @ decimal j @ s"
  by (auto dest: decimal_inj)

lemma names_differ_suffix:
  assumes "\<not> suffix s s'" "\<not> suffix s' s"
  shows "p @ a @ s \<noteq> p' @ b @ s'"
proof
  assume eq: "p @ a @ s = p' @ b @ s'"
  have "suffix s (p @ a @ s)" by (metis append.assoc suffixI)
  moreover have "suffix s' (p @ a @ s)" unfolding eq by (metis append.assoc suffixI)
  ultimately show False using assms suffix_same_cases by blast
qed

lemma single_names:
  assumes run: "for_each [0..<n]
          (\<lambda>i (ins, outs).
             bind (ComposeKeyValueName tin (int i)) (\<lambda>past_name.
             bind (ComposeKeyValueName tout (int i)) (\<lambda>present_name.
             Returns (ins @ [past_name], outs @ [present_name]))))
          ([], []) = Returns (ins, outs)"
  shows "length ins = n \<and> length outs = n \<and>
     (\<forall>k<n. ComposeKeyValueName tin (int k) = Returns (ins ! k) \<and>
             ComposeKeyValueName tout (int k) = Returns (outs ! k))"
proof -
  let ?I = "\<lambda>i (t :: string list \<times> string list). length (fst t) = i \<and> length (snd t) = i \<and>
     (\<forall>k<i. ComposeKeyValueName tin (int k) = Returns (fst t ! k) \<and>
             ComposeKeyValueName tout (int k) = Returns (snd t ! k))"
  have "?I n (ins, outs)"
    by (rule for_each_upt_Returns [OF run, where I = ?I])
       (auto simp: bind_Returns_iff nth_append less_Suc_eq)
  then show ?thesis by simp
qed

lemma paired_names:
  assumes run: "for_each [0..<n]
          (\<lambda>i (ins, outs).
             bind (ComposeKeyValueName tk (int i)) (\<lambda>past_key.
             bind (ComposeKeyValueName tv (int i)) (\<lambda>past_value.
             bind (ComposeKeyValueName uk (int i)) (\<lambda>present_key.
             bind (ComposeKeyValueName uv (int i)) (\<lambda>present_value.
             Returns (ins @ [past_key, past_value], outs @ [present_key, present_value]))))))
          ([], []) = Returns (ins, outs)"
  shows "length ins = 2 * n \<and> length outs = 2 * n \<and>
     (\<forall>k<n. ComposeKeyValueName tk (int k) = Returns (ins ! (2 * k)) \<and>
             ComposeKeyValueName tv (int k) = Returns (ins ! (2 * k + 1)) \<and>
             ComposeKeyValueName uk (int k) = Returns (outs ! (2 * k)) \<and>
             ComposeKeyValueName uv (int k) = Returns (outs ! (2 * k + 1)))"
proof -
  let ?I = "\<lambda>i (t :: string list \<times> string list). length (fst t) = 2 * i \<and> length (snd t) = 2 * i \<and>
     (\<forall>k<i. ComposeKeyValueName tk (int k) = Returns (fst t ! (2 * k)) \<and>
             ComposeKeyValueName tv (int k) = Returns (fst t ! (2 * k + 1)) \<and>
             ComposeKeyValueName uk (int k) = Returns (snd t ! (2 * k)) \<and>
             ComposeKeyValueName uv (int k) = Returns (snd t ! (2 * k + 1)))"
  have "?I n (ins, outs)"
    by (rule for_each_upt_Returns [OF run, where I = ?I])
       (auto simp: bind_Returns_iff nth_append less_Suc_eq)
  then show ?thesis by simp
qed

lemma distinct_single:
  assumes "length xs = n" "\<forall>k<n. ComposeKeyValueName t (int k) = Returns (xs ! k)"
    "index_template t p s"
  shows "distinct xs"
proof -
  have "xs ! k = p @ decimal k @ s" if "k < n" for k
    using assms that ComposeKeyValueName_index by metis
  then show ?thesis
    using assms(1) by (auto simp: distinct_conv_nth dest: decimal_inj)
qed

lemma create_presents_length:
  assumes "create_presents n shape ty a = Returns (presents, a')"
  shows "length presents = n"
proof -
  let ?I = "\<lambda>i (t :: OrtValue option list \<times> Allocator). length (fst t) = i"
  have "?I n (presents, a')"
    by (rule for_each_upt_Returns [OF assms [unfolded create_presents_def], where I = ?I])
       (auto simp: bind_Returns_iff split: prod.splits)
  then show ?thesis by simp
qed

lemma KV_Cache_Combined_ctor_Returns:
  assumes "KV_Cache_Combined_ctor state model = Returns c"
  shows "\<exists>ins outs presents a1 a2.
     for_each [0..<num_hidden_layers (config' model)]
              (\<lambda>i (ins, outs).
                 bind (ComposeKeyValueName (past_names (config' model)) (int i)) (\<lambda>past_name.
                 bind (ComposeKeyValueName (present_names (config' model)) (int i)) (\<lambda>present_name.
                 Returns (ins @ [past_name], outs @ [present_name]))))
              ([], []) = Returns (ins, outs) \<and>
     ins \<noteq> [] \<and>
     GetInputDataType (session_info' model) (ins ! 0) = Returns (type' c) \<and>
     create_presents (num_hidden_layers (config' model)) (shape' c) (type' c) a1 = Returns (presents, a2) \<and>
     input_name_strings' c = ins \<and> output_name_strings' c = outs \<and> presents' c = presents \<and>
     layer_count' c = num_hidden_layers (config' model) \<and>
     pasts' c = replicate (num_hidden_layers (config' model)) None \<and>
     shape' c = [2, BatchBeamSize (params' state), num_key_value_heads (config' model),
                 sequence_length (params' state), head_size (config' model)]"
  using assms unfolding KV_Cache_Combined_ctor_def Let_def
  by (auto simp: bind_Returns_iff at_def split_beta split: if_splits) blast

lemma KV_Cache_ctor_names:
  assumes "KV_Cache_ctor state model g = Returns (c, g')"
  shows "\<exists>ins outs.
     for_each [0..<num_hidden_layers (config' model)]
              (\<lambda>i (ins, outs).
                 bind (ComposeKeyValueName (past_key_names (config' model)) (int i)) (\<lambda>past_key.
                 bind (ComposeKeyValueName (past_value_names (config' model)) (int i)) (\<lambda>past_value.
                 bind (ComposeKeyValueName (present_key_names (config' model)) (int i)) (\<lambda>present_key.
                 bind (ComposeKeyValueName (present_value_names (config' model)) (int i)) (\<lambda>present_value.
                 Returns (ins @ [past_key, past_value], outs @ [present_key, present_value]))))))
              ([], []) = Returns (ins, outs) \<and>
     ins \<noteq> [] \<and>
     GetInputDataType (session_info' model) (ins ! 0) = Returns (type' c) \<and>
     input_name_strings' c = ins \<and> output_name_strings' c = outs \<and>
     layer_count' c = num_hidden_layers (config' model)"
  using assms unfolding KV_Cache_ctor_def Let_def
  by (auto simp: bind_Returns_iff at_def split_beta split: if_splits)

lemma Cross_Cache_ctor_names:
  assumes "Cross_Cache_ctor state model = Returns c"
  shows "\<exists>ins outs.
     for_each [0..<num_hidden_layers (config' model)]
              (\<lambda>i (ins, outs).
                 bind (ComposeKeyValueName (cross_past_key_names (config' model)) (int i)) (\<lambda>past_key.
                 bind (ComposeKeyValueName (cross_past_value_names (config' model)) (int i)) (\<lambda>past_value.
                 bind (ComposeKeyValueName (cross_present_key_names (config' model)) (int i)) (\<lambda>present_key.
                 bind (ComposeKeyValueName (cross_present_value_names (config' model)) (int i)) (\<lambda>present_value.
                 Returns (ins @ [past_key, past_value], outs @ [present_key, present_value]))))))
              ([], []) = Returns (ins, outs) \<and>
     ins \<noteq> [] \<and>
     cross_input_name_strings' c = ins \<and> cross_output_name_strings' c = outs \<and>
     cross_layer_count' c = num_hidden_layers (config' model)"
  using assms unfolding Cross_Cache_ctor_def Let_def
  by (auto simp: bind_Returns_iff at_def split_beta split: if_splits)

lemma SlidingWindowKeyValueCache_ctor_names:
  assumes "SlidingWindowKeyValueCache_ctor state model = Returns c"
  shows "\<exists>ins outs.
     for_each [0..<num_hidden_layers (config' model)]
              (\<lambda>i (ins, outs).
                 bind (ComposeKeyValueName (past_key_names (config' model)) (int i)) (\<lambda>past_key.
                 bind (ComposeKeyValueName (past_value_names (config' model)) (int i)) (\<lambda>past_value.
                 bind (ComposeKeyValueName (present_key_names (config' model)) (int i)) (\<lambda>present_key.
                 bind (ComposeKeyValueName (present_value_names (config' model)) (int i)) (\<lambda>present_value.
                 Returns (ins @ [past_key, past_value], outs @ [present_key, present_value]))))))
              ([], []) = Returns (ins, outs) \<and>
     ins \<noteq> [] \<and>
     sw_input_name_strings' c = ins \<and> sw_output_name_strings' c = outs \<and>
     sw_layer_count' c = num_hidden_layers (config' model) \<and> sw_type' c = UINT8"
  using assms unfolding SlidingWindowKeyValueCache_ctor_def Let_def
  by (auto simp: bind_Returns_iff at_def split_beta split: if_splits)

section \<open>Slot names of the four caches\<close>

lemma names_differ_prefix:
  assumes "\<not> prefix p p'" "\<not> prefix p' p"
  shows "p @ a @ s \<noteq> p' @ b @ s'"
proof
  assume eq: "p @ a @ s = p' @ b @ s'"
  have "prefix p (p @ a @ s)" by simp
  moreover have "prefix p' (p @ a @ s)" unfolding eq by simp
  ultimately show False using assms prefix_same_cases by blast
qed

lemma distinct_apart:
  assumes len: "length xs = 2 * n"
    and key: "\<forall>k<n. ComposeKeyValueName tk (int k) = Returns (xs ! (2 * k))"
    and val: "\<forall>k<n. ComposeKeyValueName tv (int k) = Returns (xs ! (2 * k + 1))"
    and tk: "index_template tk pk sk" and tv: "index_template tv pv sv"
    and apart: "templates_apart pk sk pv sv"
  shows "distinct xs"
proof -
  have nth: "xs ! i = (if even i then pk @ decimal (i div 2) @ sk else pv @ decimal (i div 2) @ sv)"
    if "i < 2 * n" for i
  proof (cases "even i")
    case True
    then obtain k where k: "i = 2 * k" by (auto elim: evenE)
    with that key tk ComposeKeyValueName_index [of tk pk sk k "xs ! (2 * k)"] show ?thesis by simp
  next
    case False
    then obtain k where k: "i = 2 * k + 1" by (auto elim: oddE)
    with that val tv ComposeKeyValueName_index [of tv pv sv k "xs ! (2 * k + 1)"] show ?thesis by simp
  qed
  have cross: "pk @ a @ sk \<noteq> pv @ b @ sv" for a b
    using apart names_differ_prefix [of pk pv a sk b sv] names_differ_suffix [of sk sv pk a pv b]
    unfolding templates_apart_def by blast
  have "xs ! i \<noteq> xs ! j" if "i < 2 * n" "j < 2 * n" "i \<noteq> j" for i j
  proof (cases "even i = even j")
    case True
    with that(3) have "i div 2 \<noteq> j div 2"
      by (metis odd_two_times_div_two_succ even_two_times_div_two)
    with True that(1,2) show ?thesis by (auto simp: nth dest: decimal_inj)
  next
    case False
    with that(1,2) cross [of "decimal (i div 2)" "decimal (j div 2)"]
      cross [of "decimal (j div 2)" "decimal (i div 2)"]
    show ?thesis by (auto simp: nth)
  qed
  with len show ?thesis by (auto simp: distinct_conv_nth)
qed


lemmas example_defs = example_config_def example_params_def example_session_def
  example_allocator_def example_model_def example_state_def

lemma decimal_0: "decimal 0 = ''0''" by (subst decimal.simps) simp

lemma decimal_1: "decimal (Suc 0) = ''1''" by (subst decimal.simps) simp

lemmas run_defs = ComposeKeyValueName_def KeyValueNameLength_def print_int_def decimal_0 decimal_1
  at_def put_def deref_def GetInputDataType_def BatchBeamSize_def Let_def upt_conv_Cons

lemma Combined_ex: "\<exists>c. KV_Cache_Combined_ctor (example_state 2 False) (example_model ''llama'' FLOAT16) = Returns c"
  by (simp add: KV_Cache_Combined_ctor_def example_defs run_defs create_presents_def split_beta)

lemma Split_ex: "\<exists>c. KV_Cache_ctor (example_state 2 False) (example_model ''llama'' FLOAT16) \<lparr>enabled = True, warning = True, written = []\<rparr> = Returns c"
  by (simp add: KV_Cache_ctor_def example_defs run_defs split_beta memset_def CreateTensor_def ElementCountFromShape_def)

lemma Cross_ex: "\<exists>c. Cross_Cache_ctor (example_state 2 False) (example_model ''llama'' FLOAT16) = Returns c"
  by (simp add: Cross_Cache_ctor_def example_defs run_defs split_beta)

lemma Sliding_ex: "\<exists>c. SlidingWindowKeyValueCache_ctor (example_state 2 False) (example_model ''llama'' UINT8) = Returns c"
  by (simp add: SlidingWindowKeyValueCache_ctor_def example_defs run_defs split_beta fill_n_def CreateTensor_def ElementCountFromShape_def)

lemma example_templates:
  "index_template ''past_%d'' ''past_'' ''''"
  "index_template ''present_%d'' ''present_'' ''''"
  "index_template ''past_key_values.%d.key'' ''past_key_values.'' ''.key''"
  "index_template ''past_key_values.%d.value'' ''past_key_values.'' ''.value''"
  "index_template ''present.%d.key'' ''present.'' ''.key''"
  "index_template ''present.%d.value'' ''present.'' ''.value''"
  "index_template ''past_key_cross_%d'' ''past_key_cross_'' ''''"
  "index_template ''past_value_cross_%d'' ''past_value_cross_'' ''''"
  "index_template ''present_key_cross_%d'' ''present_key_cross_'' ''''"
  "index_template ''present_value_cross_%d'' ''present_value_cross_'' ''''"
  by (simp_all add: index_template_def)

lemma example_apart:
  "templates_apart ''past_key_values.'' ''.key'' ''past_key_values.'' ''.value''"
  "templates_apart ''present.'' ''.key'' ''present.'' ''.value''"
  "templates_apart ''past_key_cross_'' '''' ''past_value_cross_'' ''''"
  "templates_apart ''present_key_cross_'' '''' ''present_value_cross_'' ''''"
  by (simp_all add: templates_apart_def suffix_to_prefix)


text \<open>
  C8 (as amended). A constructor that returns had at least one layer and made, for \<open>L\<close> layers,
  \<open>L\<close> input and \<open>L\<close> output names in the combined cache and \<open>2 * L\<close> of each in the
  split, the cross-attention and the sliding-window cache (a key and a value name per layer).
  The names of one list are pairwise distinct when its templates have the form
  \<open>prefix %d suffix\<close> and, where a key and a value template share the list, the two cannot
  produce the same name.
\<close>

theorem cache_slot_names:
  fixes model :: Model
  defines "cfg \<equiv> config' model"
  defines "L \<equiv> num_hidden_layers (config' model)"
  shows
  "(KV_Cache_Combined_ctor state model = Returns combined \<longrightarrow>
      1 \<le> L \<and>
      length (input_name_strings' combined) = L \<and> length (output_name_strings' combined) = L \<and>
      (index_template (past_names cfg) p1 s1 \<longrightarrow> distinct (input_name_strings' combined)) \<and>
      (index_template (present_names cfg) p2 s2 \<longrightarrow> distinct (output_name_strings' combined))) \<and>
   (KV_Cache_ctor state model g = Returns (split, g') \<longrightarrow>
      1 \<le> L \<and>
      length (input_name_strings' split) = 2 * L \<and> length (output_name_strings' split) = 2 * L \<and>
      (index_template (past_key_names cfg) pk sk \<and> index_template (past_value_names cfg) pv sv \<and>
       templates_apart pk sk pv sv \<longrightarrow> distinct (input_name_strings' split)) \<and>
      (index_template (present_key_names cfg) qk tk \<and> index_template (present_value_names cfg) qv tv \<and>
       templates_apart qk tk qv tv \<longrightarrow> distinct (output_name_strings' split))) \<and>
   (Cross_Cache_ctor state model = Returns cross \<longrightarrow>
      1 \<le> L \<and>
      length (cross_input_name_strings' cross) = 2 * L \<and>
      length (cross_output_name_strings' cross) = 2 * L \<and>
      (index_template (cross_past_key_names cfg) ck cs \<and>
       index_template (cross_past_value_names cfg) cv ct \<and>
       templates_apart ck cs cv ct \<longrightarrow> distinct (cross_input_name_strings' cross)) \<and>
      (index_template (cross_present_key_names cfg) dk ds \<and>
       index_template (cross_present_value_names cfg) dv dt \<and>
       templates_apart dk ds dv dt \<longrightarrow> distinct (cross_output_name_strings' cross))) \<and>
   (SlidingWindowKeyValueCache_ctor state model = Returns sliding \<longrightarrow>
      1 \<le> L \<and>
      length (sw_input_name_strings' sliding) = 2 * L \<and>
      length (sw_output_name_strings' sliding) = 2 * L \<and>
      (index_template (past_key_names cfg) pk sk \<and> index_template (past_value_names cfg) pv sv \<and>
       templates_apart pk sk pv sv \<longrightarrow> distinct (sw_input_name_strings' sliding)) \<and>
      (index_template (present_key_names cfg) qk tk \<and> index_template (present_value_names cfg) qv tv \<and>
       templates_apart qk tk qv tv \<longrightarrow> distinct (sw_output_name_strings' sliding)))"
proof (intro conjI impI)
  assume "KV_Cache_Combined_ctor state model = Returns combined"
  from KV_Cache_Combined_ctor_Returns [OF this] obtain ins outs where
    run: "for_each [0..<L]
              (\<lambda>i (ins, outs).
                 bind (ComposeKeyValueName (past_names cfg) (int i)) (\<lambda>past_name.
                 bind (ComposeKeyValueName (present_names cfg) (int i)) (\<lambda>present_name.
                 Returns (ins @ [past_name], outs @ [present_name]))))
              ([], []) = Returns (ins, outs)"
    and ne: "ins \<noteq> []"
    and eq: "input_name_strings' combined = ins" "output_name_strings' combined = outs"
    unfolding cfg_def L_def by blast
  note names = single_names [OF run]
  from names ne show "1 \<le> L" by (cases L) auto
  from names eq show "length (input_name_strings' combined) = L"
    "length (output_name_strings' combined) = L" by simp_all
  show "distinct (input_name_strings' combined)" if "index_template (past_names cfg) p1 s1"
    using distinct_single [of ins L "past_names cfg" p1 s1] names that eq by simp
  show "distinct (output_name_strings' combined)" if "index_template (present_names cfg) p2 s2"
    using distinct_single [of outs L "present_names cfg" p2 s2] names that eq by simp
next
  assume "KV_Cache_ctor state model g = Returns (split, g')"
  from KV_Cache_ctor_names [OF this] obtain ins outs where
    run: "for_each [0..<L]
              (\<lambda>i (ins, outs).
                 bind (ComposeKeyValueName (past_key_names cfg) (int i)) (\<lambda>past_key.
                 bind (ComposeKeyValueName (past_value_names cfg) (int i)) (\<lambda>past_value.
                 bind (ComposeKeyValueName (present_key_names cfg) (int i)) (\<lambda>present_key.
                 bind (ComposeKeyValueName (present_value_names cfg) (int i)) (\<lambda>present_value.
                 Returns (ins @ [past_key, past_value], outs @ [present_key, present_value]))))))
              ([], []) = Returns (ins, outs)"
    and ne: "ins \<noteq> []"
    and eq: "input_name_strings' split = ins" "output_name_strings' split = outs"
    unfolding cfg_def L_def by blast
  note names = paired_names [OF run]
  from names ne show "1 \<le> L" by (cases L) auto
  from names eq show "length (input_name_strings' split) = 2 * L"
    "length (output_name_strings' split) = 2 * L" by simp_all
  show "distinct (input_name_strings' split)"
    if "index_template (past_key_names cfg) pk sk \<and> index_template (past_value_names cfg) pv sv \<and>
       templates_apart pk sk pv sv"
    using distinct_apart [of ins L "past_key_names cfg" "past_value_names cfg" pk sk pv sv]
      names that eq by simp
  show "distinct (output_name_strings' split)"
    if "index_template (present_key_names cfg) qk tk \<and> index_template (present_value_names cfg) qv tv \<and>
       templates_apart qk tk qv tv"
    using distinct_apart [of outs L "present_key_names cfg" "present_value_names cfg" qk tk qv tv]
      names that eq by simp
next
  assume "Cross_Cache_ctor state model = Returns cross"
  from Cross_Cache_ctor_names [OF this] obtain ins outs where
    run: "for_each [0..<L]
              (\<lambda>i (ins, outs).
                 bind (ComposeKeyValueName (cross_past_key_names cfg) (int i)) (\<lambda>past_key.
                 bind (ComposeKeyValueName (cross_past_value_names cfg) (int i)) (\<lambda>past_value.
                 bind (ComposeKeyValueName (cross_present_key_names cfg) (int i)) (\<lambda>present_key.
                 bind (ComposeKeyValueName (cross_present_value_names cfg) (int i)) (\<lambda>present_value.
                 Returns (ins @ [past_key, past_value], outs @ [present_key, present_value]))))))
              ([], []) = Returns (ins, outs)"
    and ne: "ins \<noteq> []"
    and eq: "cross_input_name_strings' cross = ins" "cross_output_name_strings' cross = outs"
    unfolding cfg_def L_def by blast
  note names = paired_names [OF run]
  from names ne show "1 \<le> L" by (cases L) auto
  from names eq show "length (cross_input_name_strings' cross) = 2 * L"
    "length (cross_output_name_strings' cross) = 2 * L" by simp_all
  show "distinct (cross_input_name_strings' cross)"
    if "index_template (cross_past_key_names cfg) ck cs \<and>
       index_template (cross_past_value_names cfg) cv ct \<and> templates_apart ck cs cv ct"
    using distinct_apart [of ins L "cross_past_key_names cfg" "cross_past_value_names cfg" ck cs cv ct]
      names that eq by simp
  show "distinct (cross_output_name_strings' cross)"
    if "index_template (cross_present_key_names cfg) dk ds \<and>
       index_template (cross_present_value_names cfg) dv dt \<and> templates_apart dk ds dv dt"
    using distinct_apart [of outs L "cross_present_key_names cfg" "cross_present_value_names cfg"
        dk ds dv dt] names that eq by simp
next
  assume "SlidingWindowKeyValueCache_ctor state model = Returns sliding"
  from SlidingWindowKeyValueCache_ctor_names [OF this] obtain ins outs where
    run: "for_each [0..<L]
              (\<lambda>i (ins, outs).
                 bind (ComposeKeyValueName (past_key_names cfg) (int i)) (\<lambda>past_key.
                 bind (ComposeKeyValueName (past_value_names cfg) (int i)) (\<lambda>past_value.
                 bind (ComposeKeyValueName (present_key_names cfg) (int i)) (\<lambda>present_key.
                 bind (ComposeKeyValueName (present_value_names cfg) (int i)) (\<lambda>present_value.
                 Returns (ins @ [past_key, past_value], outs @ [present_key, present_value]))))))
              ([], []) = Returns (ins, outs)"
    and ne: "ins \<noteq> []"
    and eq: "sw_input_name_strings' sliding = ins" "sw_output_name_strings' sliding = outs"
    unfolding cfg_def L_def by blast
  note names = paired_names [OF run]
  from names ne show "1 \<le> L" by (cases L) auto
  from names eq show "length (sw_input_name_strings' sliding) = 2 * L"
    "length (sw_output_name_strings' sliding) = 2 * L" by simp_all
  show "distinct (sw_input_name_strings' sliding)"
    if "index_template (past_key_names cfg) pk sk \<and> index_template (past_value_names cfg) pv sv \<and>
       templates_apart pk sk pv sv"
    using distinct_apart [of ins L "past_key_names cfg" "past_value_names cfg" pk sk pv sv]
      names that eq by simp
  show "distinct (sw_output_name_strings' sliding)"
    if "index_template (present_key_names cfg) qk tk \<and> index_template (present_value_names cfg) qv tv \<and>
       templates_apart qk tk qv tv"
    using distinct_apart [of outs L "present_key_names cfg" "present_value_names cfg" qk tk qv tv]
      names that eq by simp
qed

theorem cache_slot_names_witness:
  "(\<exists>c. KV_Cache_Combined_ctor (example_state 2 False) (example_model ''llama'' FLOAT16) = Returns c \<and>
        length (input_name_strings' c) = 1 \<and> length (output_name_strings' c) = 1 \<and>
        distinct (input_name_strings' c) \<and> distinct (output_name_strings' c)) \<and>
   (\<exists>c g'. KV_Cache_ctor (example_state 2 False) (example_model ''llama'' FLOAT16)
             \<lparr>enabled = True, warning = True, written = []\<rparr> = Returns (c, g') \<and>
        length (input_name_strings' c) = 2 \<and> length (output_name_strings' c) = 2 \<and>
        distinct (input_name_strings' c) \<and> distinct (output_name_strings' c)) \<and>
   (\<exists>c. Cross_Cache_ctor (example_state 2 False) (example_model ''llama'' FLOAT16) = Returns c \<and>
        length (cross_input_name_strings' c) = 2 \<and> length (cross_output_name_strings' c) = 2 \<and>
        distinct (cross_input_name_strings' c) \<and> distinct (cross_output_name_strings' c)) \<and>
   (\<exists>c. SlidingWindowKeyValueCache_ctor (example_state 2 False) (example_model ''llama'' UINT8)
          = Returns c \<and>
        length (sw_input_name_strings' c) = 2 \<and> length (sw_output_name_strings' c) = 2 \<and>
        distinct (sw_input_name_strings' c) \<and> distinct (sw_output_name_strings' c))"
proof -
  let ?st = "example_state 2 False"
  obtain c1 where c1: "KV_Cache_Combined_ctor ?st (example_model ''llama'' FLOAT16) = Returns c1"
    using Combined_ex by blast
  obtain c2 g2 where c2: "KV_Cache_ctor ?st (example_model ''llama'' FLOAT16)
      \<lparr>enabled = True, warning = True, written = []\<rparr> = Returns (c2, g2)"
    using Split_ex by fastforce
  obtain c3 where c3: "Cross_Cache_ctor ?st (example_model ''llama'' FLOAT16) = Returns c3"
    using Cross_ex by blast
  obtain c4 where c4: "SlidingWindowKeyValueCache_ctor ?st (example_model ''llama'' UINT8) = Returns c4"
    using Sliding_ex by blast
  have cfg: "config' (example_model family ty) = example_config family" for family ty
    by (simp add: example_model_def)
  note t = example_templates example_apart
  from cache_slot_names [where state = ?st and model = "example_model ''llama'' FLOAT16"
      and combined = c1 and split = c2 and g = "\<lparr>enabled = True, warning = True, written = []\<rparr>"
      and g' = g2 and cross = c3
      and ?p1.0 = "''past_''" and ?s1.0 = "''''" and ?p2.0 = "''present_''" and ?s2.0 = "''''"
      and pk = "''past_key_values.''" and sk = "''.key''"
      and pv = "''past_key_values.''" and sv = "''.value''"
      and qk = "''present.''" and tk = "''.key''" and qv = "''present.''" and tv = "''.value''"
      and ck = "''past_key_cross_''" and cs = "''''" and cv = "''past_value_cross_''" and ct = "''''"
      and dk = "''present_key_cross_''" and ds = "''''" and dv = "''present_value_cross_''"
      and dt = "''''"]
    c1 c2 c3 t
  have A: "length (input_name_strings' c1) = 1 \<and> length (output_name_strings' c1) = 1 \<and>
        distinct (input_name_strings' c1) \<and> distinct (output_name_strings' c1)"
    and B: "length (input_name_strings' c2) = 2 \<and> length (output_name_strings' c2) = 2 \<and>
        distinct (input_name_strings' c2) \<and> distinct (output_name_strings' c2)"
    and C: "length (cross_input_name_strings' c3) = 2 \<and> length (cross_output_name_strings' c3) = 2 \<and>
        distinct (cross_input_name_strings' c3) \<and> distinct (cross_output_name_strings' c3)"
    by (simp_all add: cfg example_config_def)
  from cache_slot_names [where state = ?st and model = "example_model ''llama'' UINT8"
      and sliding = c4
      and pk = "''past_key_values.''" and sk = "''.key''"
      and pv = "''past_key_values.''" and sv = "''.value''"
      and qk = "''present.''" and tk = "''.key''" and qv = "''present.''" and tv = "''.value''"]
    c4 t
  have D: "length (sw_input_name_strings' c4) = 2 \<and> length (sw_output_name_strings' c4) = 2 \<and>
        distinct (sw_input_name_strings' c4) \<and> distinct (sw_output_name_strings' c4)"
    by (simp add: cfg example_config_def)
  from A B C D c1 c2 c3 c4 show ?thesis by blast
qed

theorem cache_slot_names_counterexample:
  "(case Cross_Cache_ctor (example_state 2 False) (example_model ''llama'' FLOAT16) of
      Returns c \<Rightarrow> cross_layer_count' c = 1 \<and>
        cross_input_name_strings' c = [''past_key_cross_0'', ''past_value_cross_0''] \<and>
        cross_output_name_strings' c = [''present_key_cross_0'', ''present_value_cross_0'']
    | _ \<Rightarrow> False) \<and>
   (case SlidingWindowKeyValueCache_ctor (example_state 2 False) (example_model ''llama'' UINT8) of
      Returns c \<Rightarrow> sw_layer_count' c = 1 \<and>
        sw_input_name_strings' c = [''past_key_values.0.key'', ''past_key_values.0.value''] \<and>
        sw_output_name_strings' c = [''present.0.key'', ''present.0.value'']
    | _ \<Rightarrow> False) \<and>
   (case KV_Cache_Combined_ctor (example_state 2 False)
           ((example_model ''llama'' FLOAT16)
              \<lparr>config' := (example_config ''llama'')\<lparr>num_hidden_layers := 2, past_names := ''past''\<rparr>,
               session_info' := [''past'' \<mapsto> FLOAT16]\<rparr>) of
      Returns c \<Rightarrow> layer_count' c = 2 \<and> input_name_strings' c = [''past'', ''past'']
    | _ \<Rightarrow> False)"
proof (intro conjI)
  show "case Cross_Cache_ctor (example_state 2 False) (example_model ''llama'' FLOAT16) of
      Returns c \<Rightarrow> cross_layer_count' c = 1 \<and>
        cross_input_name_strings' c = [''past_key_cross_0'', ''past_value_cross_0''] \<and>
        cross_output_name_strings' c = [''present_key_cross_0'', ''present_value_cross_0'']
    | _ \<Rightarrow> False"
    by (simp add: Cross_Cache_ctor_def example_defs run_defs split_beta)
  show "case SlidingWindowKeyValueCache_ctor (example_state 2 False) (example_model ''llama'' UINT8) of
      Returns c \<Rightarrow> sw_layer_count' c = 1 \<and>
        sw_input_name_strings' c = [''past_key_values.0.key'', ''past_key_values.0.value''] \<and>
        sw_output_name_strings' c = [''present.0.key'', ''present.0.value'']
    | _ \<Rightarrow> False"
    by (simp add: SlidingWindowKeyValueCache_ctor_def example_defs run_defs split_beta fill_n_def
        CreateTensor_def ElementCountFromShape_def)
  show "case KV_Cache_Combined_ctor (example_state 2 False)
           ((example_model ''llama'' FLOAT16)
              \<lparr>config' := (example_config ''llama'')\<lparr>num_hidden_layers := 2, past_names := ''past''\<rparr>,
               session_info' := [''past'' \<mapsto> FLOAT16]\<rparr>) of
      Returns c \<Rightarrow> layer_count' c = 2 \<and> input_name_strings' c = [''past'', ''past'']
    | _ \<Rightarrow> False"
    by (simp add: KV_Cache_Combined_ctor_def example_defs run_defs create_presents_def split_beta)
qed

section \<open>Calls that return\<close>

lemma returns_simps [simp]:
  "returns (Returns x)" "\<not> returns (Throws e)" "\<not> returns AssertFails"
  "\<not> returns UndefinedBehaviour" "\<not> returns Diverges"
  by (simp_all add: returns_def)

lemma returns_bind: "returns (bind m f) \<longleftrightarrow> (\<exists>x. m = Returns x \<and> returns (f x))"
  by (cases m) simp_all



lemma example_proj:
  "search_past_present_share_buffer (params' (example_state beams share)) = share"
  "search_num_beams (params' (example_state beams share)) = beams"
  "model_type (config' (example_model family ty)) = family"
  "num_hidden_layers (config' (example_model family ty)) = 1"
  by (simp_all add: example_defs)

section \<open>Shared-buffer mode\<close>

lemma KV_Cache_ctor_presents:
  assumes "KV_Cache_ctor state model g = Returns (c, g')"
  shows "length (presents' c) = layer_count' c * 2 \<and> state' c = state \<and>
     (\<forall>p\<in>set (presents' c). p \<noteq> None)"
proof -
  from assms obtain presents a2 sb shape2 ty a1 kv where
    run: "for_each [0..<num_hidden_layers (config' model) * 2]
              (\<lambda>i (presents, a).
                 bind (if sb = [] then Returns (CreateTensor a shape2 ty)
                       else bind (at sb i) (\<lambda>b. Returns (CreateTensorOnStaticBuffer a b shape2 ty, a)))
                   (\<lambda>(t, a').
                 bind (memset (tensor_data t) kv) (\<lambda>zeroed.
                 Returns (presents @ [Some (t\<lparr>tensor_data := zeroed\<rparr>)], a'))))
              ([], a1) = Returns (presents, a2)"
    and c: "presents' c = presents" "layer_count' c = num_hidden_layers (config' model)"
      "state' c = state"
    unfolding KV_Cache_ctor_def Let_def
    by (auto simp: bind_Returns_iff split_beta split: if_splits)
  let ?I = "\<lambda>i (t :: OrtValue option list \<times> Allocator). length (fst t) = i \<and>
     (\<forall>p\<in>set (fst t). p \<noteq> None)"
  have "?I (num_hidden_layers (config' model) * 2) (presents, a2)"
    by (rule for_each_upt_Returns [OF run, where I = ?I])
       (auto simp: bind_Returns_iff split_beta split: if_splits)
  with c show ?thesis by simp
qed

lemma KV_Cache_Add_shared:
  assumes add: "KV_Cache_Add c0 = Returns c"
    and share: "past_present_share_buffer' c0"
    and len: "length (presents' c0) = layer_count' c0 * 2"
  shows "past_present_share_buffer' c \<and> presents' c = presents' c0 \<and>
     layer_count' c = layer_count' c0 \<and>
     input_index' c = Some (length (inputs' (state' c0))) \<and>
     output_index' c = Some (length (outputs' (state' c0))) \<and>
     inputs' (state' c) = inputs' (state' c0) @ map get (presents' c0) \<and>
     outputs' (state' c) = outputs' (state' c0) @ map get (presents' c0)"
proof -
  let ?n = "layer_count' c0 * 2"
  let ?ps = "presents' c0"
  let ?same = "\<lambda>c. past_present_share_buffer' c \<and> presents' c = ?ps \<and>
     layer_count' c = layer_count' c0 \<and> empty_past' c = empty_past' c0 \<and>
     input_index' c = Some (length (inputs' (state' c0))) \<and>
     output_index' c = Some (length (outputs' (state' c0)))"
  let ?I = "\<lambda>i c. ?same c \<and>
     inputs' (state' c) = inputs' (state' c0) @ replicate i (get (empty_past' c0)) \<and>
     outputs' (state' c) = outputs' (state' c0) @ map get (take i ?ps)"
  let ?J = "\<lambda>i c. ?same c \<and>
     inputs' (state' c) = inputs' (state' c0) @ map get (take i ?ps)
        @ replicate (?n - i) (get (empty_past' c0)) \<and>
     outputs' (state' c) = outputs' (state' c0) @ map get ?ps"
  from add obtain c1 where
    loop1: "for_each [0..<?n]
       (\<lambda>i c.
          bind (at (input_name_strings' c) i) (\<lambda>input_name.
          bind (at (presents' c) i) (\<lambda>present.
          bind (at (output_name_strings' c) i) (\<lambda>output_name.
          Returns (c\<lparr>state' := (state' c)
            \<lparr>inputs' := inputs' (state' c) @ [get (empty_past' c)],
             input_names' := input_names' (state' c) @ [input_name],
             outputs' := outputs' (state' c) @ [get present],
             output_names' := output_names' (state' c) @ [output_name]\<rparr>\<rparr>)))))
       (c0\<lparr>input_index' := Some (length (inputs' (state' c0))),
          output_index' := Some (length (outputs' (state' c0)))\<rparr>) = Returns c1"
    and rest: "(if past_present_share_buffer' c1 then
       for_each [0..<layer_count' c1 * 2]
         (\<lambda>i c.
            bind (deref (input_index' c)) (\<lambda>input_index.
            bind (at (presents' c) i) (\<lambda>present.
            bind (put (inputs' (state' c)) (input_index + i) (get present)) (\<lambda>inputs.
            Returns (c\<lparr>state' := (state' c)\<lparr>inputs' := inputs\<rparr>\<rparr>)))))
         c1
     else Returns c1) = Returns c"
    unfolding KV_Cache_Add_def by (auto simp: bind_Returns_iff)
  have I: "?I ?n c1"
    by (rule for_each_upt_Returns [OF loop1, where I = ?I])
       (use share len in \<open>auto simp: bind_Returns_iff at_def take_Suc_conv_app_nth
          replicate_append_same split: if_splits\<close>)
  with rest have loop2: "for_each [0..<?n]
         (\<lambda>i c.
            bind (deref (input_index' c)) (\<lambda>input_index.
            bind (at (presents' c) i) (\<lambda>present.
            bind (put (inputs' (state' c)) (input_index + i) (get present)) (\<lambda>inputs.
            Returns (c\<lparr>state' := (state' c)\<lparr>inputs' := inputs\<rparr>\<rparr>)))))
         c1 = Returns c"
    by simp
  have "?J ?n c"
  proof (rule for_each_upt_Returns [OF loop2, where I = ?J])
    show "?J 0 c1" using I len by simp
  next
    fix i u u'
    assume i: "i < ?n" and J: "?J i u"
      and step: "bind (deref (input_index' u)) (\<lambda>input_index.
            bind (at (presents' u) i) (\<lambda>present.
            bind (put (inputs' (state' u)) (input_index + i) (get present)) (\<lambda>inputs.
            Returns (u\<lparr>state' := (state' u)\<lparr>inputs' := inputs\<rparr>\<rparr>)))) = Returns u'"
    have upd: "(xs @ ys @ replicate (?n - i) e)[length xs + i := v]
        = xs @ (ys @ [v]) @ replicate (?n - Suc i) e" if "length ys = i" for xs ys :: "nat option list" and e v
    proof -
      from i obtain m where m: "?n - i = Suc m" by (cases "?n - i") auto
      then have "?n - Suc i = m" by simp
      with m that show ?thesis by (simp add: list_update_append)
    qed
    from i len have "length (map get (take i ?ps)) = i" by simp
    from upd [OF this] step J i len show "?J (Suc i) u'"
      by (auto simp: bind_Returns_iff at_def put_def deref_def take_Suc_conv_app_nth
          split: if_splits)
  qed
  with len show ?thesis by simp
qed


lemma Split_shared_example:
  "\<exists>c0 g' c. KV_Cache_ctor (example_state 1 True) (example_model ''llama'' FLOAT16)
        \<lparr>enabled = True, warning = True, written = []\<rparr> = Returns (c0, g') \<and>
     KV_Cache_Add c0 = Returns c"
  by (simp add: KV_Cache_ctor_def KV_Cache_Add_def example_defs run_defs split_beta memset_def
      CreateTensor_def ElementCountFromShape_def get_def)


text \<open>
  C3. A split cache constructed with the shared-buffer request under a compatible configuration
  (\<open>num_beams = 1\<close> or model type \<open>whisper\<close>) and then bound with \<open>Add\<close>: every sequence of
  \<open>Update\<close> calls, whatever their beam indices and lengths, returns and leaves the whole cache
  state as it was; each input slot and the matching output slot hold the address of the same
  present tensor.
\<close>

theorem KV_Cache_shared_Update:
  assumes ctor: "KV_Cache_ctor state model g = Returns (c0, g')"
    and req: "search_past_present_share_buffer (params' state)"
    and compat: "search_num_beams (params' state) = 1 \<or> model_type (config' model) = ''whisper''"
    and add: "KV_Cache_Add c0 = Returns c"
  shows "Update_all c calls = Returns c \<and>
     (\<forall>i < layer_count' c * 2. \<exists>t. presents' c ! i = Some t \<and>
        inputs' (state' c) ! (length (inputs' state) + i) = Some (address t) \<and>
        outputs' (state' c) ! (length (outputs' state) + i) = Some (address t))"
proof -
  from ctor req compat have share: "past_present_share_buffer' c0"
    unfolding KV_Cache_ctor_def Let_def
    by (auto simp: bind_Returns_iff split_beta split: if_splits)
  from KV_Cache_ctor_presents [OF ctor]
  have len: "length (presents' c0) = layer_count' c0 * 2" and st: "state' c0 = state"
    and some: "\<forall>p\<in>set (presents' c0). p \<noteq> None" by simp_all
  note a = KV_Cache_Add_shared [OF add share len]
  have "Update_all c calls = Returns c"
    by (induction calls) (use a in \<open>auto simp: KV_Cache_Update_def\<close>)
  moreover have "\<exists>t. presents' c ! i = Some t \<and>
        inputs' (state' c) ! (length (inputs' state) + i) = Some (address t) \<and>
        outputs' (state' c) ! (length (outputs' state) + i) = Some (address t)"
    if "i < layer_count' c * 2" for i
  proof -
    from that a len have i: "i < length (presents' c0)" by simp
    with some obtain t where "presents' c0 ! i = Some t" by (metis nth_mem not_Some_eq)
    with a i st show ?thesis by (simp add: nth_append get_def)
  qed
  ultimately show ?thesis by blast
qed


theorem KV_Cache_shared_Update_witness:
  "\<exists>c0 g' c. KV_Cache_ctor (example_state 1 True) (example_model ''llama'' FLOAT16)
        \<lparr>enabled = True, warning = True, written = []\<rparr> = Returns (c0, g') \<and>
     KV_Cache_Add c0 = Returns c \<and>
     Update_all c [([], 2), ([0], 3), ([0], 4)] = Returns c \<and>
     (\<forall>i < layer_count' c * 2. \<exists>t. presents' c ! i = Some t \<and>
        inputs' (state' c) ! (length (inputs' (example_state 1 True)) + i) = Some (address t) \<and>
        outputs' (state' c) ! (length (outputs' (example_state 1 True)) + i) = Some (address t))"
proof -
  from Split_shared_example obtain c0 g' c where
    ctor: "KV_Cache_ctor (example_state 1 True) (example_model ''llama'' FLOAT16)
        \<lparr>enabled = True, warning = True, written = []\<rparr> = Returns (c0, g')"
    and add: "KV_Cache_Add c0 = Returns c" by blast
  have req: "search_past_present_share_buffer (params' (example_state 1 True))"
    and compat: "search_num_beams (params' (example_state 1 True)) = 1 \<or>
      model_type (config' (example_model ''llama'' FLOAT16)) = ''whisper''"
    by (simp_all add: example_proj)
  from KV_Cache_shared_Update [OF ctor req compat add, of "[([], 2), ([0], 3), ([0], 4)]"] ctor add
  show ?thesis by blast
qed

section \<open>The beam gather\<close>

lemma length_store: "off + length ys \<le> length xs \<Longrightarrow> length (store xs off ys) = length xs"
  by (simp add: store_def)

lemma length_slice: "off + n \<le> length xs \<Longrightarrow> length (slice xs off n) = n"
  by (simp add: slice_def)

lemma slice_store_same:
  "off + length ys \<le> length xs \<Longrightarrow> slice (store xs off ys) off (length ys) = ys"
  by (simp add: slice_def store_def)

lemma slice_store_other:
  assumes "off + length ys \<le> length xs" and "o2 + n \<le> off \<or> off + length ys \<le> o2"
  shows "slice (store xs off ys) o2 n = slice xs o2 n"
proof -
  from assms(2) show ?thesis
  proof
    assume "o2 + n \<le> off"
    with assms(1) show ?thesis by (simp add: slice_def store_def take_drop min_def)
  next
    assume "off + length ys \<le> o2"
    then obtain d where d: "o2 = off + length ys + d" by (metis le_Suc_ex)
    with assms(1) show ?thesis by (simp add: slice_def store_def add.commute add.left_commute)
  qed
qed

lemma row_offset: "0 \<le> r \<Longrightarrow> 0 \<le> b \<Longrightarrow> w * nat (r * b) = nat r * (w * nat b)"
  by (simp add: nat_mult_distrib)

lemma copy_row:
  assumes b: "0 \<le> b" and x: "0 \<le> x" and r: "0 \<le> r"
    and src: "w * nat ((x + 1) * b) \<le> length src"
    and dst: "w * nat ((r + 1) * b) \<le> length dst"
  shows "length (copy w src (x * b) b dst (r * b)) = length dst"
    and "beam_row w b (copy w src (x * b) b dst (r * b)) r = beam_row w b src x"
    and "\<And>r'. 0 \<le> r' \<Longrightarrow> r' \<noteq> r \<Longrightarrow>
           beam_row w b (copy w src (x * b) b dst (r * b)) r' = beam_row w b dst r'"
proof -
  let ?B = "w * nat b"
  have xs: "nat (x + 1) * ?B \<le> length src" using src b x row_offset [of "x + 1" b w] by simp
  have ds: "nat (r + 1) * ?B \<le> length dst" using dst b r row_offset [of "r + 1" b w] by simp
  have nx: "nat (x + 1) = Suc (nat x)" and nr: "nat (r + 1) = Suc (nat r)" using x r by simp_all
  have len: "length (slice src (nat x * ?B) ?B) = ?B"
    using xs nx by (intro length_slice) simp
  have fit: "nat r * ?B + length (slice src (nat x * ?B) ?B) \<le> length dst"
    using ds nr len by simp
  show "length (copy w src (x * b) b dst (r * b)) = length dst"
    using fit by (simp add: copy_def row_offset b x r length_store)
  show "beam_row w b (copy w src (x * b) b dst (r * b)) r = beam_row w b src x"
    using slice_store_same [OF fit] len by (simp add: copy_def beam_row_def row_offset b x r)
  show "beam_row w b (copy w src (x * b) b dst (r * b)) r' = beam_row w b dst r'"
    if r': "0 \<le> r'" "r' \<noteq> r" for r'
  proof -
    have "nat r' * ?B + ?B \<le> nat r * ?B \<or> nat r * ?B + ?B \<le> nat r' * ?B"
    proof (cases "r' < r")
      case True
      then have "Suc (nat r') \<le> nat r" using r' by simp
      then have "Suc (nat r') * ?B \<le> nat r * ?B" by (rule mult_le_mono1)
      then show ?thesis by simp
    next
      case False
      with r' have "Suc (nat r) \<le> nat r'" using r by simp
      then have "Suc (nat r) * ?B \<le> nat r' * ?B" by (rule mult_le_mono1)
      then show ?thesis by simp
    qed
    with slice_store_other [OF fit, of "nat r' * ?B" ?B] len show ?thesis
      by (simp add: copy_def beam_row_def row_offset b x r r')
  qed
qed

lemma subspan_ok_row:
  assumes "0 \<le> b" "0 \<le> x" "x < n" "length buf = w * nat (n * b)"
  shows "subspan_ok w buf (n * b) (x * b) b"
proof -
  have le: "(x + 1) * b \<le> n * b" using assms(1,3) by (intro mult_right_mono) simp_all
  have nn: "0 \<le> n * b" using assms by simp
  have "int w * ((x + 1) * b) \<le> int w * (n * b)" using le by (intro mult_left_mono) simp_all
  also have "\<dots> = int (length buf)" using assms(4) nn by simp
  finally show ?thesis using assms(1,2) le by (simp add: subspan_ok_def algebra_simps)
qed

lemma row_fits:
  assumes "0 \<le> b" "0 \<le> x" "x < n" "length buf = w * nat (n * b)"
  shows "w * nat ((x + 1) * b) \<le> length buf"
proof -
  have "(x + 1) * b \<le> n * b" using assms(1,3) by (intro mult_right_mono) simp_all
  then have "nat ((x + 1) * b) \<le> nat (n * b)" by simp
  then show ?thesis using assms(4) by simp
qed

lemma PickPastState_loop_rows:
  assumes b: "0 \<le> b"
    and lp: "length present = w * nat (n * b)" and lq: "length past = w * nat (n * b)"
    and idx: "\<forall>x\<in>set bis. 0 \<le> x \<and> x < n" and j: "0 \<le> j" "j + int (length bis) \<le> n"
  shows "\<exists>past'. PickPastState_loop w b (n * b) present bis j past = Returns past' \<and>
     length past' = length past \<and>
     (\<forall>r. 0 \<le> r \<and> r < j \<longrightarrow> beam_row w b past' r = beam_row w b past r) \<and>
     (\<forall>k<length bis. beam_row w b past' (j + int k) = beam_row w b present (bis ! k))"
  using lq idx j
proof (induction bis arbitrary: j past)
  case Nil
  then show ?case by simp
next
  case (Cons x rest)
  from Cons.prems have x: "0 \<le> x" "x < n" and jn: "j < n" by auto
  let ?past1 = "copy w present (x * b) b past (j * b)"
  have ok: "subspan_ok w present (n * b) (x * b) b" "subspan_ok w past (n * b) (j * b) b"
    using subspan_ok_row b x lp Cons.prems(1,3) jn by auto
  note cr = copy_row [OF b x(1) Cons.prems(3) row_fits [OF b x lp]
      row_fits [OF b Cons.prems(3) jn Cons.prems(1)]]
  have step: "PickPastState_loop w b (n * b) present (x # rest) j past
      = PickPastState_loop w b (n * b) present rest (j + 1) ?past1"
    using ok by simp
  have "\<exists>past'. PickPastState_loop w b (n * b) present rest (j + 1) ?past1 = Returns past' \<and>
     length past' = length ?past1 \<and>
     (\<forall>r. 0 \<le> r \<and> r < j + 1 \<longrightarrow> beam_row w b past' r = beam_row w b ?past1 r) \<and>
     (\<forall>k<length rest. beam_row w b past' (j + 1 + int k) = beam_row w b present (rest ! k))"
    by (rule Cons.IH) (use Cons.prems cr(1) in auto)
  then obtain past' where p: "PickPastState_loop w b (n * b) present rest (j + 1) ?past1 = Returns past'"
    "length past' = length ?past1"
    "\<And>r. 0 \<le> r \<Longrightarrow> r < j + 1 \<Longrightarrow> beam_row w b past' r = beam_row w b ?past1 r"
    "\<And>k. k < length rest \<Longrightarrow> beam_row w b past' (j + 1 + int k) = beam_row w b present (rest ! k)"
    by blast
  have old: "beam_row w b past' r = beam_row w b past r" if "0 \<le> r" "r < j" for r
    using p(3) [of r] cr(3) [of r] that by simp
  have new: "beam_row w b past' (j + int k) = beam_row w b present ((x # rest) ! k)"
    if "k < length (x # rest)" for k
  proof (cases k)
    case 0
    with p(3) [of j] cr(2) Cons.prems(3) show ?thesis by simp
  next
    case (Suc k')
    have "j + int (Suc k') = j + 1 + int k'" by simp
    moreover have "beam_row w b past' (j + 1 + int k') = beam_row w b present (rest ! k')"
      using Suc that by (intro p(4)) simp
    ultimately show ?thesis using Suc by (simp only: nth_Cons_Suc)
  qed
  from step p(1,2) cr(1) old new show ?case by auto
qed

lemma PickPastState_loop_outcome:
  "(\<exists>past'. PickPastState_loop w b c present bis j past = Returns past') \<or>
   PickPastState_loop w b c present bis j past = UndefinedBehaviour"
  by (induction bis arbitrary: j past) auto

lemma subspan_ok_rowD:
  assumes "0 < b" "subspan_ok w buf (n * b) (x * b) b"
  shows "0 \<le> x \<and> x < n"
proof -
  from assms(2) have 1: "0 \<le> x * b" and 2: "x * b + b \<le> n * b" by (simp_all add: subspan_ok_def)
  from 1 assms(1) have "0 \<le> x" by (simp add: zero_le_mult_iff)
  moreover from 2 have "(x + 1) * b \<le> n * b" by (simp add: algebra_simps)
  with assms(1) have "x + 1 \<le> n" by simp
  ultimately show ?thesis by simp
qed

lemma PickPastState_loop_undefined:
  assumes b: "0 < b" and j: "j \<le> n"
    and bad: "\<not> ((\<forall>x\<in>set bis. 0 \<le> x \<and> x < n) \<and> j + int (length bis) \<le> n)"
  shows "PickPastState_loop w b (n * b) present bis j past = UndefinedBehaviour"
  using j bad
proof (induction bis arbitrary: j past)
  case Nil
  then show ?case by simp
next
  case (Cons x rest)
  show ?case
  proof (cases "subspan_ok w present (n * b) (x * b) b \<and> subspan_ok w past (n * b) (j * b) b")
    case False
    then show ?thesis by auto
  next
    case True
    with subspan_ok_rowD [OF b] have x: "0 \<le> x \<and> x < n" and jn: "0 \<le> j \<and> j < n" by blast+
    with Cons.prems have bad': "\<not> ((\<forall>x\<in>set rest. 0 \<le> x \<and> x < n) \<and> (j + 1) + int (length rest) \<le> n)"
      by auto
    have "PickPastState_loop w b (n * b) present rest (j + 1)
        (copy w present (x * b) b past (j * b)) = UndefinedBehaviour"
      by (rule Cons.IH) (use jn bad' in auto)
    with True show ?thesis by simp
  qed
qed

lemma subspan_ok_at:
  assumes "0 \<le> b" "0 \<le> r" "r < N" "e = N * b" "off = r * b" "length buf = w * nat e"
  shows "subspan_ok w buf e off b"
  using subspan_ok_row [of b r N buf w] assms by simp

lemma copy_row_at:
  assumes b: "0 \<le> b" and x: "0 \<le> x" and r: "0 \<le> r"
    and src: "w * nat ((x + 1) * b) \<le> length src"
    and dst: "w * nat ((r + 1) * b) \<le> length dst"
    and so: "soff = x * b" and d: "doff = r * b"
  shows "length (copy w src soff b dst doff) = length dst"
    and "beam_row w b (copy w src soff b dst doff) r = beam_row w b src x"
    and "\<And>r'. 0 \<le> r' \<Longrightarrow> r' \<noteq> r \<Longrightarrow>
           beam_row w b (copy w src soff b dst doff) r' = beam_row w b dst r'"
  using copy_row [OF b x r src dst] unfolding so d by blast+

lemma PickPastState_loop_Combined_rows:
  assumes b: "0 \<le> b" and n: "0 \<le> n"
    and lp: "length present = w * nat (2 * (n * b))" and lq: "length past = w * nat (2 * (n * b))"
    and idx: "\<forall>x\<in>set bis. 0 \<le> x \<and> x < n" and j: "0 \<le> j" "j + int (length bis) \<le> n"
  shows "\<exists>past'. PickPastState_loop_Combined w b (n * b) (2 * (n * b)) present bis j past = Returns past' \<and>
     length past' = length past \<and>
     (\<forall>r. 0 \<le> r \<and> r < j \<longrightarrow> beam_row w b past' r = beam_row w b past r \<and>
          beam_row w b past' (n + r) = beam_row w b past (n + r)) \<and>
     (\<forall>k<length bis. beam_row w b past' (j + int k) = beam_row w b present (bis ! k) \<and>
          beam_row w b past' (n + (j + int k)) = beam_row w b present (n + bis ! k))"
  using lq idx j
proof (induction bis arbitrary: j past)
  case Nil
  then show ?case by simp
next
  case (Cons x rest)
  from Cons.prems have x: "0 \<le> x" "x < n" and jn: "j < n" and j0: "0 \<le> j" by auto
  let ?e = "2 * (n * b)"
  let ?past1 = "copy w present (x * b) b past (j * b)"
  let ?past2 = "copy w present (n * b + x * b) b ?past1 (n * b + j * b)"
  have e: "?e = (2 * n) * b" by simp
  have lp': "length present = w * nat ((2 * n) * b)" and lq': "length past = w * nat ((2 * n) * b)"
    using lp Cons.prems(1) by (simp_all add: mult.assoc)
  have nx: "0 \<le> n + x" and nj: "0 \<le> n + j" using n x j0 by simp_all
  have o1: "n * b + x * b = (n + x) * b" and o2: "n * b + j * b = (n + j) * b"
    by (simp_all add: algebra_simps)
  have ok: "subspan_ok w present ?e (x * b) b" "subspan_ok w present ?e (n * b + x * b) b"
    "subspan_ok w past ?e (j * b) b" "subspan_ok w past ?e (n * b + j * b) b"
  proof -
    show "subspan_ok w present ?e (x * b) b"
      by (rule subspan_ok_at [OF b x(1) _ e refl lp]) (use x n in simp)
    show "subspan_ok w present ?e (n * b + x * b) b"
      by (rule subspan_ok_at [OF b nx _ e o1 lp]) (use x n in simp)
    show "subspan_ok w past ?e (j * b) b"
      by (rule subspan_ok_at [OF b j0 _ e refl Cons.prems(1)]) (use jn n in simp)
    show "subspan_ok w past ?e (n * b + j * b) b"
      by (rule subspan_ok_at [OF b nj _ e o2 Cons.prems(1)]) (use jn n in simp)
  qed
  have fit: "w * nat ((x + 1) * b) \<le> length present" "w * nat ((n + x + 1) * b) \<le> length present"
    "w * nat ((j + 1) * b) \<le> length past" "w * nat ((n + j + 1) * b) \<le> length past"
    using x jn j0 n by (auto intro!: row_fits [OF b _ _ lp'] row_fits [OF b _ _ lq'])
  note c1 = copy_row_at [OF b x(1) j0 fit(1) fit(3) refl refl]
  have fit1: "w * nat ((n + j + 1) * b) \<le> length ?past1" using fit(4) c1(1) by simp
  note c2 = copy_row_at [OF b nx nj fit(2) fit1 o1 o2]
  have step: "PickPastState_loop_Combined w b (n * b) ?e present (x # rest) j past
      = PickPastState_loop_Combined w b (n * b) ?e present rest (j + 1) ?past2"
    using ok by simp
  have len2: "length ?past2 = length past" using c1(1) c2(1) by simp
  have "\<exists>past'. PickPastState_loop_Combined w b (n * b) ?e present rest (j + 1) ?past2 = Returns past' \<and>
     length past' = length ?past2 \<and>
     (\<forall>r. 0 \<le> r \<and> r < j + 1 \<longrightarrow> beam_row w b past' r = beam_row w b ?past2 r \<and>
          beam_row w b past' (n + r) = beam_row w b ?past2 (n + r)) \<and>
     (\<forall>k<length rest. beam_row w b past' (j + 1 + int k) = beam_row w b present (rest ! k) \<and>
          beam_row w b past' (n + (j + 1 + int k)) = beam_row w b present (n + rest ! k))"
    by (rule Cons.IH) (use Cons.prems len2 in auto)
  then obtain past' where p: "PickPastState_loop_Combined w b (n * b) ?e present rest (j + 1) ?past2
      = Returns past'"
    "length past' = length ?past2"
    "\<And>r. 0 \<le> r \<Longrightarrow> r < j + 1 \<Longrightarrow> beam_row w b past' r = beam_row w b ?past2 r \<and>
          beam_row w b past' (n + r) = beam_row w b ?past2 (n + r)"
    "\<And>k. k < length rest \<Longrightarrow> beam_row w b past' (j + 1 + int k) = beam_row w b present (rest ! k) \<and>
          beam_row w b past' (n + (j + 1 + int k)) = beam_row w b present (n + rest ! k)"
    by blast
  have key2: "beam_row w b ?past2 r = beam_row w b ?past1 r" if "0 \<le> r" "r < n" for r
    using c2(3) [of r] that j0 by simp
  have val1: "beam_row w b ?past1 (n + r) = beam_row w b past (n + r)" if "0 \<le> r" for r
    using c1(3) [of "n + r"] that jn n by simp
  have old: "beam_row w b past' r = beam_row w b past r \<and>
      beam_row w b past' (n + r) = beam_row w b past (n + r)" if "0 \<le> r" "r < j" for r
  proof -
    from that jn have "beam_row w b ?past2 r = beam_row w b past r"
      using key2 [of r] c1(3) [of r] by simp
    moreover from that have "beam_row w b ?past2 (n + r) = beam_row w b past (n + r)"
      using c2(3) [of "n + r"] val1 [of r] n by simp
    ultimately show ?thesis using p(3) [of r] that by simp
  qed
  have here: "beam_row w b past' j = beam_row w b present x \<and>
      beam_row w b past' (n + j) = beam_row w b present (n + x)"
    using p(3) [of j] key2 [of j] c1(2) c2(2) j0 jn by simp
  have new: "beam_row w b past' (j + int k) = beam_row w b present ((x # rest) ! k) \<and>
      beam_row w b past' (n + (j + int k)) = beam_row w b present (n + (x # rest) ! k)"
    if "k < length (x # rest)" for k
  proof (cases k)
    case 0
    with here show ?thesis by simp
  next
    case (Suc k')
    have "j + int (Suc k') = j + 1 + int k'" by simp
    moreover have "beam_row w b past' (j + 1 + int k') = beam_row w b present (rest ! k') \<and>
          beam_row w b past' (n + (j + 1 + int k')) = beam_row w b present (n + rest ! k')"
      using Suc that by (intro p(4)) simp
    ultimately show ?thesis using Suc by (simp only: nth_Cons_Suc)
  qed
  from step p(1,2) len2 old new show ?case by auto
qed

lemma PickPastState_loop_Combined_outcome:
  "(\<exists>past'. PickPastState_loop_Combined w b k c present bis j past = Returns past') \<or>
   PickPastState_loop_Combined w b k c present bis j past = UndefinedBehaviour"
  by (induction bis arbitrary: j past) auto

lemma PickPastState_loop_Combined_undefined:
  assumes b: "0 < b" and j: "j \<le> n" and n: "0 \<le> n"
    and bad: "\<not> ((\<forall>x\<in>set bis. 0 \<le> x \<and> x < n) \<and> j + int (length bis) \<le> n)"
  shows "PickPastState_loop_Combined w b (n * b) (2 * (n * b)) present bis j past = UndefinedBehaviour"
  using j bad
proof (induction bis arbitrary: j past)
  case Nil
  then show ?case by simp
next
  case (Cons x rest)
  let ?e = "2 * (n * b)"
  show ?case
  proof (cases "subspan_ok w present ?e (x * b) b \<and>
         subspan_ok w present ?e (n * b + x * b) b \<and>
         subspan_ok w past ?e (j * b) b \<and>
         subspan_ok w past ?e (n * b + j * b) b")
    case False
    then show ?thesis by auto
  next
    case True
    have e: "?e = (2 * n) * b" by simp
    have o: "n * b + y * b = (n + y) * b" for y by (simp add: algebra_simps)
    from True have "0 \<le> x" "n + x < 2 * n" "0 \<le> j" "n + j < 2 * n"
      using subspan_ok_rowD [OF b, of w present "2 * n" x]
        subspan_ok_rowD [OF b, of w present "2 * n" "n + x"]
        subspan_ok_rowD [OF b, of w past "2 * n" j]
        subspan_ok_rowD [OF b, of w past "2 * n" "n + j"]
      unfolding e o by auto
    then have x: "0 \<le> x \<and> x < n" and jn: "0 \<le> j \<and> j < n" by auto
    with Cons.prems have bad': "\<not> ((\<forall>x\<in>set rest. 0 \<le> x \<and> x < n) \<and> (j + 1) + int (length rest) \<le> n)"
      by auto
    have "PickPastState_loop_Combined w b (n * b) ?e present rest (j + 1)
        (copy w present (n * b + x * b) b (copy w present (x * b) b past (j * b)) (n * b + j * b))
         = UndefinedBehaviour"
      by (rule Cons.IH) (use jn bad' in auto)
    with True show ?thesis by simp
  qed
qed

lemma length_4E:
  assumes "length xs = 4"
  obtains a b c d where "xs = [a, b, c, d]"
proof -
  from assms have "\<exists>a b c d. xs = [a, b, c, d]"
    by (simp add: numeral_eq_Suc length_Suc_conv) blast
  with that show ?thesis by blast
qed

lemma length_5E:
  assumes "length xs = 5"
  obtains a b c d e where "xs = [a, b, c, d, e]"
proof -
  from assms have "\<exists>a b c d e. xs = [a, b, c, d, e]"
    by (simp add: numeral_eq_Suc length_Suc_conv) blast
  with that show ?thesis by blast
qed

lemma PickPastState_T_Returns:
  assumes wf: "wf_KV_Cache c" and w: "w = SizeOf (type' c)" "w = SizeOf ty" and i: "index < layer_count' c * 2"
    and idx: "\<forall>x\<in>set bis. 0 \<le> x \<and> x < shape' c ! 0" and len: "int (length bis) \<le> shape' c ! 0"
  shows "\<exists>t p. PickPastState_T w ty c bis index =
        Returns (c\<lparr>pasts' := (pasts' c)[index := Some t],
                   model' := (model' c)\<lparr>allocator_kvcache' := (allocator_kvcache' (model' c))
                     \<lparr>next_address := Suc (next_address (allocator_kvcache' (model' c)))\<rparr>\<rparr>\<rparr>) \<and>
      presents' c ! index = Some p \<and>
      address t = next_address (allocator_kvcache' (model' c)) \<and>
      tensor_shape t = shape' c \<and> tensor_type t = ty \<and>
      length (tensor_data t) = length (tensor_data p) \<and>
      (\<forall>k<length bis.
         beam_row w (shape' c ! 1 * shape' c ! 2 * shape' c ! 3) (tensor_data t) (int k)
         = beam_row w (shape' c ! 1 * shape' c ! 2 * shape' c ! 3) (tensor_data p) (bis ! k))"
proof -
  from wf obtain s0 s1 s2 s3 where sh: "shape' c = [s0, s1, s2, s3]"
    unfolding wf_KV_Cache_def by (auto elim: length_4E)
  from wf sh have nn: "0 \<le> s0" "0 \<le> s1" "0 \<le> s2" "0 \<le> s3"
    unfolding wf_KV_Cache_def by simp_all
  let ?b = "s1 * s2 * s3"
  have b: "0 \<le> ?b" using nn by simp
  from wf i have ip: "index < length (presents' c)" and iq: "index < length (pasts' c)"
    unfolding wf_KV_Cache_def by simp_all
  with wf have "tensor_ok (shape' c) (type' c) (presents' c ! index)"
    unfolding wf_KV_Cache_def by (simp add: list_all_length)
  then obtain p where p: "presents' c ! index = Some p"
    and lp: "length (tensor_data p) = w * nat (s0 * ?b)"
    unfolding tensor_ok_def w(1) sh
    by (auto simp: ElementCountFromShape_def mult.assoc split: option.splits)
  let ?a = "allocator_kvcache' (model' c)"
  let ?fresh = "map (memory ?a (next_address ?a)) [0..<SizeOf ty * nat (s0 * ?b)]"
  have ct: "CreateTensor ?a (shape' c) ty =
      (\<lparr>address = next_address ?a, tensor_shape = shape' c, tensor_type = ty, tensor_data = ?fresh\<rparr>,
       ?a\<lparr>next_address := Suc (next_address ?a)\<rparr>)"
    by (simp add: CreateTensor_def sh ElementCountFromShape_def mult.assoc)
  have lq: "length ?fresh = w * nat (s0 * ?b)" using w by simp
  from idx len sh have idx': "\<forall>x\<in>set bis. 0 \<le> x \<and> x < s0" and len': "0 + int (length bis) \<le> s0"
    by simp_all
  from PickPastState_loop_rows [OF b lp lq idx' order_refl len']
  obtain past' where run: "PickPastState_loop w ?b (s0 * ?b) (tensor_data p) bis 0 ?fresh = Returns past'"
    and l': "length past' = length ?fresh"
    and rows: "\<forall>k<length bis. beam_row w ?b past' (0 + int k) = beam_row w ?b (tensor_data p) (bis ! k)"
    by blast
  let ?t = "\<lparr>address = next_address ?a, tensor_shape = shape' c, tensor_type = ty, tensor_data = past'\<rparr>"
  have "PickPastState_T w ty c bis index =
        Returns (c\<lparr>pasts' := (pasts' c)[index := Some ?t],
                   model' := (model' c)\<lparr>allocator_kvcache' := ?a\<lparr>next_address := Suc (next_address ?a)\<rparr>\<rparr>\<rparr>)"
    using ip iq p run ct
    by (simp add: PickPastState_T_def Let_def at_def deref_def put_def sh)
  moreover have "length (tensor_data ?t) = length (tensor_data p)" using l' lq lp by simp
  ultimately show ?thesis using p rows sh by (intro exI [of _ ?t] exI [of _ p]) simp
qed

lemma PickPastState_T_Undefined:
  assumes wf: "wf_KV_Cache c" and i: "index < layer_count' c * 2"
    and blk: "0 < shape' c ! 1 * shape' c ! 2 * shape' c ! 3"
    and bad: "\<not> ((\<forall>x\<in>set bis. 0 \<le> x \<and> x < shape' c ! 0) \<and> int (length bis) \<le> shape' c ! 0)"
  shows "PickPastState_T w ty c bis index = UndefinedBehaviour"
proof -
  from wf obtain s0 s1 s2 s3 where sh: "shape' c = [s0, s1, s2, s3]"
    unfolding wf_KV_Cache_def by (auto elim: length_4E)
  from wf sh have nn: "0 \<le> s0" unfolding wf_KV_Cache_def by simp
  from wf i have ip: "index < length (presents' c)"
    unfolding wf_KV_Cache_def by simp
  with wf have "tensor_ok (shape' c) (type' c) (presents' c ! index)"
    unfolding wf_KV_Cache_def by (simp add: list_all_length)
  then obtain p where p: "presents' c ! index = Some p"
    unfolding tensor_ok_def by (auto split: option.splits)
  from bad sh have bad': "\<not> ((\<forall>x\<in>set bis. 0 \<le> x \<and> x < s0) \<and> 0 + int (length bis) \<le> s0)"
    by simp
  from blk sh have b: "0 < s1 * s2 * s3" by simp
  note PickPastState_loop_undefined [OF b nn bad']
  with ip p show ?thesis
    by (simp add: PickPastState_T_def Let_def at_def deref_def sh split_beta)
qed

lemma PickPastState_T_Combined_Returns:
  assumes wf: "wf_KV_Cache_Combined c" and w: "w = SizeOf (type' c)" "w = SizeOf ty"
    and i: "index < layer_count' c"
    and idx: "\<forall>x\<in>set bis. 0 \<le> x \<and> x < shape' c ! 1" and len: "int (length bis) \<le> shape' c ! 1"
  shows "\<exists>t p. PickPastState_T_Combined w ty c bis index =
        Returns (c\<lparr>pasts' := (pasts' c)[index := Some t],
                   model' := (model' c)\<lparr>allocator_kvcache' := (allocator_kvcache' (model' c))
                     \<lparr>next_address := Suc (next_address (allocator_kvcache' (model' c)))\<rparr>\<rparr>\<rparr>) \<and>
      presents' c ! index = Some p \<and>
      address t = next_address (allocator_kvcache' (model' c)) \<and>
      tensor_shape t = shape' c \<and> tensor_type t = ty \<and>
      length (tensor_data t) = length (tensor_data p) \<and>
      (\<forall>k<length bis.
         key_row w (shape' c ! 2 * shape' c ! 3 * shape' c ! 4) (tensor_data t) (int k)
         = key_row w (shape' c ! 2 * shape' c ! 3 * shape' c ! 4) (tensor_data p) (bis ! k) \<and>
         value_row w (shape' c ! 2 * shape' c ! 3 * shape' c ! 4) (shape' c ! 1) (tensor_data t) (int k)
         = value_row w (shape' c ! 2 * shape' c ! 3 * shape' c ! 4) (shape' c ! 1) (tensor_data p) (bis ! k))"
proof -
  from wf obtain s0 n s2 s3 s4 where sh0: "shape' c = [s0, n, s2, s3, s4]"
    unfolding wf_KV_Cache_Combined_def by (auto elim: length_5E)
  with wf have sh: "shape' c = [2, n, s2, s3, s4]" unfolding wf_KV_Cache_Combined_def by simp
  from wf sh have nn: "0 \<le> n" "0 \<le> s2" "0 \<le> s3" "0 \<le> s4"
    unfolding wf_KV_Cache_Combined_def by simp_all
  let ?b = "s2 * s3 * s4"
  have b: "0 \<le> ?b" using nn by simp
  from wf i have ip: "index < length (presents' c)" and iq: "index < length (pasts' c)"
    unfolding wf_KV_Cache_Combined_def by simp_all
  with wf have "tensor_ok (shape' c) (type' c) (presents' c ! index)"
    unfolding wf_KV_Cache_Combined_def by (simp add: list_all_length)
  then obtain p where p: "presents' c ! index = Some p"
    and lp: "length (tensor_data p) = w * nat (2 * (n * ?b))"
    unfolding tensor_ok_def w(1) sh
    by (auto simp: ElementCountFromShape_def mult.assoc split: option.splits)
  let ?a = "allocator_kvcache' (model' c)"
  let ?fresh = "map (memory ?a (next_address ?a)) [0..<SizeOf ty * nat (2 * (n * ?b))]"
  have ct: "CreateTensor ?a (shape' c) ty =
      (\<lparr>address = next_address ?a, tensor_shape = shape' c, tensor_type = ty, tensor_data = ?fresh\<rparr>,
       ?a\<lparr>next_address := Suc (next_address ?a)\<rparr>)"
    by (simp add: CreateTensor_def sh ElementCountFromShape_def mult.assoc)
  have lq: "length ?fresh = w * nat (2 * (n * ?b))" using w by simp
  from idx len sh have idx': "\<forall>x\<in>set bis. 0 \<le> x \<and> x < n" and len': "0 + int (length bis) \<le> n"
    by simp_all
  from PickPastState_loop_Combined_rows [OF b nn(1) lp lq idx' order_refl len']
  obtain past' where run: "PickPastState_loop_Combined w ?b (n * ?b) (2 * (n * ?b)) (tensor_data p) bis 0 ?fresh
       = Returns past'"
    and l': "length past' = length ?fresh"
    and rows: "\<forall>k<length bis.
       beam_row w ?b past' (0 + int k) = beam_row w ?b (tensor_data p) (bis ! k) \<and>
       beam_row w ?b past' (n + (0 + int k)) = beam_row w ?b (tensor_data p) (n + bis ! k)"
    by blast
  let ?t = "\<lparr>address = next_address ?a, tensor_shape = shape' c, tensor_type = ty, tensor_data = past'\<rparr>"
  have "PickPastState_T_Combined w ty c bis index =
        Returns (c\<lparr>pasts' := (pasts' c)[index := Some ?t],
                   model' := (model' c)\<lparr>allocator_kvcache' := ?a\<lparr>next_address := Suc (next_address ?a)\<rparr>\<rparr>\<rparr>)"
    using ip iq p run ct
    by (simp add: PickPastState_T_Combined_def Let_def at_def deref_def put_def sh)
  moreover have "length (tensor_data ?t) = length (tensor_data p)" using l' lq lp by simp
  ultimately show ?thesis using p rows sh
    by (intro exI [of _ ?t] exI [of _ p]) (simp add: key_row_def value_row_def)
qed

lemma PickPastState_T_Combined_Undefined:
  assumes wf: "wf_KV_Cache_Combined c" and i: "index < layer_count' c"
    and blk: "0 < shape' c ! 2 * shape' c ! 3 * shape' c ! 4"
    and bad: "\<not> ((\<forall>x\<in>set bis. 0 \<le> x \<and> x < shape' c ! 1) \<and> int (length bis) \<le> shape' c ! 1)"
  shows "PickPastState_T_Combined w ty c bis index = UndefinedBehaviour"
proof -
  from wf obtain s0 n s2 s3 s4 where sh0: "shape' c = [s0, n, s2, s3, s4]"
    unfolding wf_KV_Cache_Combined_def by (auto elim: length_5E)
  with wf have sh: "shape' c = [2, n, s2, s3, s4]" unfolding wf_KV_Cache_Combined_def by simp
  from wf sh have nn: "0 \<le> n" unfolding wf_KV_Cache_Combined_def by simp
  from wf i have ip: "index < length (presents' c)"
    unfolding wf_KV_Cache_Combined_def by simp
  with wf have "tensor_ok (shape' c) (type' c) (presents' c ! index)"
    unfolding wf_KV_Cache_Combined_def by (simp add: list_all_length)
  then obtain p where p: "presents' c ! index = Some p"
    unfolding tensor_ok_def by (auto split: option.splits)
  from bad sh have bad': "\<not> ((\<forall>x\<in>set bis. 0 \<le> x \<and> x < n) \<and> 0 + int (length bis) \<le> n)"
    by simp
  from blk sh have b: "0 < s2 * s3 * s4" by simp
  note PickPastState_loop_Combined_undefined [OF b nn nn bad']
  with ip p show ?thesis
    by (simp add: PickPastState_T_Combined_def Let_def at_def deref_def sh split_beta)
qed

lemma PickPastState_T_returns:
  assumes "wf_KV_Cache c" "w = SizeOf (type' c)" "w = SizeOf ty" "index < layer_count' c * 2"
    "\<forall>x\<in>set bis. 0 \<le> x \<and> x < shape' c ! 0" "int (length bis) \<le> shape' c ! 0"
  shows "returns (PickPastState_T w ty c bis index)"
  using PickPastState_T_Returns [OF assms] unfolding returns_iff by blast

lemma PickPastState_T_Combined_returns:
  assumes "wf_KV_Cache_Combined c" "w = SizeOf (type' c)" "w = SizeOf ty" "index < layer_count' c"
    "\<forall>x\<in>set bis. 0 \<le> x \<and> x < shape' c ! 1" "int (length bis) \<le> shape' c ! 1"
  shows "returns (PickPastState_T_Combined w ty c bis index)"
  using PickPastState_T_Combined_Returns [OF assms] unfolding returns_iff by blast

lemmas wf_defs = wf_KV_Cache_def wf_KV_Cache_Combined_def tensor_ok_def slots_bound_def

lemma Split_example_cache:
  "\<exists>c0 g' c. KV_Cache_ctor (example_state 2 False) (example_model ''llama'' FLOAT16)
        \<lparr>enabled = True, warning = True, written = []\<rparr> = Returns (c0, g') \<and>
     KV_Cache_Add c0 = Returns c \<and> wf_KV_Cache c \<and> type' c = FLOAT16 \<and>
     layer_count' c = 1 \<and> shape' c = [2, 1, 1, 1] \<and> \<not> past_present_share_buffer' c"
  by (simp add: KV_Cache_ctor_def KV_Cache_Add_def example_defs run_defs split_beta memset_def
      CreateTensor_def ElementCountFromShape_def get_def wf_defs)

lemma Combined_example_cache:
  "\<exists>c0 c. KV_Cache_Combined_ctor (example_state 2 False) (example_model ''llama'' FLOAT16) = Returns c0 \<and>
     KV_Cache_Combined_Add c0 = Returns c \<and> wf_KV_Cache_Combined c \<and> type' c = FLOAT16 \<and>
     layer_count' c = 1 \<and> shape' c = [2, 2, 1, 1, 1]"
  by (simp add: KV_Cache_Combined_ctor_def KV_Cache_Combined_Add_def example_defs run_defs split_beta
      create_presents_def CreateTensor_def ElementCountFromShape_def get_def wf_defs)


lemma PickPastState_T_outcome:
  "returns (PickPastState_T w ty c bis i) \<or> PickPastState_T w ty c bis i = UndefinedBehaviour"
  using PickPastState_loop_outcome [of w "shape' c ! 1 * shape' c ! 2 * shape' c ! 3"
      "shape' c ! 0 * (shape' c ! 1 * shape' c ! 2 * shape' c ! 3)"
      "tensor_data (the (presents' c ! i))" bis 0
      "tensor_data (fst (CreateTensor (allocator_kvcache' (model' c)) (shape' c) ty))"]
  by (auto simp: PickPastState_T_def Let_def at_def deref_def put_def split_beta
      split: option.splits if_splits)

lemma PickPastState_T_Combined_outcome:
  "returns (PickPastState_T_Combined w ty c bis i) \<or>
   PickPastState_T_Combined w ty c bis i = UndefinedBehaviour"
  using PickPastState_loop_Combined_outcome [of w "shape' c ! 2 * shape' c ! 3 * shape' c ! 4"
      "shape' c ! 1 * (shape' c ! 2 * shape' c ! 3 * shape' c ! 4)"
      "shape' c ! 0 * (shape' c ! 1 * (shape' c ! 2 * shape' c ! 3 * shape' c ! 4))"
      "tensor_data (the (presents' c ! i))" bis 0
      "tensor_data (fst (CreateTensor (allocator_kvcache' (model' c)) (shape' c) ty))"]
  by (auto simp: PickPastState_T_Combined_def Let_def at_def deref_def put_def split_beta
      split: option.splits if_splits)


text \<open>
  C9 (as amended). The gather checks nothing. On every cache and for every list of beam indices
  \<open>PickPastState\<close> either returns or leaves the bounds of a buffer, which is undefined behaviour:
  it never throws and never reports an error. On a well-formed cache of float or half elements
  whose beam rows are not empty, it returns exactly when every beam index lies in
  \<open>[0, batch \<times> beam)\<close> and there are at most \<open>batch \<times> beam\<close> of them; otherwise it takes a span
  outside the tensor.
\<close>

theorem PickPastState_unchecked:
  "(returns (PickPastState c beam_indices index) \<or>
    PickPastState c beam_indices index = UndefinedBehaviour) \<and>
   (returns (PickPastState_Combined d beam_indices layer) \<or>
    PickPastState_Combined d beam_indices layer = UndefinedBehaviour) \<and>
   (wf_KV_Cache c \<and> index < layer_count' c * 2 \<and> (type' c = FLOAT \<or> type' c = FLOAT16) \<and>
    0 < shape' c ! 1 * shape' c ! 2 * shape' c ! 3 \<longrightarrow>
      (returns (PickPastState c beam_indices index) \<longleftrightarrow>
         (\<forall>x\<in>set beam_indices. 0 \<le> x \<and> x < shape' c ! 0) \<and>
         int (length beam_indices) \<le> shape' c ! 0)) \<and>
   (wf_KV_Cache_Combined d \<and> layer < layer_count' d \<and> (type' d = FLOAT \<or> type' d = FLOAT16) \<and>
    0 < shape' d ! 2 * shape' d ! 3 * shape' d ! 4 \<longrightarrow>
      (returns (PickPastState_Combined d beam_indices layer) \<longleftrightarrow>
         (\<forall>x\<in>set beam_indices. 0 \<le> x \<and> x < shape' d ! 1) \<and>
         int (length beam_indices) \<le> shape' d ! 1))"
proof (intro conjI impI)
  show "returns (PickPastState c beam_indices index) \<or>
    PickPastState c beam_indices index = UndefinedBehaviour"
    using PickPastState_T_outcome [of 4 FLOAT c beam_indices index]
      PickPastState_T_outcome [of 2 FLOAT16 c beam_indices index]
    by (simp add: PickPastState_def)
  show "returns (PickPastState_Combined d beam_indices layer) \<or>
    PickPastState_Combined d beam_indices layer = UndefinedBehaviour"
    using PickPastState_T_Combined_outcome [of 4 FLOAT d beam_indices layer]
      PickPastState_T_Combined_outcome [of 2 FLOAT16 d beam_indices layer]
    by (simp add: PickPastState_Combined_def)
next
  assume a: "wf_KV_Cache c \<and> index < layer_count' c * 2 \<and> (type' c = FLOAT \<or> type' c = FLOAT16) \<and>
    0 < shape' c ! 1 * shape' c ! 2 * shape' c ! 3"
  let ?ok = "(\<forall>x\<in>set beam_indices. 0 \<le> x \<and> x < shape' c ! 0) \<and>
         int (length beam_indices) \<le> shape' c ! 0"
  have good: "returns (PickPastState c beam_indices index)" if ?ok
  proof -
    from a have "type' c = FLOAT \<or> type' c = FLOAT16" by simp
    then show ?thesis
    proof
      assume ty: "type' c = FLOAT"
      have "returns (PickPastState_T 4 FLOAT c beam_indices index)"
        by (rule PickPastState_T_returns) (use a that ty in simp_all)
      with ty show ?thesis by (simp add: PickPastState_def)
    next
      assume ty: "type' c = FLOAT16"
      have "returns (PickPastState_T 2 FLOAT16 c beam_indices index)"
        by (rule PickPastState_T_returns) (use a that ty in simp_all)
      with ty show ?thesis by (simp add: PickPastState_def)
    qed
  qed
  have bad: "PickPastState c beam_indices index = UndefinedBehaviour" if "\<not> ?ok"
    using PickPastState_T_Undefined [of c index beam_indices] a that
    by (simp add: PickPastState_def)
  show "returns (PickPastState c beam_indices index) \<longleftrightarrow> ?ok"
  proof (cases ?ok)
    case True
    with good show ?thesis by blast
  next
    case False
    from bad [OF False] have "\<not> returns (PickPastState c beam_indices index)" by simp
    with False bad [OF False] show ?thesis by blast
  qed
next
  assume a: "wf_KV_Cache_Combined d \<and> layer < layer_count' d \<and> (type' d = FLOAT \<or> type' d = FLOAT16) \<and>
    0 < shape' d ! 2 * shape' d ! 3 * shape' d ! 4"
  let ?ok = "(\<forall>x\<in>set beam_indices. 0 \<le> x \<and> x < shape' d ! 1) \<and>
         int (length beam_indices) \<le> shape' d ! 1"
  have good: "returns (PickPastState_Combined d beam_indices layer)" if ?ok
  proof -
    from a have "type' d = FLOAT \<or> type' d = FLOAT16" by simp
    then show ?thesis
    proof
      assume ty: "type' d = FLOAT"
      have "returns (PickPastState_T_Combined 4 FLOAT d beam_indices layer)"
        by (rule PickPastState_T_Combined_returns) (use a that ty in simp_all)
      with ty show ?thesis by (simp add: PickPastState_Combined_def)
    next
      assume ty: "type' d = FLOAT16"
      have "returns (PickPastState_T_Combined 2 FLOAT16 d beam_indices layer)"
        by (rule PickPastState_T_Combined_returns) (use a that ty in simp_all)
      with ty show ?thesis by (simp add: PickPastState_Combined_def)
    qed
  qed
  have bad: "PickPastState_Combined d beam_indices layer = UndefinedBehaviour" if "\<not> ?ok"
    using PickPastState_T_Combined_Undefined [of d layer beam_indices] a that
    by (simp add: PickPastState_Combined_def)
  show "returns (PickPastState_Combined d beam_indices layer) \<longleftrightarrow> ?ok"
  proof (cases ?ok)
    case True
    with good show ?thesis by blast
  next
    case False
    from bad [OF False] have "\<not> returns (PickPastState_Combined d beam_indices layer)" by simp
    with False bad [OF False] show ?thesis by blast
  qed
qed


theorem PickPastState_unchecked_witness:
  "(\<exists>c0 g' c. KV_Cache_ctor (example_state 2 False) (example_model ''llama'' FLOAT16)
        \<lparr>enabled = True, warning = True, written = []\<rparr> = Returns (c0, g') \<and>
      KV_Cache_Add c0 = Returns c \<and>
      returns (PickPastState c [1, 0] 0) \<and> PickPastState c [2, 0] 0 = UndefinedBehaviour) \<and>
   (\<exists>d0 d. KV_Cache_Combined_ctor (example_state 2 False) (example_model ''llama'' FLOAT16) = Returns d0 \<and>
      KV_Cache_Combined_Add d0 = Returns d \<and>
      returns (PickPastState_Combined d [1, 0] 0) \<and>
      PickPastState_Combined d [0, -1] 0 = UndefinedBehaviour)"
proof -
  from Split_example_cache obtain c0 g' c where
    c: "KV_Cache_ctor (example_state 2 False) (example_model ''llama'' FLOAT16)
        \<lparr>enabled = True, warning = True, written = []\<rparr> = Returns (c0, g')"
     "KV_Cache_Add c0 = Returns c" "wf_KV_Cache c" "type' c = FLOAT16"
     "layer_count' c = 1" "shape' c = [2, 1, 1, 1]" by blast
  from Combined_example_cache obtain d0 d where
    d: "KV_Cache_Combined_ctor (example_state 2 False) (example_model ''llama'' FLOAT16) = Returns d0"
     "KV_Cache_Combined_Add d0 = Returns d" "wf_KV_Cache_Combined d" "type' d = FLOAT16"
     "layer_count' d = 1" "shape' d = [2, 2, 1, 1, 1]" by blast
  from PickPastState_unchecked [where c = c and index = 0 and beam_indices = "[1, 0]" and d = d and layer = 0] c d
  have 1: "returns (PickPastState c [1, 0] 0)" "returns (PickPastState_Combined d [1, 0] 0)"
    by simp_all
  from PickPastState_unchecked [where c = c and index = 0 and beam_indices = "[2, 0]" and d = d and layer = 0] c d
  have 2: "PickPastState c [2, 0] 0 = UndefinedBehaviour" by auto
  from PickPastState_unchecked [where c = c and index = 0 and beam_indices = "[0, -1]" and d = d and layer = 0] c d
  have 3: "PickPastState_Combined d [0, -1] 0 = UndefinedBehaviour" by auto
  from 1 2 3 c(1,2) d(1,2) show ?thesis by blast
qed

theorem PickPastState_unchecked_counterexample:
  "bind (KV_Cache_ctor (example_state 2 False) (example_model ''llama'' FLOAT16)
           \<lparr>enabled = True, warning = True, written = []\<rparr>)
     (\<lambda>(c, g'). bind (KV_Cache_Add c) (\<lambda>c. KV_Cache_Update c [2, 0] 2)) = UndefinedBehaviour \<and>
   returns (bind (KV_Cache_ctor (example_state 2 False) (example_model ''llama'' FLOAT16)
           \<lparr>enabled = True, warning = True, written = []\<rparr>)
     (\<lambda>(c, g'). bind (KV_Cache_Add c) (\<lambda>c. KV_Cache_Update c [1, 0] 2)))"
  by (simp add: KV_Cache_ctor_def KV_Cache_Add_def KV_Cache_Update_def PickPastState_def
      PickPastState_T_def subspan_ok_def copy_def store_def slice_def
      example_defs run_defs split_beta memset_def
      CreateTensor_def ElementCountFromShape_def get_def)
subsection \<open>One step of Update on the Split and the Combined cache\<close>

lemma gathered_iff:
  "gathered width block beam_indices dst src \<longleftrightarrow>
     (\<forall>j<length beam_indices.
        beam_row width block dst (int j) = beam_row width block src (beam_indices ! j))"
  by (auto simp: gathered_def list_all_iff)

lemma gathered_kv_iff:
  "gathered_kv width block rows beam_indices dst src \<longleftrightarrow>
     (\<forall>j<length beam_indices.
        key_row width block dst (int j) = key_row width block src (beam_indices ! j) \<and>
        value_row width block rows dst (int j) = value_row width block rows src (beam_indices ! j))"
  by (auto simp: gathered_kv_def list_all_iff)


lemma PickPastState_Returns:
  assumes wf: "wf_KV_Cache c" and ty: "type' c = FLOAT \<or> type' c = FLOAT16"
    and i: "index < layer_count' c * 2"
    and idx: "\<forall>x\<in>set bis. 0 \<le> x \<and> x < shape' c ! 0" and len: "int (length bis) \<le> shape' c ! 0"
  shows "\<exists>c' t p. PickPastState c bis index = Returns c' \<and>
      pasts' c' = (pasts' c)[index := Some t] \<and> presents' c' = presents' c \<and>
      shape' c' = shape' c \<and> type' c' = type' c \<and> layer_count' c' = layer_count' c \<and>
      state' c' = state' c \<and> input_index' c' = input_index' c \<and>
      output_index' c' = output_index' c \<and>
      past_present_share_buffer' c' = past_present_share_buffer' c \<and>
      next_address (allocator_kvcache' (model' c')) = Suc (next_address (allocator_kvcache' (model' c))) \<and>
      presents' c ! index = Some p \<and>
      address t = next_address (allocator_kvcache' (model' c)) \<and>
      tensor_shape t = shape' c \<and> tensor_type t = type' c \<and>
      length (tensor_data t) = length (tensor_data p) \<and>
      gathered (SizeOf (type' c)) (shape' c ! 1 * shape' c ! 2 * shape' c ! 3) bis
        (tensor_data t) (tensor_data p)"
proof -
  have "\<exists>w ty'. w = SizeOf (type' c) \<and> w = SizeOf ty' \<and> ty' = type' c \<and>
     PickPastState c bis index = PickPastState_T w ty' c bis index"
    using ty by (auto simp: PickPastState_def)
  then obtain w ty' where w: "w = SizeOf (type' c)" "w = SizeOf ty'" and t: "ty' = type' c"
    and eq: "PickPastState c bis index = PickPastState_T w ty' c bis index" by blast
  from PickPastState_T_Returns [OF wf w i idx len] obtain t p where
    r: "PickPastState_T w ty' c bis index =
        Returns (c\<lparr>pasts' := (pasts' c)[index := Some t],
                   model' := (model' c)\<lparr>allocator_kvcache' := (allocator_kvcache' (model' c))
                     \<lparr>next_address := Suc (next_address (allocator_kvcache' (model' c)))\<rparr>\<rparr>\<rparr>)"
    and p: "presents' c ! index = Some p"
      "address t = next_address (allocator_kvcache' (model' c))"
      "tensor_shape t = shape' c" "tensor_type t = ty'"
      "length (tensor_data t) = length (tensor_data p)"
    and rows: "\<forall>k<length bis.
         beam_row w (shape' c ! 1 * shape' c ! 2 * shape' c ! 3) (tensor_data t) (int k)
         = beam_row w (shape' c ! 1 * shape' c ! 2 * shape' c ! 3) (tensor_data p) (bis ! k)"
    by blast
  let ?c' = "c\<lparr>pasts' := (pasts' c)[index := Some t],
                   model' := (model' c)\<lparr>allocator_kvcache' := (allocator_kvcache' (model' c))
                     \<lparr>next_address := Suc (next_address (allocator_kvcache' (model' c)))\<rparr>\<rparr>\<rparr>"
  have g: "gathered (SizeOf (type' c)) (shape' c ! 1 * shape' c ! 2 * shape' c ! 3) bis
        (tensor_data t) (tensor_data p)"
    using rows w by (simp add: gathered_iff)
  show ?thesis
    apply (rule exI [of _ ?c'], rule exI [of _ t], rule exI [of _ p])
    using eq r p t g by simp
qed

lemma realloc_presents:
  fixes c1 :: KV_Cache
  assumes len: "length (presents' c1) = layer_count' c1 * 2"
    and out: "slots_bound (output_index' c1) (layer_count' c1 * 2) (outputs' (state' c1))"
  shows "\<exists>c'. for_each [0..<layer_count' c1 * 2]
        (\<lambda>i c.
           case CreateTensor (allocator_kvcache' (model' c)) (shape' c) (type' c) of (present, a) \<Rightarrow>
           bind (put (presents' c) i (Some present)) (\<lambda>presents.
           bind (deref (output_index' c)) (\<lambda>output_index.
           bind (put (outputs' (state' c)) (output_index + i) (get (Some present))) (\<lambda>outputs.
           Returns (c\<lparr>presents' := presents,
                      model' := (model' c)\<lparr>allocator_kvcache' := a\<rparr>,
                      state' := (state' c)\<lparr>outputs' := outputs\<rparr>\<rparr>)))))
        c1 = Returns c' \<and> pasts' c' = pasts' c1 \<and> inputs' (state' c') = inputs' (state' c1)"
proof -
  let ?n = "layer_count' c1 * 2"
  let ?I = "\<lambda>(i::nat) c. pasts' c = pasts' c1 \<and> inputs' (state' c) = inputs' (state' c1) \<and>
     length (presents' c) = ?n \<and> output_index' c = output_index' c1 \<and>
     length (outputs' (state' c)) = length (outputs' (state' c1))"
  from out obtain oi where oi: "output_index' c1 = Some oi" "oi + ?n \<le> length (outputs' (state' c1))"
    by (auto simp: slots_bound_def split: option.splits)
  have "\<exists>t. for_each [0..<?n]
        (\<lambda>i c.
           case CreateTensor (allocator_kvcache' (model' c)) (shape' c) (type' c) of (present, a) \<Rightarrow>
           bind (put (presents' c) i (Some present)) (\<lambda>presents.
           bind (deref (output_index' c)) (\<lambda>output_index.
           bind (put (outputs' (state' c)) (output_index + i) (get (Some present))) (\<lambda>outputs.
           Returns (c\<lparr>presents' := presents,
                      model' := (model' c)\<lparr>allocator_kvcache' := a\<rparr>,
                      state' := (state' c)\<lparr>outputs' := outputs\<rparr>\<rparr>)))))
        c1 = Returns t \<and> ?I ?n t"
    by (rule for_each_upt_rule [where I = ?I])
       (use len oi in \<open>auto simp: split_beta put_def deref_def\<close>)
  then show ?thesis by blast
qed


lemma wf_KV_Cache_frame:
  assumes "wf_KV_Cache c0"
    and "shape' c = shape' c0" "type' c = type' c0" "layer_count' c = layer_count' c0"
    "presents' c = presents' c0" "input_index' c = input_index' c0"
    "output_index' c = output_index' c0" "length (pasts' c) = layer_count' c0 * 2"
    "length (inputs' (state' c)) = length (inputs' (state' c0))"
    "outputs' (state' c) = outputs' (state' c0)"
  shows "wf_KV_Cache c"
  using assms by (simp add: wf_KV_Cache_def slots_bound_def split: option.splits)

lemma Update_gather_loop:
  fixes c0 :: KV_Cache
  assumes wf: "wf_KV_Cache c0" and ty: "type' c0 = FLOAT \<or> type' c0 = FLOAT16"
    and ne: "bis \<noteq> []"
    and idx: "\<forall>x\<in>set bis. 0 \<le> x \<and> x < shape' c0 ! 0" and len: "int (length bis) \<le> shape' c0 ! 0"
    and ii: "input_index' c0 = Some ii"
  defines "a0 \<equiv> next_address (allocator_kvcache' (model' c0))"
  defines "blk \<equiv> shape' c0 ! 1 * shape' c0 ! 2 * shape' c0 ! 3"
  shows "\<exists>c1. for_each [0..<layer_count' c0 * 2]
              (\<lambda>i c.
                 bind (if bis = [] then
                         bind (at (presents' c) i) (\<lambda>present.
                         bind (put (pasts' c) i present) (\<lambda>pasts.
                         bind (put (presents' c) i None) (\<lambda>presents.
                         Returns (c\<lparr>pasts' := pasts, presents' := presents\<rparr>))))
                       else PickPastState c bis i) (\<lambda>c.
                 bind (deref (input_index' c)) (\<lambda>input_index.
                 bind (at (pasts' c) i) (\<lambda>past.
                 bind (put (inputs' (state' c)) (input_index + i) (get past)) (\<lambda>inputs.
                 Returns (c\<lparr>state' := (state' c)\<lparr>inputs' := inputs\<rparr>\<rparr>))))))
              c0 = Returns c1 \<and>
     shape' c1 = shape' c0 \<and> type' c1 = type' c0 \<and> layer_count' c1 = layer_count' c0 \<and>
     presents' c1 = presents' c0 \<and> input_index' c1 = input_index' c0 \<and>
     output_index' c1 = output_index' c0 \<and> length (pasts' c1) = layer_count' c0 * 2 \<and>
     length (inputs' (state' c1)) = length (inputs' (state' c0)) \<and>
     outputs' (state' c1) = outputs' (state' c0) \<and>
     (\<forall>k<layer_count' c0 * 2. \<exists>t p. pasts' c1 ! k = Some t \<and> presents' c0 ! k = Some p \<and>
        address t = a0 + k \<and> tensor_shape t = shape' c0 \<and> tensor_type t = type' c0 \<and>
        length (tensor_data t) = length (tensor_data p) \<and>
        gathered (SizeOf (type' c0)) blk bis (tensor_data t) (tensor_data p) \<and>
        inputs' (state' c1) ! (ii + k) = Some (a0 + k))"
proof -
  let ?n = "layer_count' c0 * 2"
  let ?frame = "\<lambda>c. shape' c = shape' c0 \<and> type' c = type' c0 \<and> layer_count' c = layer_count' c0 \<and>
     presents' c = presents' c0 \<and> input_index' c = input_index' c0 \<and>
     output_index' c = output_index' c0 \<and> length (pasts' c) = ?n \<and>
     length (inputs' (state' c)) = length (inputs' (state' c0)) \<and>
     outputs' (state' c) = outputs' (state' c0)"
  let ?done = "\<lambda>c k. \<exists>t p. pasts' c ! k = Some t \<and> presents' c0 ! k = Some p \<and>
        address t = a0 + k \<and> tensor_shape t = shape' c0 \<and> tensor_type t = type' c0 \<and>
        length (tensor_data t) = length (tensor_data p) \<and>
        gathered (SizeOf (type' c0)) blk bis (tensor_data t) (tensor_data p) \<and>
        inputs' (state' c) ! (ii + k) = Some (a0 + k)"
  let ?I = "\<lambda>i c. ?frame c \<and> next_address (allocator_kvcache' (model' c)) = a0 + i \<and>
     (\<forall>k<i. ?done c k)"
  let ?body = "\<lambda>i c.
                 bind (if bis = [] then
                         bind (at (presents' c) i) (\<lambda>present.
                         bind (put (pasts' c) i present) (\<lambda>pasts.
                         bind (put (presents' c) i None) (\<lambda>presents.
                         Returns (c\<lparr>pasts' := pasts, presents' := presents\<rparr>))))
                       else PickPastState c bis i) (\<lambda>c.
                 bind (deref (input_index' c)) (\<lambda>input_index.
                 bind (at (pasts' c) i) (\<lambda>past.
                 bind (put (inputs' (state' c)) (input_index + i) (get past)) (\<lambda>inputs.
                 Returns (c\<lparr>state' := (state' c)\<lparr>inputs' := inputs\<rparr>\<rparr>)))))"
  from wf ii have slots: "ii + ?n \<le> length (inputs' (state' c0))"
    by (simp add: wf_KV_Cache_def slots_bound_def)
  have "\<exists>t. for_each [0..<?n] ?body c0 = Returns t \<and> ?I ?n t"
  proof (rule for_each_upt_rule [where I = ?I])
    show "?I 0 c0" using wf by (simp add: a0_def wf_KV_Cache_def)
  next
    fix i and u :: KV_Cache
    assume i: "i < ?n" and I: "?I i u"
    from I have fr: "?frame u" and na: "next_address (allocator_kvcache' (model' u)) = a0 + i"
      and dn: "\<And>k. k < i \<Longrightarrow> ?done u k" by blast+
    have wfu: "wf_KV_Cache u" by (rule wf_KV_Cache_frame [OF wf]) (use fr in simp_all)
    from PickPastState_Returns [OF wfu, of i bis] ty idx len i fr
    obtain u1 t p where
      pick: "PickPastState u bis i = Returns u1"
      and u1: "pasts' u1 = (pasts' u)[i := Some t]" "presents' u1 = presents' u"
        "shape' u1 = shape' u" "type' u1 = type' u" "layer_count' u1 = layer_count' u"
        "state' u1 = state' u" "input_index' u1 = input_index' u"
        "output_index' u1 = output_index' u"
        "next_address (allocator_kvcache' (model' u1)) = Suc (next_address (allocator_kvcache' (model' u)))"
      and t: "presents' u ! i = Some p" "address t = next_address (allocator_kvcache' (model' u))"
        "tensor_shape t = shape' u" "tensor_type t = type' u"
        "length (tensor_data t) = length (tensor_data p)"
        "gathered (SizeOf (type' u)) (shape' u ! 1 * shape' u ! 2 * shape' u ! 3) bis
           (tensor_data t) (tensor_data p)"
      by auto
    let ?u' = "u1\<lparr>state' := (state' u1)\<lparr>inputs' := (inputs' (state' u1))[ii + i := Some (address t)]\<rparr>\<rparr>"
    have run: "?body i u = Returns ?u'"
      using ne pick u1 fr ii i slots by (simp add: deref_def at_def put_def get_def)
    have frame': "?frame ?u'" using fr u1 by simp
    have na': "next_address (allocator_kvcache' (model' ?u')) = a0 + Suc i" using u1 na by simp
    have done': "?done ?u' k" if "k < Suc i" for k
    proof (cases "k = i")
      case True
      with t fr u1 na i slots show ?thesis by (simp add: blk_def)
    next
      case False
      with that have k: "k < i" by simp
      from dn [OF k] False u1 show ?thesis by simp
    qed
    show "\<exists>t'. ?body i u = Returns t' \<and> ?I (Suc i) t'"
      using run frame' na' done' by blast
  qed
  then show ?thesis by blast
qed



lemma KV_Cache_Update_gather:
  fixes c :: KV_Cache
  assumes wf: "wf_KV_Cache c" and ty: "type' c = FLOAT \<or> type' c = FLOAT16"
    and share: "\<not> past_present_share_buffer' c" and ne: "bis \<noteq> []"
    and idx: "\<forall>x\<in>set bis. 0 \<le> x \<and> x < shape' c ! 0" and len: "int (length bis) \<le> shape' c ! 0"
  shows "\<exists>c'. KV_Cache_Update c bis n = Returns c' \<and> length (pasts' c') = layer_count' c * 2 \<and>
     (\<forall>k<layer_count' c * 2. \<exists>t p. pasts' c' ! k = Some t \<and> presents' c ! k = Some p \<and>
        address t = next_address (allocator_kvcache' (model' c)) + k \<and>
        tensor_shape t = shape' c \<and> tensor_type t = type' c \<and>
        length (tensor_data t) = length (tensor_data p) \<and>
        gathered (SizeOf (type' c)) (shape' c ! 1 * shape' c ! 2 * shape' c ! 3) bis
          (tensor_data t) (tensor_data p))"
proof -
  from wf obtain ii where ii: "input_index' c = Some ii"
    by (auto simp: wf_KV_Cache_def slots_bound_def split: option.splits)
  from Update_gather_loop [OF wf ty ne idx len ii] obtain c1 where
    loop1: "for_each [0..<layer_count' c * 2]
              (\<lambda>i c.
                 bind (if bis = [] then
                         bind (at (presents' c) i) (\<lambda>present.
                         bind (put (pasts' c) i present) (\<lambda>pasts.
                         bind (put (presents' c) i None) (\<lambda>presents.
                         Returns (c\<lparr>pasts' := pasts, presents' := presents\<rparr>))))
                       else PickPastState c bis i) (\<lambda>c.
                 bind (deref (input_index' c)) (\<lambda>input_index.
                 bind (at (pasts' c) i) (\<lambda>past.
                 bind (put (inputs' (state' c)) (input_index + i) (get past)) (\<lambda>inputs.
                 Returns (c\<lparr>state' := (state' c)\<lparr>inputs' := inputs\<rparr>\<rparr>))))))
              c = Returns c1"
    and fr: "layer_count' c1 = layer_count' c" "presents' c1 = presents' c"
      "output_index' c1 = output_index' c" "outputs' (state' c1) = outputs' (state' c)"
    and lp: "length (pasts' c1) = layer_count' c * 2"
    and dn: "\<forall>k<layer_count' c * 2. \<exists>t p. pasts' c1 ! k = Some t \<and> presents' c ! k = Some p \<and>
        address t = next_address (allocator_kvcache' (model' c)) + k \<and>
        tensor_shape t = shape' c \<and> tensor_type t = type' c \<and>
        length (tensor_data t) = length (tensor_data p) \<and>
        gathered (SizeOf (type' c)) (shape' c ! 1 * shape' c ! 2 * shape' c ! 3) bis
          (tensor_data t) (tensor_data p) \<and>
        inputs' (state' c1) ! (ii + k) = Some (next_address (allocator_kvcache' (model' c)) + k)"
    by blast
  let ?c2 = "c1\<lparr>shape' := (shape' c1)[2 := n]\<rparr>"
  have "length (presents' ?c2) = layer_count' ?c2 * 2"
    "slots_bound (output_index' ?c2) (layer_count' ?c2 * 2) (outputs' (state' ?c2))"
    using wf fr by (simp_all add: wf_KV_Cache_def)
  from realloc_presents [OF this] obtain c' where
    loop2: "for_each [0..<layer_count' c1 * 2]
        (\<lambda>i c.
           case CreateTensor (allocator_kvcache' (model' c)) (shape' c) (type' c) of (present, a) \<Rightarrow>
           bind (put (presents' c) i (Some present)) (\<lambda>presents.
           bind (deref (output_index' c)) (\<lambda>output_index.
           bind (put (outputs' (state' c)) (output_index + i) (get (Some present))) (\<lambda>outputs.
           Returns (c\<lparr>presents' := presents,
                      model' := (model' c)\<lparr>allocator_kvcache' := a\<rparr>,
                      state' := (state' c)\<lparr>outputs' := outputs\<rparr>\<rparr>)))))
        ?c2 = Returns c'" and same: "pasts' c' = pasts' c1"
    by auto
  have "KV_Cache_Update c bis n = Returns c'"
    using share loop1 loop2 by (simp add: KV_Cache_Update_def)
  with dn same lp show ?thesis by auto
qed



lemma PickPastState_Combined_Returns:
  fixes c :: KV_Cache_Combined
  assumes wf: "wf_KV_Cache_Combined c" and ty: "type' c = FLOAT \<or> type' c = FLOAT16"
    and i: "index < layer_count' c"
    and idx: "\<forall>x\<in>set bis. 0 \<le> x \<and> x < shape' c ! 1" and len: "int (length bis) \<le> shape' c ! 1"
  shows "\<exists>c' t p. PickPastState_Combined c bis index = Returns c' \<and>
      pasts' c' = (pasts' c)[index := Some t] \<and> presents' c' = presents' c \<and>
      shape' c' = shape' c \<and> type' c' = type' c \<and> layer_count' c' = layer_count' c \<and>
      state' c' = state' c \<and> input_index' c' = input_index' c \<and>
      output_index' c' = output_index' c \<and>
      next_address (allocator_kvcache' (model' c')) = Suc (next_address (allocator_kvcache' (model' c))) \<and>
      presents' c ! index = Some p \<and>
      address t = next_address (allocator_kvcache' (model' c)) \<and>
      tensor_shape t = shape' c \<and> tensor_type t = type' c \<and>
      length (tensor_data t) = length (tensor_data p) \<and>
      gathered_kv (SizeOf (type' c)) (shape' c ! 2 * shape' c ! 3 * shape' c ! 4) (shape' c ! 1) bis
        (tensor_data t) (tensor_data p)"
proof -
  have "\<exists>w ty'. w = SizeOf (type' c) \<and> w = SizeOf ty' \<and> ty' = type' c \<and>
     PickPastState_Combined c bis index = PickPastState_T_Combined w ty' c bis index"
    using ty by (auto simp: PickPastState_Combined_def)
  then obtain w ty' where w: "w = SizeOf (type' c)" "w = SizeOf ty'" and t: "ty' = type' c"
    and eq: "PickPastState_Combined c bis index = PickPastState_T_Combined w ty' c bis index" by blast
  from PickPastState_T_Combined_Returns [OF wf w i idx len] obtain t p where
    r: "PickPastState_T_Combined w ty' c bis index =
        Returns (c\<lparr>pasts' := (pasts' c)[index := Some t],
                   model' := (model' c)\<lparr>allocator_kvcache' := (allocator_kvcache' (model' c))
                     \<lparr>next_address := Suc (next_address (allocator_kvcache' (model' c)))\<rparr>\<rparr>\<rparr>)"
    and p: "presents' c ! index = Some p"
      "address t = next_address (allocator_kvcache' (model' c))"
      "tensor_shape t = shape' c" "tensor_type t = ty'"
      "length (tensor_data t) = length (tensor_data p)"
    and rows: "\<forall>k<length bis.
         key_row w (shape' c ! 2 * shape' c ! 3 * shape' c ! 4) (tensor_data t) (int k)
         = key_row w (shape' c ! 2 * shape' c ! 3 * shape' c ! 4) (tensor_data p) (bis ! k) \<and>
         value_row w (shape' c ! 2 * shape' c ! 3 * shape' c ! 4) (shape' c ! 1) (tensor_data t) (int k)
         = value_row w (shape' c ! 2 * shape' c ! 3 * shape' c ! 4) (shape' c ! 1) (tensor_data p) (bis ! k)"
    by blast
  let ?c' = "c\<lparr>pasts' := (pasts' c)[index := Some t],
                   model' := (model' c)\<lparr>allocator_kvcache' := (allocator_kvcache' (model' c))
                     \<lparr>next_address := Suc (next_address (allocator_kvcache' (model' c)))\<rparr>\<rparr>\<rparr>"
  have g: "gathered_kv (SizeOf (type' c)) (shape' c ! 2 * shape' c ! 3 * shape' c ! 4) (shape' c ! 1) bis
        (tensor_data t) (tensor_data p)"
    using rows w by (simp add: gathered_kv_iff)
  show ?thesis
    apply (rule exI [of _ ?c'], rule exI [of _ t], rule exI [of _ p])
    using eq r p t g by simp
qed

lemma wf_KV_Cache_Combined_frame:
  fixes c c0 :: KV_Cache_Combined
  assumes "wf_KV_Cache_Combined c0"
    and "shape' c = shape' c0" "type' c = type' c0" "layer_count' c = layer_count' c0"
    "presents' c = presents' c0" "input_index' c = input_index' c0"
    "output_index' c = output_index' c0" "length (pasts' c) = layer_count' c0"
    "state' c = state' c0"
  shows "wf_KV_Cache_Combined c"
  using assms by (simp add: wf_KV_Cache_Combined_def slots_bound_def split: option.splits)

lemma realloc_presents_Combined:
  fixes c1 :: KV_Cache_Combined
  assumes len: "length (presents' c1) = layer_count' c1" "length (pasts' c1) = layer_count' c1"
    and inp: "slots_bound (input_index' c1) (layer_count' c1) (inputs' (state' c1))"
    and out: "slots_bound (output_index' c1) (layer_count' c1) (outputs' (state' c1))"
  shows "\<exists>c'. for_each [0..<layer_count' c1]
        (\<lambda>i c.
           case CreateTensor (allocator_kvcache' (model' c)) (shape' c) (type' c) of (present, a) \<Rightarrow>
           bind (put (presents' c) i (Some present)) (\<lambda>presents.
           bind (deref (input_index' c)) (\<lambda>input_index.
           bind (at (pasts' c) i) (\<lambda>past.
           bind (put (inputs' (state' c)) (input_index + i) (get past)) (\<lambda>inputs.
           bind (deref (output_index' c)) (\<lambda>output_index.
           bind (put (outputs' (state' c)) (output_index + i) (get (Some present))) (\<lambda>outputs.
           Returns (c\<lparr>presents' := presents,
                      model' := (model' c)\<lparr>allocator_kvcache' := a\<rparr>,
                      state' := (state' c)\<lparr>inputs' := inputs, outputs' := outputs\<rparr>\<rparr>))))))))
        c1 = Returns c' \<and> pasts' c' = pasts' c1"
proof -
  let ?n = "layer_count' c1"
  let ?I = "\<lambda>(i::nat) (c :: KV_Cache_Combined). pasts' c = pasts' c1 \<and>
     length (presents' c) = ?n \<and> output_index' c = output_index' c1 \<and>
     input_index' c = input_index' c1 \<and>
     length (inputs' (state' c)) = length (inputs' (state' c1)) \<and>
     length (outputs' (state' c)) = length (outputs' (state' c1))"
  from out obtain oi where oi: "output_index' c1 = Some oi" "oi + ?n \<le> length (outputs' (state' c1))"
    by (auto simp: slots_bound_def split: option.splits)
  from inp obtain ii where ii: "input_index' c1 = Some ii" "ii + ?n \<le> length (inputs' (state' c1))"
    by (auto simp: slots_bound_def split: option.splits)
  have "\<exists>t. for_each [0..<?n]
        (\<lambda>i c.
           case CreateTensor (allocator_kvcache' (model' c)) (shape' c) (type' c) of (present, a) \<Rightarrow>
           bind (put (presents' c) i (Some present)) (\<lambda>presents.
           bind (deref (input_index' c)) (\<lambda>input_index.
           bind (at (pasts' c) i) (\<lambda>past.
           bind (put (inputs' (state' c)) (input_index + i) (get past)) (\<lambda>inputs.
           bind (deref (output_index' c)) (\<lambda>output_index.
           bind (put (outputs' (state' c)) (output_index + i) (get (Some present))) (\<lambda>outputs.
           Returns (c\<lparr>presents' := presents,
                      model' := (model' c)\<lparr>allocator_kvcache' := a\<rparr>,
                      state' := (state' c)\<lparr>inputs' := inputs, outputs' := outputs\<rparr>\<rparr>))))))))
        c1 = Returns t \<and> ?I ?n t"
    by (rule for_each_upt_rule [where I = ?I])
       (use len oi ii in \<open>auto simp: split_beta put_def deref_def at_def\<close>)
  then show ?thesis by blast
qed

lemma Update_gather_loop_Combined:
  fixes c0 :: KV_Cache_Combined
  assumes wf: "wf_KV_Cache_Combined c0" and ty: "type' c0 = FLOAT \<or> type' c0 = FLOAT16"
    and ne: "bis \<noteq> []"
    and idx: "\<forall>x\<in>set bis. 0 \<le> x \<and> x < shape' c0 ! 1" and len: "int (length bis) \<le> shape' c0 ! 1"
  defines "a0 \<equiv> next_address (allocator_kvcache' (model' c0))"
  defines "blk \<equiv> shape' c0 ! 2 * shape' c0 ! 3 * shape' c0 ! 4"
  shows "\<exists>c1. for_each [0..<layer_count' c0]
              (\<lambda>i c.
                 if bis = [] then
                   bind (at (presents' c) i) (\<lambda>present.
                   bind (put (pasts' c) i present) (\<lambda>pasts.
                   bind (put (presents' c) i None) (\<lambda>presents.
                   Returns (c\<lparr>pasts' := pasts, presents' := presents\<rparr>))))
                 else PickPastState_Combined c bis i)
              c0 = Returns c1 \<and>
     shape' c1 = shape' c0 \<and> type' c1 = type' c0 \<and> layer_count' c1 = layer_count' c0 \<and>
     presents' c1 = presents' c0 \<and> input_index' c1 = input_index' c0 \<and>
     output_index' c1 = output_index' c0 \<and> length (pasts' c1) = layer_count' c0 \<and>
     state' c1 = state' c0 \<and>
     (\<forall>k<layer_count' c0. \<exists>t p. pasts' c1 ! k = Some t \<and> presents' c0 ! k = Some p \<and>
        address t = a0 + k \<and> tensor_shape t = shape' c0 \<and> tensor_type t = type' c0 \<and>
        length (tensor_data t) = length (tensor_data p) \<and>
        gathered_kv (SizeOf (type' c0)) blk (shape' c0 ! 1) bis (tensor_data t) (tensor_data p))"
proof -
  let ?n = "layer_count' c0"
  let ?frame = "\<lambda>c :: KV_Cache_Combined. shape' c = shape' c0 \<and> type' c = type' c0 \<and>
     layer_count' c = layer_count' c0 \<and>
     presents' c = presents' c0 \<and> input_index' c = input_index' c0 \<and>
     output_index' c = output_index' c0 \<and> length (pasts' c) = ?n \<and> state' c = state' c0"
  let ?done = "\<lambda>(c :: KV_Cache_Combined) k. \<exists>t p. pasts' c ! k = Some t \<and> presents' c0 ! k = Some p \<and>
        address t = a0 + k \<and> tensor_shape t = shape' c0 \<and> tensor_type t = type' c0 \<and>
        length (tensor_data t) = length (tensor_data p) \<and>
        gathered_kv (SizeOf (type' c0)) blk (shape' c0 ! 1) bis (tensor_data t) (tensor_data p)"
  let ?I = "\<lambda>i c. ?frame c \<and> next_address (allocator_kvcache' (model' c)) = a0 + i \<and>
     (\<forall>k<i. ?done c k)"
  let ?body = "\<lambda>i (c :: KV_Cache_Combined).
                 if bis = [] then
                   bind (at (presents' c) i) (\<lambda>present.
                   bind (put (pasts' c) i present) (\<lambda>pasts.
                   bind (put (presents' c) i None) (\<lambda>presents.
                   Returns (c\<lparr>pasts' := pasts, presents' := presents\<rparr>))))
                 else PickPastState_Combined c bis i"
  have "\<exists>t. for_each [0..<?n] ?body c0 = Returns t \<and> ?I ?n t"
  proof (rule for_each_upt_rule [where I = ?I])
    show "?I 0 c0" using wf by (simp add: a0_def wf_KV_Cache_Combined_def)
  next
    fix i and u :: KV_Cache_Combined
    assume i: "i < ?n" and I: "?I i u"
    from I have fr: "?frame u" and na: "next_address (allocator_kvcache' (model' u)) = a0 + i"
      and dn: "\<And>k. k < i \<Longrightarrow> ?done u k" by blast+
    have wfu: "wf_KV_Cache_Combined u"
      by (rule wf_KV_Cache_Combined_frame [OF wf]) (use fr in simp_all)
    from PickPastState_Combined_Returns [OF wfu, of i bis] ty idx len i fr
    obtain u1 t p where
      pick: "PickPastState_Combined u bis i = Returns u1"
      and u1: "pasts' u1 = (pasts' u)[i := Some t]" "presents' u1 = presents' u"
        "shape' u1 = shape' u" "type' u1 = type' u" "layer_count' u1 = layer_count' u"
        "state' u1 = state' u" "input_index' u1 = input_index' u"
        "output_index' u1 = output_index' u"
        "next_address (allocator_kvcache' (model' u1)) = Suc (next_address (allocator_kvcache' (model' u)))"
      and t: "presents' u ! i = Some p" "address t = next_address (allocator_kvcache' (model' u))"
        "tensor_shape t = shape' u" "tensor_type t = type' u"
        "length (tensor_data t) = length (tensor_data p)"
        "gathered_kv (SizeOf (type' u)) (shape' u ! 2 * shape' u ! 3 * shape' u ! 4) (shape' u ! 1) bis
           (tensor_data t) (tensor_data p)"
      by auto
    have run: "?body i u = Returns u1" using ne pick by simp
    have frame': "?frame u1" using fr u1 by simp
    have na': "next_address (allocator_kvcache' (model' u1)) = a0 + Suc i" using u1 na by simp
    have done': "?done u1 k" if "k < Suc i" for k
    proof (cases "k = i")
      case True
      with t fr u1 na i show ?thesis by (simp add: blk_def)
    next
      case False
      with that have k: "k < i" by simp
      from dn [OF k] False u1 show ?thesis by simp
    qed
    show "\<exists>t'. ?body i u = Returns t' \<and> ?I (Suc i) t'"
      using run frame' na' done' by blast
  qed
  then show ?thesis by blast
qed



lemma KV_Cache_Combined_Update_gather:
  fixes c :: KV_Cache_Combined
  assumes wf: "wf_KV_Cache_Combined c" and ty: "type' c = FLOAT \<or> type' c = FLOAT16"
    and ne: "bis \<noteq> []"
    and idx: "\<forall>x\<in>set bis. 0 \<le> x \<and> x < shape' c ! 1" and len: "int (length bis) \<le> shape' c ! 1"
  shows "\<exists>c'. KV_Cache_Combined_Update c bis n = Returns c' \<and> length (pasts' c') = layer_count' c \<and>
     (\<forall>k<layer_count' c. \<exists>t p. pasts' c' ! k = Some t \<and> presents' c ! k = Some p \<and>
        address t = next_address (allocator_kvcache' (model' c)) + k \<and>
        tensor_shape t = shape' c \<and> tensor_type t = type' c \<and>
        length (tensor_data t) = length (tensor_data p) \<and>
        gathered_kv (SizeOf (type' c)) (shape' c ! 2 * shape' c ! 3 * shape' c ! 4) (shape' c ! 1) bis
          (tensor_data t) (tensor_data p))"
proof -
  from Update_gather_loop_Combined [OF wf ty ne idx len] obtain c1 where
    loop1: "for_each [0..<layer_count' c]
              (\<lambda>i c.
                 if bis = [] then
                   bind (at (presents' c) i) (\<lambda>present.
                   bind (put (pasts' c) i present) (\<lambda>pasts.
                   bind (put (presents' c) i None) (\<lambda>presents.
                   Returns (c\<lparr>pasts' := pasts, presents' := presents\<rparr>))))
                 else PickPastState_Combined c bis i)
              c = Returns c1"
    and fr: "layer_count' c1 = layer_count' c" "presents' c1 = presents' c"
      "output_index' c1 = output_index' c" "input_index' c1 = input_index' c"
      "state' c1 = state' c" "length (pasts' c1) = layer_count' c"
    and dn: "\<forall>k<layer_count' c. \<exists>t p. pasts' c1 ! k = Some t \<and> presents' c ! k = Some p \<and>
        address t = next_address (allocator_kvcache' (model' c)) + k \<and>
        tensor_shape t = shape' c \<and> tensor_type t = type' c \<and>
        length (tensor_data t) = length (tensor_data p) \<and>
        gathered_kv (SizeOf (type' c)) (shape' c ! 2 * shape' c ! 3 * shape' c ! 4) (shape' c ! 1) bis
          (tensor_data t) (tensor_data p)"
    by blast
  let ?c2 = "c1\<lparr>shape' := (shape' c1)[3 := n]\<rparr>"
  have "length (presents' ?c2) = layer_count' ?c2" "length (pasts' ?c2) = layer_count' ?c2"
    "slots_bound (input_index' ?c2) (layer_count' ?c2) (inputs' (state' ?c2))"
    "slots_bound (output_index' ?c2) (layer_count' ?c2) (outputs' (state' ?c2))"
    using wf fr by (simp_all add: wf_KV_Cache_Combined_def)
  from realloc_presents_Combined [OF this] obtain c' where
    loop2: "for_each [0..<layer_count' c1]
        (\<lambda>i c.
           case CreateTensor (allocator_kvcache' (model' c)) (shape' c) (type' c) of (present, a) \<Rightarrow>
           bind (put (presents' c) i (Some present)) (\<lambda>presents.
           bind (deref (input_index' c)) (\<lambda>input_index.
           bind (at (pasts' c) i) (\<lambda>past.
           bind (put (inputs' (state' c)) (input_index + i) (get past)) (\<lambda>inputs.
           bind (deref (output_index' c)) (\<lambda>output_index.
           bind (put (outputs' (state' c)) (output_index + i) (get (Some present))) (\<lambda>outputs.
           Returns (c\<lparr>presents' := presents,
                      model' := (model' c)\<lparr>allocator_kvcache' := a\<rparr>,
                      state' := (state' c)\<lparr>inputs' := inputs, outputs' := outputs\<rparr>\<rparr>))))))))
        ?c2 = Returns c'" and same: "pasts' c' = pasts' c1"
    by auto
  have "KV_Cache_Combined_Update c bis n = Returns c'"
    using ne loop1 loop2 by (simp add: KV_Cache_Combined_Update_def)
  with dn same fr show ?thesis by auto
qed


subsection \<open>Beam reorder by Update\<close>

lemma with_present_data_simps [simp]:
  "shape' (with_present_data d c) = shape' c"
  "type' (with_present_data d c) = type' c"
  "layer_count' (with_present_data d c) = layer_count' c"
  "pasts' (with_present_data d c) = pasts' c"
  "state' (with_present_data d c) = state' c"
  "model' (with_present_data d c) = model' c"
  "input_index' (with_present_data d c) = input_index' c"
  "output_index' (with_present_data d c) = output_index' c"
  "length (presents' (with_present_data d c)) = length (presents' c)"
  by (simp_all add: with_present_data_def)

lemma with_present_data_share [simp]:
  fixes c :: KV_Cache
  shows "past_present_share_buffer' (with_present_data d c) = past_present_share_buffer' c"
  by (simp add: with_present_data_def)

lemma tensor_ok_with_data:
  assumes "list_all (tensor_ok shape ty) ps" and "length d = SizeOf ty * nat (ElementCountFromShape shape)"
  shows "list_all (tensor_ok shape ty) (map (map_option (\<lambda>t. t\<lparr>tensor_data := d\<rparr>)) ps)"
  using assms by (auto simp: list_all_iff tensor_ok_def split: option.splits)

lemma wf_KV_Cache_with_data:
  fixes c :: KV_Cache
  assumes "wf_KV_Cache c" and "length d = SizeOf (type' c) * nat (ElementCountFromShape (shape' c))"
  shows "wf_KV_Cache (with_present_data d c)"
  using assms tensor_ok_with_data [of "shape' c" "type' c" "presents' c" d]
  by (simp add: wf_KV_Cache_def) (simp add: with_present_data_def)

lemma wf_KV_Cache_Combined_with_data:
  fixes c :: KV_Cache_Combined
  assumes "wf_KV_Cache_Combined c" and "length d = SizeOf (type' c) * nat (ElementCountFromShape (shape' c))"
  shows "wf_KV_Cache_Combined (with_present_data d c)"
  using assms tensor_ok_with_data [of "shape' c" "type' c" "presents' c" d]
  by (simp add: wf_KV_Cache_Combined_def) (simp add: with_present_data_def)

lemma present_with_data:
  assumes "list_all (tensor_ok shape ty) (presents' c)" and "k < length (presents' c)"
    and "presents' (with_present_data d c) ! k = Some p"
  shows "tensor_data p = d"
  using assms by (auto simp: with_present_data_def list_all_length tensor_ok_def split: option.splits)

text \<open>
  C1 (as amended). On a bound Combined cache, and on a bound Split cache that is not in
  shared-buffer mode, of float or half elements, \<open>Update\<close> with a non-empty beam-index list of
  length \<open>batch \<times> beam\<close> whose values lie in \<open>[0, batch \<times> beam)\<close> returns, and every past
  tensor it leaves is newly allocated (its address is none the allocator had handed out), has
  the shape and type of the cache, and holds in beam row \<open>j\<close> the bytes of beam row
  \<open>beam_indices[j]\<close> of the present tensor: in the Combined layout for the key half and for the
  value half, each on its own.
\<close>

theorem Update_beam_reorder:
  fixes cc :: KV_Cache_Combined and c :: KV_Cache
  assumes ne: "beam_indices \<noteq> []"
  shows "(wf_KV_Cache_Combined cc \<and> (type' cc = FLOAT \<or> type' cc = FLOAT16) \<and>
          (\<forall>x\<in>set beam_indices. 0 \<le> x \<and> x < shape' cc ! 1) \<and>
          int (length beam_indices) = shape' cc ! 1 \<longrightarrow>
          (\<exists>c'. KV_Cache_Combined_Update cc beam_indices current_length = Returns c' \<and>
             (\<forall>k<layer_count' cc. \<exists>past present.
                pasts' c' ! k = Some past \<and> presents' cc ! k = Some present \<and>
                next_address (allocator_kvcache' (model' cc)) \<le> address past \<and>
                tensor_shape past = shape' cc \<and> tensor_type past = type' cc \<and>
                length (tensor_data past) = length (tensor_data present) \<and>
                gathered_kv (SizeOf (type' cc)) (shape' cc ! 2 * shape' cc ! 3 * shape' cc ! 4)
                  (shape' cc ! 1) beam_indices (tensor_data past) (tensor_data present)))) \<and>
         (wf_KV_Cache c \<and> (type' c = FLOAT \<or> type' c = FLOAT16) \<and>
          \<not> past_present_share_buffer' c \<and>
          (\<forall>x\<in>set beam_indices. 0 \<le> x \<and> x < shape' c ! 0) \<and>
          int (length beam_indices) = shape' c ! 0 \<longrightarrow>
          (\<exists>c'. KV_Cache_Update c beam_indices current_length = Returns c' \<and>
             (\<forall>k<layer_count' c * 2. \<exists>past present.
                pasts' c' ! k = Some past \<and> presents' c ! k = Some present \<and>
                next_address (allocator_kvcache' (model' c)) \<le> address past \<and>
                tensor_shape past = shape' c \<and> tensor_type past = type' c \<and>
                length (tensor_data past) = length (tensor_data present) \<and>
                gathered (SizeOf (type' c)) (shape' c ! 1 * shape' c ! 2 * shape' c ! 3)
                  beam_indices (tensor_data past) (tensor_data present))))"
proof (rule conjI; rule impI)
  assume a: "wf_KV_Cache_Combined cc \<and> (type' cc = FLOAT \<or> type' cc = FLOAT16) \<and>
          (\<forall>x\<in>set beam_indices. 0 \<le> x \<and> x < shape' cc ! 1) \<and>
          int (length beam_indices) = shape' cc ! 1"
  then have len: "int (length beam_indices) \<le> shape' cc ! 1" by simp
  from a have wf: "wf_KV_Cache_Combined cc" and ty: "type' cc = FLOAT \<or> type' cc = FLOAT16"
    and idx: "\<forall>x\<in>set beam_indices. 0 \<le> x \<and> x < shape' cc ! 1" by blast+
  from KV_Cache_Combined_Update_gather [OF wf ty ne idx len, of current_length]
  obtain c' where r: "KV_Cache_Combined_Update cc beam_indices current_length = Returns c'"
    and g: "\<And>k. k < layer_count' cc \<Longrightarrow> \<exists>t p. pasts' c' ! k = Some t \<and> presents' cc ! k = Some p \<and>
        address t = next_address (allocator_kvcache' (model' cc)) + k \<and>
        tensor_shape t = shape' cc \<and> tensor_type t = type' cc \<and>
        length (tensor_data t) = length (tensor_data p) \<and>
        gathered_kv (SizeOf (type' cc)) (shape' cc ! 2 * shape' cc ! 3 * shape' cc ! 4) (shape' cc ! 1)
          beam_indices (tensor_data t) (tensor_data p)"
    by blast
  have "\<exists>past present.
                pasts' c' ! k = Some past \<and> presents' cc ! k = Some present \<and>
                next_address (allocator_kvcache' (model' cc)) \<le> address past \<and>
                tensor_shape past = shape' cc \<and> tensor_type past = type' cc \<and>
                length (tensor_data past) = length (tensor_data present) \<and>
                gathered_kv (SizeOf (type' cc)) (shape' cc ! 2 * shape' cc ! 3 * shape' cc ! 4)
                  (shape' cc ! 1) beam_indices (tensor_data past) (tensor_data present)"
    if "k < layer_count' cc" for k
    using g [OF that] by auto
  with r show "\<exists>c'. KV_Cache_Combined_Update cc beam_indices current_length = Returns c' \<and>
             (\<forall>k<layer_count' cc. \<exists>past present.
                pasts' c' ! k = Some past \<and> presents' cc ! k = Some present \<and>
                next_address (allocator_kvcache' (model' cc)) \<le> address past \<and>
                tensor_shape past = shape' cc \<and> tensor_type past = type' cc \<and>
                length (tensor_data past) = length (tensor_data present) \<and>
                gathered_kv (SizeOf (type' cc)) (shape' cc ! 2 * shape' cc ! 3 * shape' cc ! 4)
                  (shape' cc ! 1) beam_indices (tensor_data past) (tensor_data present))"
    by blast
next
  assume a: "wf_KV_Cache c \<and> (type' c = FLOAT \<or> type' c = FLOAT16) \<and>
          \<not> past_present_share_buffer' c \<and>
          (\<forall>x\<in>set beam_indices. 0 \<le> x \<and> x < shape' c ! 0) \<and>
          int (length beam_indices) = shape' c ! 0"
  then have len: "int (length beam_indices) \<le> shape' c ! 0" by simp
  from a have wf: "wf_KV_Cache c" and ty: "type' c = FLOAT \<or> type' c = FLOAT16"
    and share: "\<not> past_present_share_buffer' c"
    and idx: "\<forall>x\<in>set beam_indices. 0 \<le> x \<and> x < shape' c ! 0" by blast+
  from KV_Cache_Update_gather [OF wf ty share ne idx len, of current_length]
  obtain c' where r: "KV_Cache_Update c beam_indices current_length = Returns c'"
    and g: "\<And>k. k < layer_count' c * 2 \<Longrightarrow> \<exists>t p. pasts' c' ! k = Some t \<and> presents' c ! k = Some p \<and>
        address t = next_address (allocator_kvcache' (model' c)) + k \<and>
        tensor_shape t = shape' c \<and> tensor_type t = type' c \<and>
        length (tensor_data t) = length (tensor_data p) \<and>
        gathered (SizeOf (type' c)) (shape' c ! 1 * shape' c ! 2 * shape' c ! 3)
          beam_indices (tensor_data t) (tensor_data p)"
    by blast
  have "\<exists>past present.
                pasts' c' ! k = Some past \<and> presents' c ! k = Some present \<and>
                next_address (allocator_kvcache' (model' c)) \<le> address past \<and>
                tensor_shape past = shape' c \<and> tensor_type past = type' c \<and>
                length (tensor_data past) = length (tensor_data present) \<and>
                gathered (SizeOf (type' c)) (shape' c ! 1 * shape' c ! 2 * shape' c ! 3)
                  beam_indices (tensor_data past) (tensor_data present)"
    if "k < layer_count' c * 2" for k
    using g [OF that] by auto
  with r show "\<exists>c'. KV_Cache_Update c beam_indices current_length = Returns c' \<and>
             (\<forall>k<layer_count' c * 2. \<exists>past present.
                pasts' c' ! k = Some past \<and> presents' c ! k = Some present \<and>
                next_address (allocator_kvcache' (model' c)) \<le> address past \<and>
                tensor_shape past = shape' c \<and> tensor_type past = type' c \<and>
                length (tensor_data past) = length (tensor_data present) \<and>
                gathered (SizeOf (type' c)) (shape' c ! 1 * shape' c ! 2 * shape' c ! 3)
                  beam_indices (tensor_data past) (tensor_data present))"
    by blast
qed

lemma slice_4: "slice [a, b, c, d] 0 2 = [a, b]" "slice [a, b, c, d] 2 2 = [c, d]"
  by (simp_all add: slice_def)

theorem Update_beam_reorder_witness:
  "\<exists>c0 g' c c' d0 d d'.
     KV_Cache_ctor (example_state 2 False) (example_model ''llama'' FLOAT16)
        \<lparr>enabled = True, warning = True, written = []\<rparr> = Returns (c0, g') \<and>
     KV_Cache_Add c0 = Returns c \<and>
     KV_Cache_Update (with_present_data [1, 2, 3, 4] c) [1, 0] 2 = Returns c' \<and>
     (\<exists>past. pasts' c' ! 0 = Some past \<and>
        beam_row 2 1 (tensor_data past) 0 = [3, 4] \<and> beam_row 2 1 (tensor_data past) 1 = [1, 2]) \<and>
     KV_Cache_Combined_ctor (example_state 2 False) (example_model ''llama'' FLOAT16) = Returns d0 \<and>
     KV_Cache_Combined_Add d0 = Returns d \<and>
     KV_Cache_Combined_Update (with_present_data [1, 2, 3, 4, 5, 6, 7, 8] d) [1, 0] 2 = Returns d' \<and>
     (\<exists>past. pasts' d' ! 0 = Some past \<and>
        key_row 2 1 (tensor_data past) 0 = [3, 4] \<and> key_row 2 1 (tensor_data past) 1 = [1, 2] \<and>
        value_row 2 1 2 (tensor_data past) 0 = [7, 8] \<and> value_row 2 1 2 (tensor_data past) 1 = [5, 6])"
proof -
  from Split_example_cache obtain c0 g' c where
    c: "KV_Cache_ctor (example_state 2 False) (example_model ''llama'' FLOAT16)
        \<lparr>enabled = True, warning = True, written = []\<rparr> = Returns (c0, g')"
     "KV_Cache_Add c0 = Returns c" and wfc: "wf_KV_Cache c" and cf: "type' c = FLOAT16"
     "layer_count' c = 1" "shape' c = [2, 1, 1, 1]" "\<not> past_present_share_buffer' c" by blast
  from Combined_example_cache obtain d0 d where
    d: "KV_Cache_Combined_ctor (example_state 2 False) (example_model ''llama'' FLOAT16) = Returns d0"
     "KV_Cache_Combined_Add d0 = Returns d" and wfd: "wf_KV_Cache_Combined d" and df: "type' d = FLOAT16"
     "layer_count' d = 1" "shape' d = [2, 2, 1, 1, 1]" by blast
  let ?c = "with_present_data [1, 2, 3, 4] c"
  let ?d = "with_present_data [1, 2, 3, 4, 5, 6, 7, 8] d"
  have wfc': "wf_KV_Cache ?c"
    by (rule wf_KV_Cache_with_data [OF wfc]) (simp add: cf ElementCountFromShape_def)
  have wfd': "wf_KV_Cache_Combined ?d"
    by (rule wf_KV_Cache_Combined_with_data [OF wfd]) (simp add: df ElementCountFromShape_def)
  have pc: "tensor_data p = [1, 2, 3, 4]" if "presents' ?c ! 0 = Some p" for p
    by (rule present_with_data [where shape = "shape' c" and ty = "type' c", OF _ _ that])
       (use wfc cf in \<open>simp_all add: wf_KV_Cache_def\<close>)
  have pd: "tensor_data p = [1, 2, 3, 4, 5, 6, 7, 8]" if "presents' ?d ! 0 = Some p" for p
    by (rule present_with_data [where shape = "shape' d" and ty = "type' d", OF _ _ that])
       (use wfd df in \<open>simp_all add: wf_KV_Cache_Combined_def\<close>)
  have both: "(\<exists>d'. KV_Cache_Combined_Update ?d [1, 0] 2 = Returns d' \<and>
       (\<forall>k<1. \<exists>past present. pasts' d' ! k = Some past \<and> presents' ?d ! k = Some present \<and>
          gathered_kv 2 1 2 [1, 0] (tensor_data past) (tensor_data present))) \<and>
     (\<exists>c'. KV_Cache_Update ?c [1, 0] 2 = Returns c' \<and>
       (\<forall>k<2. \<exists>past present. pasts' c' ! k = Some past \<and> presents' ?c ! k = Some present \<and>
          gathered 2 1 [1, 0] (tensor_data past) (tensor_data present)))"
    using Update_beam_reorder [of "[1, 0]" ?d 2 ?c] wfc' wfd' cf df by simp blast
  then obtain c' d' where
    rc: "KV_Cache_Update ?c [1, 0] 2 = Returns c'"
    and gc: "\<forall>k<2. \<exists>past present. pasts' c' ! k = Some past \<and> presents' ?c ! k = Some present \<and>
       gathered 2 1 [1, 0] (tensor_data past) (tensor_data present)"
    and rd: "KV_Cache_Combined_Update ?d [1, 0] 2 = Returns d'"
    and gd: "\<forall>k<1. \<exists>past present. pasts' d' ! k = Some past \<and> presents' ?d ! k = Some present \<and>
       gathered_kv 2 1 2 [1, 0] (tensor_data past) (tensor_data present)"
    by blast
  from gc pc obtain past where p1: "pasts' c' ! 0 = Some past"
    "gathered 2 1 [1, 0] (tensor_data past) [1, 2, 3, 4]" by force
  from gd pd obtain pastd where p2: "pasts' d' ! 0 = Some pastd"
    "gathered_kv 2 1 2 [1, 0] (tensor_data pastd) [1, 2, 3, 4, 5, 6, 7, 8]" by force
  from p1(2) have r1: "beam_row 2 1 (tensor_data past) 0 = [3, 4]" "beam_row 2 1 (tensor_data past) 1 = [1, 2]"
    by (simp_all add: gathered_def beam_row_def slice_def upt_conv_Cons)
  from p2(2) have r2: "key_row 2 1 (tensor_data pastd) 0 = [3, 4]" "key_row 2 1 (tensor_data pastd) 1 = [1, 2]"
    "value_row 2 1 2 (tensor_data pastd) 0 = [7, 8]" "value_row 2 1 2 (tensor_data pastd) 1 = [5, 6]"
    by (simp_all add: gathered_kv_def key_row_def value_row_def beam_row_def slice_def upt_conv_Cons)
  from c d rc rd p1(1) p2(1) r1 r2 show ?thesis by blast
qed

theorem Update_beam_reorder_counterexample:
  "(case bind (KV_Cache_ctor (example_state 2 True) (example_model ''whisper'' FLOAT16)
               \<lparr>enabled = True, warning = True, written = []\<rparr>)
          (\<lambda>(c, g'). bind (KV_Cache_Add c)
          (\<lambda>c. Returns (with_present_data [1, 2, 3, 4, 5, 6, 7, 8, 9, 10, 11, 12, 13, 14, 15, 16] c))) of
     Returns c \<Rightarrow>
       wf_KV_Cache c \<and> type' c = FLOAT16 \<and> shape' c = [2, 1, 4, 1] \<and>
       (case KV_Cache_Update c [1, 0] 2 of
          Returns c' \<Rightarrow> pasts' c' = [None, None] \<and> presents' c' = presents' c \<and>
            inputs' (state' c') = outputs' (state' c')
        | _ \<Rightarrow> False)
   | _ \<Rightarrow> False) \<and>
   (case bind (KV_Cache_ctor (example_state 2 False) (example_model ''llama'' INT32)
               \<lparr>enabled = True, warning = True, written = []\<rparr>)
          (\<lambda>(c, g'). bind (KV_Cache_Add c)
          (\<lambda>c. Returns (with_present_data [1, 2, 3, 4, 5, 6, 7, 8] c))) of
     Returns c \<Rightarrow>
       wf_KV_Cache c \<and> type' c = INT32 \<and> shape' c = [2, 1, 1, 1] \<and>
       \<not> past_present_share_buffer' c \<and>
       (case KV_Cache_Update c [1, 0] 2 of
          Returns c' \<Rightarrow>
            map (map_option tensor_data) (pasts' c') = [Some [3, 4, 1, 2], Some [3, 4, 1, 2]]
        | _ \<Rightarrow> False)
   | _ \<Rightarrow> False)"
  by (simp add: KV_Cache_ctor_def KV_Cache_Add_def KV_Cache_Update_def with_present_data_def
      PickPastState_def PickPastState_T_def subspan_ok_def copy_def store_def slice_def
      example_defs run_defs split_beta memset_def
      CreateTensor_def ElementCountFromShape_def get_def wf_defs numeral_2_eq_2)
subsection \<open>The identity beam-index list and the empty one\<close>












subsection \<open>The declared element type\<close>

lemma SizeOf_pos: "0 < SizeOf ty"
  by (cases ty) simp_all

lemma for_each_returns_iff:
  assumes "\<And>i s. i \<in> set xs \<Longrightarrow> returns (f i s) \<longleftrightarrow> P i"
  shows "returns (for_each xs f s) \<longleftrightarrow> (\<forall>i\<in>set xs. P i)"
  using assms
proof (induction xs arbitrary: s)
  case Nil
  show ?case by simp
next
  case (Cons x xs)
  have step: "returns (f x s) \<longleftrightarrow> P x" using Cons.prems by simp
  have rest: "returns (for_each xs f s') \<longleftrightarrow> (\<forall>i\<in>set xs. P i)" for s'
    using Cons.IH Cons.prems by simp
  show ?case
  proof (cases "f x s")
    case (Returns s')
    with step rest [of s'] show ?thesis by simp
  qed (use step in \<open>simp_all\<close>)
qed

lemma memset_returns_nat:
  assumes w: "0 < w"
  shows "returns (memset (map g [0..<w * n]) (int w * k)) \<longleftrightarrow> 0 \<le> k \<and> k \<le> int n"
proof -
  have pos: "0 < int w" using w by simp
  have 1: "int w * k \<le> int w * int n \<longleftrightarrow> k \<le> int n"
    using pos by (simp only: mult_le_cancel_left_pos)
  have 2: "0 \<le> int w * k \<longleftrightarrow> 0 \<le> k"
    using pos by (simp add: zero_le_mult_iff)
  have "returns (memset (map g [0..<w * n]) (int w * k)) \<longleftrightarrow>
      0 \<le> int w * k \<and> int w * k \<le> int w * int n"
    by (simp add: memset_def)
  with 1 2 show ?thesis by simp
qed

lemma memset_returns:
  "returns (memset (map g [0..<SizeOf ty * nat E]) (int (SizeOf ty) * k)) \<longleftrightarrow> 0 \<le> k \<and> k \<le> int (nat E)"
  by (rule memset_returns_nat [OF SizeOf_pos])

lemma returns_bind_total:
  assumes "\<And>x. returns (f x)"
  shows "returns (bind m f) \<longleftrightarrow> returns m"
  using assms by (cases m) simp_all

lemma returns_pair: "returns m \<longleftrightarrow> (\<exists>a b. m = Returns (a, b))"
  by (simp add: returns_iff)

lemma split_presents_returns:
  "returns (for_each [0..<n]
              (\<lambda>i (presents, a).
                 bind (if sb = [] then Returns (CreateTensor a shape2 ty)
                       else bind (at sb i) (\<lambda>b. Returns (CreateTensorOnStaticBuffer a b shape2 ty, a)))
                   (\<lambda>(t, a').
                 bind (memset (tensor_data t) (int (SizeOf ty) * k)) (\<lambda>zeroed.
                 Returns (presents @ [Some (t\<lparr>tensor_data := zeroed\<rparr>)], a'))))
              s0) \<longleftrightarrow>
   (\<forall>i\<in>set [0..<n]. (sb = [] \<or> i < length sb) \<and> 0 \<le> k \<and> k \<le> int (nat (ElementCountFromShape shape2)))"
proof (rule for_each_returns_iff)
  fix i and s :: "OrtValue option list \<times> Allocator"
  show "returns (case s of (presents, a) \<Rightarrow>
                 bind (if sb = [] then Returns (CreateTensor a shape2 ty)
                       else bind (at sb i) (\<lambda>b. Returns (CreateTensorOnStaticBuffer a b shape2 ty, a)))
                   (\<lambda>(t, a').
                 bind (memset (tensor_data t) (int (SizeOf ty) * k)) (\<lambda>zeroed.
                 Returns (presents @ [Some (t\<lparr>tensor_data := zeroed\<rparr>)], a')))) \<longleftrightarrow>
        (sb = [] \<or> i < length sb) \<and> 0 \<le> k \<and> k \<le> int (nat (ElementCountFromShape shape2))"
  proof (cases "sb = []")
    case True
    then show ?thesis
      by (simp only: split_beta if_True bind.simps returns_bind_total returns_simps fst_conv snd_conv
          CreateTensor_def OrtValue.simps memset_returns simp_thms)
  next
    case False
    show ?thesis
    proof (cases "i < length sb")
      case True
      with False show ?thesis
        by (simp only: split_beta if_False if_True at_def bind.simps returns_bind_total returns_simps
            fst_conv snd_conv CreateTensorOnStaticBuffer_def OrtValue.simps memset_returns simp_thms)
    next
      case oob: False
      with False show ?thesis by (simp add: split_beta at_def)
    qed
  qed
qed

lemma split_presents_Returns_iff:
  "(\<exists>p a'. for_each [0..<n]
              (\<lambda>i (presents, a).
                 bind (if sb = [] then Returns (CreateTensor a shape2 ty)
                       else bind (at sb i) (\<lambda>b. Returns (CreateTensorOnStaticBuffer a b shape2 ty, a)))
                   (\<lambda>(t, a').
                 bind (memset (tensor_data t) (int (SizeOf ty) * k)) (\<lambda>zeroed.
                 Returns (presents @ [Some (t\<lparr>tensor_data := zeroed\<rparr>)], a'))))
              s0 = Returns (p, a')) \<longleftrightarrow>
   (\<forall>i\<in>set [0..<n]. (sb = [] \<or> i < length sb) \<and> 0 \<le> k \<and> k \<le> int (nat (ElementCountFromShape shape2)))"
  using split_presents_returns [of n sb shape2 ty k s0] by (simp only: returns_pair)

lemma combined_presents_returns: "\<exists>p a'. create_presents n shape ty a = Returns (p, a')"
proof -
  have "returns (create_presents n shape ty a) \<longleftrightarrow> (\<forall>i\<in>set [0..<n]. True)"
    unfolding create_presents_def
    by (rule for_each_returns_iff) (simp add: split_beta)
  then show ?thesis by (simp add: returns_pair)
qed

lemma KV_Cache_Combined_ctor_type_free:
  "returns (KV_Cache_Combined_ctor state (model\<lparr>session_info' := (session_info' model)(name \<mapsto> ty)\<rparr>)) \<longleftrightarrow>
   returns (KV_Cache_Combined_ctor state (model\<lparr>session_info' := (session_info' model)(name \<mapsto> ty')\<rparr>))"
  unfolding KV_Cache_Combined_ctor_def Let_def
  by (simp add: returns_bind split_beta GetInputDataType_def combined_presents_returns
      cong: option.case_cong if_cong)

lemma KV_Cache_ctor_type_free:
  "returns (KV_Cache_ctor state (model\<lparr>session_info' := (session_info' model)(name \<mapsto> ty)\<rparr>) g) \<longleftrightarrow>
   returns (KV_Cache_ctor state (model\<lparr>session_info' := (session_info' model)(name \<mapsto> ty')\<rparr>) g)"
  unfolding KV_Cache_ctor_def Let_def
  by (simp add: returns_bind split_beta GetInputDataType_def split_presents_Returns_iff
      mult.assoc
      cong: option.case_cong if_cong)

lemma PickPastState_T_no_exception:
  "PickPastState_T w ty c bis i \<noteq> Throws e" "PickPastState_T w ty c bis i \<noteq> AssertFails"
  using PickPastState_loop_outcome [of w "shape' c ! 1 * shape' c ! 2 * shape' c ! 3"
      "shape' c ! 0 * (shape' c ! 1 * shape' c ! 2 * shape' c ! 3)"
      "tensor_data (the (presents' c ! i))" bis 0
      "tensor_data (fst (CreateTensor (allocator_kvcache' (model' c)) (shape' c) ty))"]
  by (auto simp: PickPastState_T_def Let_def at_def deref_def put_def split_beta
      split: option.splits if_splits)

lemma PickPastState_T_Combined_no_exception:
  "PickPastState_T_Combined w ty c bis i \<noteq> Throws e" "PickPastState_T_Combined w ty c bis i \<noteq> AssertFails"
  using PickPastState_loop_Combined_outcome [of w "shape' c ! 2 * shape' c ! 3 * shape' c ! 4"
      "shape' c ! 1 * (shape' c ! 2 * shape' c ! 3 * shape' c ! 4)"
      "shape' c ! 0 * (shape' c ! 1 * (shape' c ! 2 * shape' c ! 3 * shape' c ! 4))"
      "tensor_data (the (presents' c ! i))" bis 0
      "tensor_data (fst (CreateTensor (allocator_kvcache' (model' c)) (shape' c) ty))"]
  by (auto simp: PickPastState_T_Combined_def Let_def at_def deref_def put_def split_beta
      split: option.splits if_splits)

lemma example_redeclared:
  "returns (KV_Cache_Combined_ctor (example_state 2 False)
     (with_input_type (example_model ''llama'' FLOAT16) ''past_0'' FLOAT16))"
  "returns (KV_Cache_ctor (example_state 2 False)
     (with_input_type (example_model ''llama'' FLOAT16) ''past_key_values.0.key'' FLOAT16)
     \<lparr>enabled = True, warning = True, written = []\<rparr>)"
  by (simp_all add: KV_Cache_Combined_ctor_def KV_Cache_ctor_def with_input_type_def example_defs run_defs
      split_beta memset_def create_presents_def CreateTensor_def ElementCountFromShape_def returns_bind)

lemma example_session_type:
  "GetInputDataType (session_info' (example_model family ty)) name = Returns ty' \<Longrightarrow> ty' = ty"
  by (simp add: example_defs GetInputDataType_def split: if_splits)

text \<open>
  C7 (as amended). The constructors of the Combined and of the Split cache do not look at the
  declared element type: whether they return is the same for every type the session declares
  for an input, and the cache they return records the type declared for its first input. The
  gather has two instances: a cache of type \<open>FLOAT\<close> is gathered as 4-byte \<open>float\<close> elements,
  and a cache of any other type as 2-byte half-precision elements; for no type does it throw.
\<close>

theorem cache_element_type_unchecked:
  fixes c d :: KV_Cache and cc dd :: KV_Cache_Combined
  shows
  "(returns (KV_Cache_Combined_ctor state (with_input_type model name ty)) \<longleftrightarrow>
    returns (KV_Cache_Combined_ctor state (with_input_type model name ty'))) \<and>
   (returns (KV_Cache_ctor state (with_input_type model name ty) g) \<longleftrightarrow>
    returns (KV_Cache_ctor state (with_input_type model name ty') g)) \<and>
   (KV_Cache_Combined_ctor state model = Returns cc \<longrightarrow>
      GetInputDataType (session_info' model) (input_name_strings' cc ! 0) = Returns (type' cc)) \<and>
   (KV_Cache_ctor state model g = Returns (c, g') \<longrightarrow>
      GetInputDataType (session_info' model) (input_name_strings' c ! 0) = Returns (type' c)) \<and>
   PickPastState_Combined dd beam_indices index =
     PickPastState_T_Combined (if type' dd = FLOAT then 4 else 2)
       (if type' dd = FLOAT then FLOAT else FLOAT16) dd beam_indices index \<and>
   PickPastState d beam_indices index =
     PickPastState_T (if type' d = FLOAT then 4 else 2)
       (if type' d = FLOAT then FLOAT else FLOAT16) d beam_indices index \<and>
   (\<forall>e. PickPastState_Combined dd beam_indices index \<noteq> Throws e) \<and>
   (\<forall>e. PickPastState d beam_indices index \<noteq> Throws e)"
proof -
  have 1: "returns (KV_Cache_Combined_ctor state (with_input_type model name ty)) \<longleftrightarrow>
    returns (KV_Cache_Combined_ctor state (with_input_type model name ty'))"
    unfolding with_input_type_def by (rule KV_Cache_Combined_ctor_type_free)
  have 2: "returns (KV_Cache_ctor state (with_input_type model name ty) g) \<longleftrightarrow>
    returns (KV_Cache_ctor state (with_input_type model name ty') g)"
    unfolding with_input_type_def by (rule KV_Cache_ctor_type_free)
  have 3: "GetInputDataType (session_info' model) (input_name_strings' cc ! 0) = Returns (type' cc)"
    if "KV_Cache_Combined_ctor state model = Returns cc"
    using KV_Cache_Combined_ctor_Returns [OF that] by auto
  have 4: "GetInputDataType (session_info' model) (input_name_strings' c ! 0) = Returns (type' c)"
    if "KV_Cache_ctor state model g = Returns (c, g')"
    using KV_Cache_ctor_names [OF that] by auto
  have 5: "PickPastState_Combined dd beam_indices index =
     PickPastState_T_Combined (if type' dd = FLOAT then 4 else 2)
       (if type' dd = FLOAT then FLOAT else FLOAT16) dd beam_indices index"
    by (simp add: PickPastState_Combined_def)
  have 6: "PickPastState d beam_indices index =
     PickPastState_T (if type' d = FLOAT then 4 else 2)
       (if type' d = FLOAT then FLOAT else FLOAT16) d beam_indices index"
    by (simp add: PickPastState_def)
  have 7: "\<forall>e. PickPastState_Combined dd beam_indices index \<noteq> Throws e"
    unfolding 5 by (simp add: PickPastState_T_Combined_no_exception)
  have 8: "\<forall>e. PickPastState d beam_indices index \<noteq> Throws e"
    unfolding 6 by (simp add: PickPastState_T_no_exception)
  from 1 2 3 4 5 6 7 8 show ?thesis by blast
qed

theorem cache_element_type_unchecked_witness:
  "returns (KV_Cache_Combined_ctor (example_state 2 False)
     (with_input_type (example_model ''llama'' FLOAT16) ''past_0'' UINT8)) \<and>
   returns (KV_Cache_ctor (example_state 2 False)
     (with_input_type (example_model ''llama'' FLOAT16) ''past_key_values.0.key'' INT32)
     \<lparr>enabled = True, warning = True, written = []\<rparr>) \<and>
   (\<exists>cc. KV_Cache_Combined_ctor (example_state 2 False) (example_model ''llama'' FLOAT16) = Returns cc \<and>
      type' cc = FLOAT16) \<and>
   (\<exists>c g'. KV_Cache_ctor (example_state 2 False) (example_model ''llama'' FLOAT16)
        \<lparr>enabled = True, warning = True, written = []\<rparr> = Returns (c, g') \<and> type' c = FLOAT16)"
proof -
  let ?g = "\<lparr>enabled = True, warning = True, written = []\<rparr>"
  from Combined_example_cache obtain cc where
    cc: "KV_Cache_Combined_ctor (example_state 2 False) (example_model ''llama'' FLOAT16) = Returns cc"
    by blast
  from Split_example_cache obtain c g' where
    c: "KV_Cache_ctor (example_state 2 False) (example_model ''llama'' FLOAT16) ?g = Returns (c, g')"
    by blast
  note t1 = cache_element_type_unchecked [of "example_state 2 False" "example_model ''llama'' FLOAT16"
      "''past_0''" FLOAT16 UINT8 ?g cc c g']
  note t2 = cache_element_type_unchecked [of "example_state 2 False" "example_model ''llama'' FLOAT16"
      "''past_key_values.0.key''" FLOAT16 INT32 ?g cc c g']
  from t1 example_redeclared(1) have a: "returns (KV_Cache_Combined_ctor (example_state 2 False)
     (with_input_type (example_model ''llama'' FLOAT16) ''past_0'' UINT8))" by blast
  from t2 example_redeclared(2) have b: "returns (KV_Cache_ctor (example_state 2 False)
     (with_input_type (example_model ''llama'' FLOAT16) ''past_key_values.0.key'' INT32) ?g)" by blast
  from t1 cc have "type' cc = FLOAT16" by (blast dest: example_session_type)
  moreover from t1 c have "type' c = FLOAT16" by (blast dest: example_session_type)
  ultimately show ?thesis using a b cc c by blast
qed

theorem cache_element_type_unchecked_counterexample:
  "(case KV_Cache_Combined_ctor (example_state 2 False) (example_model ''llama'' UINT8) of
      Returns c \<Rightarrow> type' c = UINT8
    | _ \<Rightarrow> False) \<and>
   (case KV_Cache_ctor (example_state 2 False) (example_model ''llama'' INT32)
           \<lparr>enabled = True, warning = True, written = []\<rparr> of
      Returns (c, g') \<Rightarrow> type' c = INT32
    | _ \<Rightarrow> False) \<and>
   bind (KV_Cache_Combined_ctor (example_state 2 False) (example_model ''llama'' UINT8))
     (\<lambda>c. bind (KV_Cache_Combined_Add c) (\<lambda>c. KV_Cache_Combined_Update c [1, 0] 2)) = UndefinedBehaviour"
  by (simp add: KV_Cache_Combined_ctor_def KV_Cache_ctor_def KV_Cache_Combined_Add_def
      KV_Cache_Combined_Update_def PickPastState_Combined_def PickPastState_T_Combined_def
      subspan_ok_def copy_def store_def slice_def
      example_defs run_defs split_beta memset_def create_presents_def
      CreateTensor_def ElementCountFromShape_def get_def)
subsection \<open>The collapse of the sliding window\<close>

lemma SlidingWindowKeyValueCache_Update_collapse:
  assumes "window_size' c \<noteq> 1"
  shows "SlidingWindowKeyValueCache_Update c beam_indices current_length =
     bind (for_each [0..<sw_layer_count' c]
             (collapse_layer
                [num_key_value_heads (config' (sw_model' c)), 1, head_size (config' (sw_model' c)),
                 context_length (config' (sw_model' c)) - 1]
                [num_key_value_heads (config' (sw_model' c)), 1,
                 context_length (config' (sw_model' c)) - 1, head_size (config' (sw_model' c))]
                [num_key_value_heads (config' (sw_model' c)), 1, head_size (config' (sw_model' c)), 1]
                [num_key_value_heads (config' (sw_model' c)), 1, 1, head_size (config' (sw_model' c))])
             c)
       (\<lambda>c1. for_each [0..<sw_layer_count' c1] rebind_slots
          (c1\<lparr>window_size' := 1,
              key_cache_shape_in' :=
                [num_key_value_heads (config' (sw_model' c)), 1, head_size (config' (sw_model' c)),
                 context_length (config' (sw_model' c)) - 1],
              value_cache_shape_in' :=
                [num_key_value_heads (config' (sw_model' c)), 1,
                 context_length (config' (sw_model' c)) - 1, head_size (config' (sw_model' c))],
              key_cache_shape_out' :=
                [num_key_value_heads (config' (sw_model' c)), 1, head_size (config' (sw_model' c)), 1],
              value_cache_shape_out' :=
                [num_key_value_heads (config' (sw_model' c)), 1, 1, head_size (config' (sw_model' c))]\<rparr>))"
  using assms
  unfolding SlidingWindowKeyValueCache_Update_def Let_def
  by (simp add: collapse_layer_def [abs_def] rebind_slots_def [abs_def]
      concat_key_rows_def concat_value_rows_def)

lemma for_each_map: "for_each (map g xs) body s = for_each xs (\<lambda>i. body (g i)) s"
proof (induction xs arbitrary: s)
  case Nil
  show ?case by simp
next
  case (Cons x xs)
  show ?case by (cases "body (g x) s") (simp_all add: Cons.IH)
qed

lemma for_each_cong:
  assumes "\<And>i s. i \<in> set xs \<Longrightarrow> f i s = g i s"
  shows "for_each xs f s = for_each xs g s"
  using assms
proof (induction xs arbitrary: s)
  case Nil
  show ?case by simp
next
  case (Cons x xs)
  have "f x s = g x s" using Cons.prems by simp
  moreover have "for_each xs f s' = for_each xs g s'" for s'
    using Cons.IH Cons.prems by simp
  ultimately show ?case by (cases "g x s") simp_all
qed

lemma std_copy_nat:
  "std_copy src (int so) (int sn) dst (int dof) (int dn) =
     (if so + sn \<le> length src \<and> dof + dn \<le> length dst \<and> dof + sn \<le> length dst
      then Returns (store dst dof (slice src so sn)) else UndefinedBehaviour)"
  by (simp add: std_copy_def span_ok_def flip: of_nat_add)

lemma rows_fit: "j < r \<Longrightarrow> j * m + m \<le> r * (m :: nat)"
  using mult_le_mono1 [of "Suc j" r m] by simp

lemma concat_key_rows_nat:
  fixes ki w r k n dn :: nat
  assumes ki: "ki = Suc k" and n: "n = k + w" and dn: "Suc dn = n"
    and lin: "length key_in = r * ki" and lout: "length key_out = r * w"
    and l0: "length d0 = r * n"
  shows "\<exists>d. for_each [0..<r]
           (\<lambda>j d. bind (std_copy key_in (int (j * ki + 1)) (int k) d (int (j * n)) (int dn))
                    (\<lambda>d. std_copy key_out (int (j * w)) (int w) d (int (j * n + k)) (int w)))
           d0 = Returns d \<and>
         length d = length d0 \<and>
         (\<forall>j<r. slice d (j * n + k) w = slice key_out (j * w) w)"
proof -
  let ?I = "\<lambda>j (d :: byte list). length d = r * n \<and>
     (\<forall>j'<j. slice d (j' * n + k) w = slice key_out (j' * w) w)"
  have "\<exists>d. for_each [0..<r]
           (\<lambda>j d. bind (std_copy key_in (int (j * ki + 1)) (int k) d (int (j * n)) (int dn))
                    (\<lambda>d. std_copy key_out (int (j * w)) (int w) d (int (j * n + k)) (int w)))
           d0 = Returns d \<and> ?I r d"
  proof (rule for_each_upt_rule [where I = ?I])
    show "?I 0 d0" using l0 by simp
  next
    fix j and d :: "byte list"
    assume j: "j < r" and I: "?I j d"
    from I have ld: "length d = r * n" by simp
    have f1: "j * ki + ki \<le> r * ki" and f2: "j * n + n \<le> r * n" and f3: "j * w + w \<le> r * w"
      using j by (simp_all only: rows_fit)
    let ?d1 = "store d (j * n) (slice key_in (j * ki + 1) k)"
    let ?d2 = "store ?d1 (j * n + k) (slice key_out (j * w) w)"
    have s1: "length (slice key_in (j * ki + 1) k) = k"
      by (rule length_slice) (use f1 lin ki in linarith)
    have s2: "length (slice key_out (j * w) w) = w"
      by (rule length_slice) (use f3 lout in linarith)
    have l1: "length ?d1 = length d"
      by (rule length_store) (use s1 f2 ld n in linarith)
    have l2: "length ?d2 = length ?d1"
      by (rule length_store) (use s2 l1 f2 ld n in linarith)
    have "j * ki + 1 + k \<le> length key_in" "j * n + dn \<le> length d" "j * n + k \<le> length d"
      using f1 f2 lin ld ki n dn by linarith+
    then have c1: "std_copy key_in (int (j * ki + 1)) (int k) d (int (j * n)) (int dn) = Returns ?d1"
      unfolding std_copy_nat by simp
    have "j * w + w \<le> length key_out" "j * n + k + w \<le> length ?d1"
      using f3 f2 lout l1 ld n by linarith+
    then have c2: "std_copy key_out (int (j * w)) (int w) ?d1 (int (j * n + k)) (int w) = Returns ?d2"
      unfolding std_copy_nat by simp
    have "j * n + k + length (slice key_out (j * w) w) \<le> length ?d1"
      using s2 l1 ld f2 n by linarith
    from slice_store_same [OF this] s2
    have same: "slice ?d2 (j * n + k) w = slice key_out (j * w) w" by simp
    have other: "slice ?d2 (j' * n + k) w = slice d (j' * n + k) w" if "j' < j" for j'
    proof -
      have "j' * n + n \<le> j * n" using that by (rule rows_fit)
      then have le: "j' * n + k + w \<le> j * n" using n by linarith
      have "slice ?d2 (j' * n + k) w = slice ?d1 (j' * n + k) w"
      proof (rule slice_store_other)
        show "j * n + k + length (slice key_out (j * w) w) \<le> length ?d1"
          using s2 l1 ld f2 n by linarith
        show "j' * n + k + w \<le> j * n + k \<or>
            j * n + k + length (slice key_out (j * w) w) \<le> j' * n + k"
          using le by linarith
      qed
      also have "\<dots> = slice d (j' * n + k) w"
      proof (rule slice_store_other)
        show "j * n + length (slice key_in (j * ki + 1) k) \<le> length d"
          using s1 ld f2 n by linarith
        show "j' * n + k + w \<le> j * n \<or> j * n + length (slice key_in (j * ki + 1) k) \<le> j' * n + k"
          using le by linarith
      qed
      finally show ?thesis .
    qed
    have "?I (Suc j) ?d2"
      using I l1 l2 same other by (auto simp: less_Suc_eq)
    with c1 c2 show "\<exists>t'. bind (std_copy key_in (int (j * ki + 1)) (int k) d (int (j * n)) (int dn))
                    (\<lambda>d. std_copy key_out (int (j * w)) (int w) d (int (j * n + k)) (int w))
                  = Returns t' \<and> ?I (Suc j) t'"
      by simp
  qed
  with l0 show ?thesis by auto
qed

lemma concat_key_rows_spec:
  fixes K3 W UK3 chunks :: int
  assumes K3: "1 \<le> K3" and W: "1 \<le> W" and UK3: "UK3 = K3 + W - 1" and ch: "0 \<le> chunks"
    and lin: "int (length key_in) = chunks * K3" and lout: "int (length key_out) = chunks * W"
    and l0: "int (length d0) = chunks * UK3"
  shows "\<exists>d. concat_key_rows chunks K3 W UK3 W key_in key_out d0 = Returns d \<and>
     length d = length d0 \<and> key_tails chunks UK3 W d key_out"
proof -
  define r where "r = nat chunks"
  define k where "k = nat (K3 - 1)"
  define w where "w = nat W"
  define n where "n = k + w"
  define dn where "dn = n - 1"
  have e: "chunks = int r" "K3 = int (Suc k)" "W = int w" "UK3 = int n" "Suc dn = n"
    using K3 W UK3 ch by (simp_all add: r_def k_def w_def n_def dn_def)
  have lens: "length key_in = r * Suc k" "length key_out = r * w" "length d0 = r * n"
    using lin lout l0 unfolding e by (simp_all only: of_nat_mult [symmetric] of_nat_eq_iff)
  from concat_key_rows_nat [OF refl n_def e(5) lens]
  obtain d where run: "for_each [0..<r]
           (\<lambda>j d. bind (std_copy key_in (int (j * Suc k + 1)) (int k) d (int (j * n)) (int dn))
                    (\<lambda>d. std_copy key_out (int (j * w)) (int w) d (int (j * n + k)) (int w)))
           d0 = Returns d"
    and ld: "length d = length d0"
    and tails: "\<And>j. j < r \<Longrightarrow> slice d (j * n + k) w = slice key_out (j * w) w"
    by blast
  have dn: "int n - 1 = int dn" using e(5) by linarith
  have "concat_key_rows chunks K3 W UK3 W key_in key_out d0 =
      for_each [0..<r]
           (\<lambda>j d. bind (std_copy key_in (int (j * Suc k + 1)) (int k) d (int (j * n)) (int dn))
                    (\<lambda>d. std_copy key_out (int (j * w)) (int w) d (int (j * n + k)) (int w)))
           d0"
    unfolding concat_key_rows_def for_each_map e nat_int
    by (rule for_each_cong) (simp add: dn algebra_simps)
  with run have 1: "concat_key_rows chunks K3 W UK3 W key_in key_out d0 = Returns d" by simp
  have "cache_row_tail UK3 W d (int j) = cache_row W key_out (int j)" if "j < r" for j
  proof -
    have "int j * int n + (int n - int w) = int (j * n + k)" by (simp add: n_def)
    then have "nat (int j * int n + (int n - int w)) = j * n + k" by (simp only: nat_int)
    moreover have "nat (int j * int w) = j * w" by (simp only: of_nat_mult [symmetric] nat_int)
    ultimately show ?thesis
      using tails [OF that] unfolding cache_row_tail_def cache_row_def e by simp
  qed
  then have "key_tails chunks UK3 W d key_out"
    by (simp add: key_tails_def list_all_iff r_def)
  with 1 ld show ?thesis by blast
qed

lemma concat_value_rows_nat:
  fixes h a b m mi D :: nat
  assumes m: "m = a + b" and mi: "mi = D + a"
    and lin: "length value_in = h * mi" and lout: "length value_out = h * b"
    and l0: "length d0 = h * m"
    and fit: "\<And>j. j < h \<Longrightarrow> j * b + D + a \<le> h * mi"
  shows "\<exists>d. for_each [0..<h]
           (\<lambda>j d. bind (std_copy value_in (int (j * b + D)) (int a) d (int (j * m)) (int a))
                    (\<lambda>d. std_copy value_out (int (j * b)) (int b) d (int (j * m + a)) (int b)))
           d0 = Returns d \<and>
         length d = length d0"
proof -
  let ?I = "\<lambda>(j :: nat) (d :: byte list). length d = h * m"
  have "\<exists>d. for_each [0..<h]
           (\<lambda>j d. bind (std_copy value_in (int (j * b + D)) (int a) d (int (j * m)) (int a))
                    (\<lambda>d. std_copy value_out (int (j * b)) (int b) d (int (j * m + a)) (int b)))
           d0 = Returns d \<and> ?I h d"
  proof (rule for_each_upt_rule [where I = ?I])
    show "?I 0 d0" using l0 by simp
  next
    fix j and d :: "byte list"
    assume j: "j < h" and ld: "?I j d"
    have f2: "j * m + m \<le> h * m" and f3: "j * b + b \<le> h * b"
      using j by (simp_all only: rows_fit)
    note f1 = fit [OF j]
    let ?d1 = "store d (j * m) (slice value_in (j * b + D) a)"
    let ?d2 = "store ?d1 (j * m + a) (slice value_out (j * b) b)"
    have s1: "length (slice value_in (j * b + D) a) = a"
      by (rule length_slice) (use f1 lin in linarith)
    have s2: "length (slice value_out (j * b) b) = b"
      by (rule length_slice) (use f3 lout in linarith)
    have l1: "length ?d1 = length d"
      by (rule length_store) (use s1 f2 ld m in linarith)
    have l2: "length ?d2 = length ?d1"
      by (rule length_store) (use s2 l1 f2 ld m in linarith)
    have "j * b + D + a \<le> length value_in" "j * m + a \<le> length d"
      using f1 f2 lin ld m by linarith+
    then have c1: "std_copy value_in (int (j * b + D)) (int a) d (int (j * m)) (int a) = Returns ?d1"
      unfolding std_copy_nat by simp
    have "j * b + b \<le> length value_out" "j * m + a + b \<le> length ?d1"
      using f3 f2 lout l1 ld m by linarith+
    then have c2: "std_copy value_out (int (j * b)) (int b) ?d1 (int (j * m + a)) (int b) = Returns ?d2"
      unfolding std_copy_nat by simp
    from c1 c2 l1 l2 ld
    show "\<exists>t'. bind (std_copy value_in (int (j * b + D)) (int a) d (int (j * m)) (int a))
                    (\<lambda>d. std_copy value_out (int (j * b)) (int b) d (int (j * m + a)) (int b))
                 = Returns t' \<and> ?I (Suc j) t'"
      by simp
  qed
  with l0 show ?thesis by auto
qed

lemma concat_value_rows_spec:
  fixes heads V2 D UV2 W :: int
  assumes V2: "1 \<le> V2" and W: "1 \<le> W" and UV2: "UV2 = V2 + W - 1" and h: "0 \<le> heads"
    and D: "0 \<le> D"
    and fit: "heads \<le> 1 \<or> D = 0 \<or> W \<le> V2"
    and lin: "int (length value_in) = heads * (V2 * D)" and lout: "int (length value_out) = heads * (W * D)"
    and l0: "int (length d0) = heads * (UV2 * D)"
  shows "\<exists>d. concat_value_rows heads V2 D W D UV2 D W value_in value_out d0 = Returns d \<and>
     length d = length d0"
proof -
  define r where "r = nat heads"
  define k where "k = nat (V2 - 1)"
  define w where "w = nat W"
  define dd where "dd = nat D"
  define a where "a = k * dd"
  define b where "b = w * dd"
  define m where "m = a + b"
  define mi where "mi = dd + a"
  have e: "heads = int r" "V2 = int (Suc k)" "W = int w" "UV2 = int (k + w)" "D = int dd"
    using V2 W UV2 h D by (simp_all add: r_def k_def w_def dd_def)
  have mi': "mi = Suc k * dd" and m': "m = (k + w) * dd"
    by (simp_all add: mi_def m_def a_def b_def algebra_simps)
  have lens: "length value_in = r * mi" "length value_out = r * b" "length d0 = r * m"
    using lin lout l0 unfolding e mi' m' b_def
    by (simp_all only: of_nat_mult [symmetric] of_nat_eq_iff)
  have fit': "j * b + dd + a \<le> r * mi" if j: "j < r" for j
  proof -
    from fit have "r \<le> 1 \<or> dd = 0 \<or> w \<le> Suc k"
      unfolding e by simp linarith
    then consider "r \<le> 1" | "dd = 0" | "w \<le> Suc k" by blast
    then show ?thesis
    proof cases
      case 1
      with j have "j = 0" "r = 1" by simp_all
      then show ?thesis by (simp add: mi_def)
    next
      case 2
      then show ?thesis by (simp add: a_def b_def)
    next
      case 3
      then have "b \<le> mi" unfolding b_def mi' by (rule mult_le_mono1)
      then have 1: "j * b \<le> j * mi" by (rule mult_le_mono2)
      have 2: "j * mi + mi \<le> r * mi" using j by (rule rows_fit)
      have "j * b + dd + a = j * b + mi" by (simp add: mi_def)
      with 1 2 show ?thesis by linarith
    qed
  qed
  from concat_value_rows_nat [OF m_def mi_def lens fit']
  obtain d where run: "for_each [0..<r]
           (\<lambda>j d. bind (std_copy value_in (int (j * b + dd)) (int a) d (int (j * m)) (int a))
                    (\<lambda>d. std_copy value_out (int (j * b)) (int b) d (int (j * m + a)) (int b)))
           d0 = Returns d"
    and ld: "length d = length d0"
    by blast
  have "concat_value_rows heads V2 D W D UV2 D W value_in value_out d0 =
      for_each [0..<r]
           (\<lambda>j d. bind (std_copy value_in (int (j * b + dd)) (int a) d (int (j * m)) (int a))
                    (\<lambda>d. std_copy value_out (int (j * b)) (int b) d (int (j * m + a)) (int b)))
           d0"
    unfolding concat_value_rows_def for_each_map e nat_int
    by (rule for_each_cong) (simp add: a_def b_def m_def algebra_simps)
  with run ld show ?thesis by simp
qed

lemma CreateTensor_fst [simp]:
  "tensor_shape (fst (CreateTensor a shape ty)) = shape"
  "tensor_type (fst (CreateTensor a shape ty)) = ty"
  "length (tensor_data (fst (CreateTensor a shape ty))) = SizeOf ty * nat (ElementCountFromShape shape)"
  by (simp_all add: CreateTensor_def)

lemma ElementCount_4': "ElementCountFromShape [a, b, c, d] = a * b * c * d"
  by (simp add: ElementCountFromShape_def)

lemma tensor_okD:
  assumes "tensor_ok shape ty p"
  obtains t where "p = Some t" "tensor_shape t = shape" "tensor_type t = ty"
    "length (tensor_data t) = SizeOf ty * nat (ElementCountFromShape shape)"
  using assms by (auto simp: tensor_ok_def split: option.splits)

lemma collapse_layer_Returns:
  fixes H D C W :: int
  assumes H: "0 \<le> H" and D: "0 \<le> D" and W: "1 \<le> W" "W < C"
    and fit: "H \<le> 1 \<or> D = 0 \<or> 2 * W \<le> C"
    and ty: "sw_type' u = UINT8" and win: "window_size' u = W"
    and shapes: "key_cache_shape_in' u = [H, 1, D, C - W]" "key_cache_shape_out' u = [H, 1, D, W]"
      "value_cache_shape_in' u = [H, 1, C - W, D]" "value_cache_shape_out' u = [H, 1, W, D]"
    and i: "i < length (key_caches_in' u)" "i < length (key_caches_out' u)"
      "i < length (value_caches_in' u)" "i < length (value_caches_out' u)"
    and kin: "tensor_ok [H, 1, D, C - W] UINT8 (key_caches_in' u ! i)"
    and kout: "tensor_ok [H, 1, D, W] UINT8 (key_caches_out' u ! i)"
    and vin: "tensor_ok [H, 1, C - W, D] UINT8 (value_caches_in' u ! i)"
    and vout: "tensor_ok [H, 1, W, D] UINT8 (value_caches_out' u ! i)"
  shows "\<exists>u' kc ko nko nvi nvo.
     collapse_layer [H, 1, D, C - 1] [H, 1, C - 1, D] [H, 1, D, 1] [H, 1, 1, D] i u = Returns u' \<and>
     key_caches_in' u' = (key_caches_in' u)[i := Some kc] \<and>
     key_caches_out' u ! i = Some ko \<and>
     tensor_shape kc = [H, 1, D, C - 1] \<and>
     key_tails (H * D) (C - 1) W (tensor_data kc) (tensor_data ko) \<and>
     key_caches_out' u' = (key_caches_out' u)[i := Some nko] \<and>
     value_caches_in' u' = (value_caches_in' u)[i := Some nvi] \<and>
     value_caches_out' u' = (value_caches_out' u)[i := Some nvo] \<and>
     window_size' u' = window_size' u \<and>
     key_cache_shape_in' u' = key_cache_shape_in' u \<and>
     key_cache_shape_out' u' = key_cache_shape_out' u \<and>
     value_cache_shape_in' u' = value_cache_shape_in' u \<and>
     value_cache_shape_out' u' = value_cache_shape_out' u \<and>
     sw_type' u' = sw_type' u \<and> sw_state' u' = sw_state' u \<and>
     sw_layer_count' u' = sw_layer_count' u \<and>
     sw_input_index' u' = sw_input_index' u \<and> sw_output_index' u' = sw_output_index' u \<and>
     config' (sw_model' u') = config' (sw_model' u)"
proof -
  let ?UK = "[H, 1, D, C - 1]" and ?UV = "[H, 1, C - 1, D]"
  let ?UKo = "[H, 1, D, 1]" and ?UVo = "[H, 1, 1, D]"
  let ?a = "allocator_device' (sw_model' u)"
  let ?key_cache = "fst (CreateTensor ?a ?UK UINT8)"
  let ?a1 = "snd (CreateTensor ?a ?UK UINT8)"
  let ?nko = "fst (CreateTensor ?a1 ?UKo UINT8)"
  let ?a2 = "snd (CreateTensor ?a1 ?UKo UINT8)"
  let ?value_cache = "fst (CreateTensor ?a2 ?UV UINT8)"
  let ?a3 = "snd (CreateTensor ?a2 ?UV UINT8)"
  let ?nvo = "fst (CreateTensor ?a3 ?UVo UINT8)"
  let ?a4 = "snd (CreateTensor ?a3 ?UVo UINT8)"
  from kin obtain ki where ki: "key_caches_in' u ! i = Some ki"
    "length (tensor_data ki) = SizeOf UINT8 * nat (ElementCountFromShape [H, 1, D, C - W])"
    by (rule tensor_okD)
  from kout obtain ko where ko: "key_caches_out' u ! i = Some ko"
    "length (tensor_data ko) = SizeOf UINT8 * nat (ElementCountFromShape [H, 1, D, W])"
    by (rule tensor_okD)
  from vin obtain vi where vi: "value_caches_in' u ! i = Some vi"
    "length (tensor_data vi) = SizeOf UINT8 * nat (ElementCountFromShape [H, 1, C - W, D])"
    by (rule tensor_okD)
  from vout obtain vo where vo: "value_caches_out' u ! i = Some vo"
    "length (tensor_data vo) = SizeOf UINT8 * nat (ElementCountFromShape [H, 1, W, D])"
    by (rule tensor_okD)
  have nn: "0 \<le> H * D" "0 \<le> C - W" "0 \<le> C - 1" "0 \<le> W" using H D W by simp_all
  have lk: "int (length (tensor_data ki)) = H * D * (C - W)"
    "int (length (tensor_data ko)) = H * D * W"
    "int (length (tensor_data ?key_cache)) = H * D * (C - 1)"
    using ki(2) ko(2) nn by (simp_all add: ElementCount_4')
  have lv: "int (length (tensor_data vi)) = H * ((C - W) * D)"
    "int (length (tensor_data vo)) = H * (W * D)"
    "int (length (tensor_data ?value_cache)) = H * ((C - 1) * D)"
    using vi(2) vo(2) nn H D by (simp_all add: ElementCount_4' mult.assoc)
  have "\<exists>d. concat_key_rows (H * D) (C - W) W (C - 1) W (tensor_data ki) (tensor_data ko)
        (tensor_data ?key_cache) = Returns d \<and>
     length d = length (tensor_data ?key_cache) \<and> key_tails (H * D) (C - 1) W d (tensor_data ko)"
    by (rule concat_key_rows_spec) (use W nn lk in simp_all)
  then obtain kd where kd: "concat_key_rows (H * D) (C - W) W (C - 1) W (tensor_data ki) (tensor_data ko)
        (tensor_data ?key_cache) = Returns kd"
    and tails: "key_tails (H * D) (C - 1) W kd (tensor_data ko)" by blast
  have "\<exists>d. concat_value_rows H (C - W) D W D (C - 1) D W (tensor_data vi) (tensor_data vo)
        (tensor_data ?value_cache) = Returns d \<and> length d = length (tensor_data ?value_cache)"
    by (rule concat_value_rows_spec) (use W H D fit lv in simp_all)
  then obtain vd where vd: "concat_value_rows H (C - W) D W D (C - 1) D W (tensor_data vi) (tensor_data vo)
        (tensor_data ?value_cache) = Returns vd" by blast
  let ?u' = "u\<lparr>key_caches_in' := (key_caches_in' u)[i := Some (?key_cache\<lparr>tensor_data := kd\<rparr>)],
                 key_caches_out' := (key_caches_out' u)[i := Some ?nko],
                 value_caches_in' := (value_caches_in' u)[i := Some (?value_cache\<lparr>tensor_data := vd\<rparr>)],
                 value_caches_out' := (value_caches_out' u)[i := Some ?nvo],
                 sw_model' := (sw_model' u)\<lparr>allocator_device' := ?a4\<rparr>\<rparr>"
  have run: "collapse_layer ?UK ?UV ?UKo ?UVo i u = Returns ?u'"
    using i ki(1) ko(1) vi(1) vo(1) kd vd
    by (simp add: collapse_layer_def split_beta at_def deref_def ty win shapes)
  show ?thesis
    apply (rule exI [of _ ?u'], rule exI [of _ "?key_cache\<lparr>tensor_data := kd\<rparr>"], rule exI [of _ ko])
    apply (rule exI [of _ ?nko], rule exI [of _ "?value_cache\<lparr>tensor_data := vd\<rparr>"])
    apply (rule exI [of _ ?nvo])
    using run ko(1) tails by simp
qed

lemma collapse_layers:
  fixes c :: SlidingWindowKeyValueCache and H D C W :: int
  assumes wf: "wf_SlidingWindowKeyValueCache c"
    and H: "H = num_key_value_heads (config' (sw_model' c))"
    and D: "D = head_size (config' (sw_model' c))"
    and C: "C = context_length (config' (sw_model' c))"
    and Wd: "W = window_size' c"
    and W: "1 \<le> W" "W < C" and fit: "H \<le> 1 \<or> D = 0 \<or> 2 * W \<le> C"
  shows "\<exists>c1. for_each [0..<sw_layer_count' c]
             (collapse_layer [H, 1, D, C - 1] [H, 1, C - 1, D] [H, 1, D, 1] [H, 1, 1, D]) c = Returns c1 \<and>
     sw_state' c1 = sw_state' c \<and> sw_layer_count' c1 = sw_layer_count' c \<and>
     sw_input_index' c1 = sw_input_index' c \<and> sw_output_index' c1 = sw_output_index' c \<and>
     length (key_caches_in' c1) = sw_layer_count' c \<and> length (key_caches_out' c1) = sw_layer_count' c \<and>
     length (value_caches_in' c1) = sw_layer_count' c \<and> length (value_caches_out' c1) = sw_layer_count' c \<and>
     (\<forall>l < sw_layer_count' c. \<exists>kc ko.
        key_caches_in' c1 ! l = Some kc \<and> key_caches_out' c ! l = Some ko \<and>
        tensor_shape kc = [H, 1, D, C - 1] \<and>
        key_tails (H * D) (C - 1) W (tensor_data kc) (tensor_data ko))"
proof -
  let ?L = "sw_layer_count' c"
  let ?step = "collapse_layer [H, 1, D, C - 1] [H, 1, C - 1, D] [H, 1, D, 1] [H, 1, 1, D]"
  from wf have w: "0 \<le> H" "0 \<le> D" "sw_type' c = UINT8"
    "key_cache_shape_in' c = [H, 1, D, C - W]" "key_cache_shape_out' c = [H, 1, D, W]"
    "value_cache_shape_in' c = [H, 1, C - W, D]" "value_cache_shape_out' c = [H, 1, W, D]"
    "length (key_caches_in' c) = ?L" "length (key_caches_out' c) = ?L"
    "length (value_caches_in' c) = ?L" "length (value_caches_out' c) = ?L"
    and ok: "list_all (tensor_ok [H, 1, D, C - W] UINT8) (key_caches_in' c)"
      "list_all (tensor_ok [H, 1, D, W] UINT8) (key_caches_out' c)"
      "list_all (tensor_ok [H, 1, C - W, D] UINT8) (value_caches_in' c)"
      "list_all (tensor_ok [H, 1, W, D] UINT8) (value_caches_out' c)"
    unfolding wf_SlidingWindowKeyValueCache_def Let_def H D C Wd by auto
  let ?frame = "\<lambda>u :: SlidingWindowKeyValueCache.
     window_size' u = W \<and> sw_type' u = UINT8 \<and>
     key_cache_shape_in' u = [H, 1, D, C - W] \<and> key_cache_shape_out' u = [H, 1, D, W] \<and>
     value_cache_shape_in' u = [H, 1, C - W, D] \<and> value_cache_shape_out' u = [H, 1, W, D] \<and>
     sw_state' u = sw_state' c \<and> sw_layer_count' u = ?L \<and>
     sw_input_index' u = sw_input_index' c \<and> sw_output_index' u = sw_output_index' c \<and>
     length (key_caches_in' u) = ?L \<and> length (key_caches_out' u) = ?L \<and>
     length (value_caches_in' u) = ?L \<and> length (value_caches_out' u) = ?L"
  let ?rest = "\<lambda>i (u :: SlidingWindowKeyValueCache). \<forall>l. i \<le> l \<and> l < ?L \<longrightarrow>
     key_caches_in' u ! l = key_caches_in' c ! l \<and> key_caches_out' u ! l = key_caches_out' c ! l \<and>
     value_caches_in' u ! l = value_caches_in' c ! l \<and> value_caches_out' u ! l = value_caches_out' c ! l"
  let ?done = "\<lambda>(u :: SlidingWindowKeyValueCache) l. \<exists>kc ko.
        key_caches_in' u ! l = Some kc \<and> key_caches_out' c ! l = Some ko \<and>
        tensor_shape kc = [H, 1, D, C - 1] \<and>
        key_tails (H * D) (C - 1) W (tensor_data kc) (tensor_data ko)"
  let ?I = "\<lambda>i u. ?frame u \<and> ?rest i u \<and> (\<forall>l<i. ?done u l)"
  have "\<exists>t. for_each [0..<?L] ?step c = Returns t \<and> ?I ?L t"
  proof (rule for_each_upt_rule [where I = ?I])
    show "?I 0 c" using w Wd by simp
  next
    fix i and u :: SlidingWindowKeyValueCache
    assume i: "i < ?L" and I: "?I i u"
    from I have fr: "?frame u" and rest: "?rest i u" and dn: "\<And>l. l < i \<Longrightarrow> ?done u l" by blast+
    from rest i have same: "key_caches_in' u ! i = key_caches_in' c ! i"
      "key_caches_out' u ! i = key_caches_out' c ! i"
      "value_caches_in' u ! i = value_caches_in' c ! i"
      "value_caches_out' u ! i = value_caches_out' c ! i" by simp_all
    have oki: "tensor_ok [H, 1, D, C - W] UINT8 (key_caches_in' u ! i)"
      "tensor_ok [H, 1, D, W] UINT8 (key_caches_out' u ! i)"
      "tensor_ok [H, 1, C - W, D] UINT8 (value_caches_in' u ! i)"
      "tensor_ok [H, 1, W, D] UINT8 (value_caches_out' u ! i)"
      using ok i w(8-11) unfolding same by (simp_all add: list_all_length)
    have ii: "i < length (key_caches_in' u)" "i < length (key_caches_out' u)"
      "i < length (value_caches_in' u)" "i < length (value_caches_out' u)"
      using fr i by simp_all
    from fr have f: "sw_type' u = UINT8" "window_size' u = W"
      "key_cache_shape_in' u = [H, 1, D, C - W]" "key_cache_shape_out' u = [H, 1, D, W]"
      "value_cache_shape_in' u = [H, 1, C - W, D]" "value_cache_shape_out' u = [H, 1, W, D]"
      by simp_all
    from collapse_layer_Returns [OF w(1,2) W fit f ii oki]
    obtain u' kc ko nko nvi nvo where
      run: "?step i u = Returns u'"
      and k: "key_caches_in' u' = (key_caches_in' u)[i := Some kc]"
        "key_caches_out' u ! i = Some ko" "tensor_shape kc = [H, 1, D, C - 1]"
        "key_tails (H * D) (C - 1) W (tensor_data kc) (tensor_data ko)"
      and o: "key_caches_out' u' = (key_caches_out' u)[i := Some nko]"
        "value_caches_in' u' = (value_caches_in' u)[i := Some nvi]"
        "value_caches_out' u' = (value_caches_out' u)[i := Some nvo]"
      and g: "window_size' u' = window_size' u"
        "key_cache_shape_in' u' = key_cache_shape_in' u"
        "key_cache_shape_out' u' = key_cache_shape_out' u"
        "value_cache_shape_in' u' = value_cache_shape_in' u"
        "value_cache_shape_out' u' = value_cache_shape_out' u"
        "sw_type' u' = sw_type' u" "sw_state' u' = sw_state' u"
        "sw_layer_count' u' = sw_layer_count' u"
        "sw_input_index' u' = sw_input_index' u" "sw_output_index' u' = sw_output_index' u"
      by blast
    have frame': "?frame u'" using fr k(1) o g by simp
    have rest': "?rest (Suc i) u'" using rest k(1) o by simp
    have done': "?done u' l" if "l < Suc i" for l
    proof (cases "l = i")
      case True
      with k same(2) ii show ?thesis by simp
    next
      case False
      with that have l: "l < i" by simp
      from dn [OF l] False k(1) show ?thesis by simp
    qed
    from run frame' rest' done' show "\<exists>t'. ?step i u = Returns t' \<and> ?I (Suc i) t'" by blast
  qed
  then show ?thesis by blast
qed

lemma rebind_slots_loop:
  fixes c2 :: SlidingWindowKeyValueCache
  assumes len: "length (key_caches_in' c2) = sw_layer_count' c2"
      "length (key_caches_out' c2) = sw_layer_count' c2"
      "length (value_caches_in' c2) = sw_layer_count' c2"
      "length (value_caches_out' c2) = sw_layer_count' c2"
    and inp: "slots_bound (sw_input_index' c2) (2 * sw_layer_count' c2) (inputs' (sw_state' c2))"
    and out: "slots_bound (sw_output_index' c2) (2 * sw_layer_count' c2) (outputs' (sw_state' c2))"
  shows "\<exists>c'. for_each [0..<sw_layer_count' c2] rebind_slots c2 = Returns c' \<and>
     key_caches_in' c' = key_caches_in' c2 \<and> window_size' c' = window_size' c2 \<and>
     key_cache_shape_in' c' = key_cache_shape_in' c2"
proof -
  let ?L = "sw_layer_count' c2"
  from inp obtain ii where ii: "sw_input_index' c2 = Some ii" "ii + 2 * ?L \<le> length (inputs' (sw_state' c2))"
    by (auto simp: slots_bound_def split: option.splits)
  from out obtain oi where oi: "sw_output_index' c2 = Some oi" "oi + 2 * ?L \<le> length (outputs' (sw_state' c2))"
    by (auto simp: slots_bound_def split: option.splits)
  let ?I = "\<lambda>(i :: nat) (u :: SlidingWindowKeyValueCache).
     key_caches_in' u = key_caches_in' c2 \<and> key_caches_out' u = key_caches_out' c2 \<and>
     value_caches_in' u = value_caches_in' c2 \<and> value_caches_out' u = value_caches_out' c2 \<and>
     window_size' u = window_size' c2 \<and> key_cache_shape_in' u = key_cache_shape_in' c2 \<and>
     sw_input_index' u = sw_input_index' c2 \<and> sw_output_index' u = sw_output_index' c2 \<and>
     length (inputs' (sw_state' u)) = length (inputs' (sw_state' c2)) \<and>
     length (outputs' (sw_state' u)) = length (outputs' (sw_state' c2))"
  have "\<exists>t. for_each [0..<?L] rebind_slots c2 = Returns t \<and> ?I ?L t"
    by (rule for_each_upt_rule [where I = ?I])
       (use len ii oi in \<open>auto simp: rebind_slots_def put_def deref_def at_def\<close>)
  then show ?thesis by blast
qed

lemma Sliding_example_cache:
  "\<exists>c0 c. SlidingWindowKeyValueCache_ctor (example_state 1 False) (example_model ''llama'' UINT8) = Returns c0 \<and>
     SlidingWindowKeyValueCache_Add c0 = Returns c \<and>
     wf_SlidingWindowKeyValueCache (with_key_out_data [7, 9] c) \<and>
     config' (sw_model' c) = example_config ''llama'' \<and>
     window_size' c = 2 \<and> sw_layer_count' c = 1 \<and> key_cache_shape_in' c = [1, 1, 1, 6]"
  by (simp add: SlidingWindowKeyValueCache_ctor_def SlidingWindowKeyValueCache_Add_def
      with_key_out_data_def wf_SlidingWindowKeyValueCache_def
      example_defs run_defs split_beta fill_n_def CreateTensor_def ElementCountFromShape_def
      get_def tensor_ok_def slots_bound_def)

text \<open>
  C2 (as amended). A bound sliding-window cache with window size \<open>W\<close>, \<open>1 < W < C\<close> (\<open>C\<close> the
  context length), whose value-cache copies of the same call stay inside their tensors
  (\<open>num_key_value_heads \<le> 1\<close>, or \<open>head_size = 0\<close>, or \<open>2 W \<le> C\<close>): one call of \<open>Update\<close> returns,
  sets the window size to 1, takes the key-in shape from \<open>[H, 1, D, C - W]\<close> to
  \<open>[H, 1, D, C - 1]\<close>, and leaves in every layer a key-in tensor of the new shape whose rows end
  with the \<open>W\<close> bytes of the same row of the layer's key-out tensor before the call, in their
  order.
\<close>

theorem SlidingWindowKeyValueCache_Update_collapse_keys:
  fixes c :: SlidingWindowKeyValueCache
  defines "H \<equiv> num_key_value_heads (config' (sw_model' c))"
  defines "D \<equiv> head_size (config' (sw_model' c))"
  defines "C \<equiv> context_length (config' (sw_model' c))"
  defines "W \<equiv> window_size' c"
  assumes wf: "wf_SlidingWindowKeyValueCache c"
    and W: "1 < W" "W < C"
    and fit: "H \<le> 1 \<or> D = 0 \<or> 2 * W \<le> C"
  shows "\<exists>c'. SlidingWindowKeyValueCache_Update c beam_indices current_length = Returns c' \<and>
     window_size' c' = 1 \<and>
     key_cache_shape_in' c = [H, 1, D, C - W] \<and> key_cache_shape_in' c' = [H, 1, D, C - 1] \<and>
     (\<forall>l < sw_layer_count' c. \<exists>key_in key_out.
        key_caches_in' c' ! l = Some key_in \<and> key_caches_out' c ! l = Some key_out \<and>
        tensor_shape key_in = [H, 1, D, C - 1] \<and>
        key_tails (H * D) (C - 1) W (tensor_data key_in) (tensor_data key_out))"
proof -
  have W1: "1 \<le> W" using W by simp
  have eqs: "H = num_key_value_heads (config' (sw_model' c))" "D = head_size (config' (sw_model' c))"
    "C = context_length (config' (sw_model' c))" "W = window_size' c"
    by (simp_all add: H_def D_def C_def W_def)
  from collapse_layers [OF wf eqs W1 W(2) fit]
  obtain c1 where loop1: "for_each [0..<sw_layer_count' c]
             (collapse_layer [H, 1, D, C - 1] [H, 1, C - 1, D] [H, 1, D, 1] [H, 1, 1, D]) c = Returns c1"
    and fr: "sw_state' c1 = sw_state' c" "sw_layer_count' c1 = sw_layer_count' c"
      "sw_input_index' c1 = sw_input_index' c" "sw_output_index' c1 = sw_output_index' c"
      "length (key_caches_in' c1) = sw_layer_count' c" "length (key_caches_out' c1) = sw_layer_count' c"
      "length (value_caches_in' c1) = sw_layer_count' c" "length (value_caches_out' c1) = sw_layer_count' c"
    and dn: "\<forall>l < sw_layer_count' c. \<exists>kc ko.
        key_caches_in' c1 ! l = Some kc \<and> key_caches_out' c ! l = Some ko \<and>
        tensor_shape kc = [H, 1, D, C - 1] \<and>
        key_tails (H * D) (C - 1) W (tensor_data kc) (tensor_data ko)"
    by blast
  let ?c2 = "c1\<lparr>window_size' := 1,
              key_cache_shape_in' := [H, 1, D, C - 1],
              value_cache_shape_in' := [H, 1, C - 1, D],
              key_cache_shape_out' := [H, 1, D, 1],
              value_cache_shape_out' := [H, 1, 1, D]\<rparr>"
  from wf have slots: "slots_bound (sw_input_index' c) (2 * sw_layer_count' c) (inputs' (sw_state' c))"
      "slots_bound (sw_output_index' c) (2 * sw_layer_count' c) (outputs' (sw_state' c))"
    and kin: "key_cache_shape_in' c = [H, 1, D, C - W]"
    unfolding wf_SlidingWindowKeyValueCache_def Let_def H_def D_def C_def W_def by auto
  have "\<exists>c'. for_each [0..<sw_layer_count' ?c2] rebind_slots ?c2 = Returns c' \<and>
     key_caches_in' c' = key_caches_in' ?c2 \<and> window_size' c' = window_size' ?c2 \<and>
     key_cache_shape_in' c' = key_cache_shape_in' ?c2"
    by (rule rebind_slots_loop) (use fr slots in simp_all)
  then obtain c' where loop2: "for_each [0..<sw_layer_count' c1] rebind_slots ?c2 = Returns c'"
    and same: "key_caches_in' c' = key_caches_in' c1" "window_size' c' = 1"
      "key_cache_shape_in' c' = [H, 1, D, C - 1]"
    by auto
  have ne: "window_size' c \<noteq> 1" using W unfolding W_def by simp
  have "SlidingWindowKeyValueCache_Update c beam_indices current_length = Returns c'"
    unfolding SlidingWindowKeyValueCache_Update_collapse [OF ne]
    using loop1 loop2 by (simp add: H_def D_def C_def)
  with same dn kin show ?thesis by simp
qed

theorem SlidingWindowKeyValueCache_Update_collapse_keys_witness:
  "\<exists>c0 c c'.
     SlidingWindowKeyValueCache_ctor (example_state 1 False) (example_model ''llama'' UINT8) = Returns c0 \<and>
     SlidingWindowKeyValueCache_Add c0 = Returns c \<and>
     window_size' c = 2 \<and> key_cache_shape_in' c = [1, 1, 1, 6] \<and>
     SlidingWindowKeyValueCache_Update (with_key_out_data [7, 9] c) [] 3 = Returns c' \<and>
     window_size' c' = 1 \<and> key_cache_shape_in' c' = [1, 1, 1, 7] \<and>
     (\<exists>key_in. key_caches_in' c' ! 0 = Some key_in \<and> tensor_shape key_in = [1, 1, 1, 7] \<and>
        cache_row_tail 7 2 (tensor_data key_in) 0 = [7, 9])"
proof -
  from Sliding_example_cache obtain c0 c where
    c: "SlidingWindowKeyValueCache_ctor (example_state 1 False) (example_model ''llama'' UINT8) = Returns c0"
      "SlidingWindowKeyValueCache_Add c0 = Returns c"
    and wf: "wf_SlidingWindowKeyValueCache (with_key_out_data [7, 9] c)"
    and cfg: "config' (sw_model' c) = example_config ''llama''"
    and v: "window_size' c = 2" "sw_layer_count' c = 1" "key_cache_shape_in' c = [1, 1, 1, 6]"
    by blast
  let ?c = "with_key_out_data [7, 9] c"
  have p: "config' (sw_model' ?c) = example_config ''llama''" "window_size' ?c = 2"
    "sw_layer_count' ?c = 1"
    using cfg v by (simp_all add: with_key_out_data_def)
  have ko: "tensor_data ko = [7, 9]" if "key_caches_out' ?c ! 0 = Some ko" for ko
    using that wf p
    by (auto simp: with_key_out_data_def wf_SlidingWindowKeyValueCache_def Let_def
        list_all_length tensor_ok_def split: option.splits)
  from SlidingWindowKeyValueCache_Update_collapse_keys [OF wf, of "[]" 3]
  obtain c' where r: "SlidingWindowKeyValueCache_Update ?c [] 3 = Returns c'"
    and w1: "window_size' c' = 1" and sh: "key_cache_shape_in' c' = [1, 1, 1, 7]"
    and rows: "\<exists>key_in key_out.
        key_caches_in' c' ! 0 = Some key_in \<and> key_caches_out' ?c ! 0 = Some key_out \<and>
        tensor_shape key_in = [1, 1, 1, 7] \<and>
        key_tails 1 7 2 (tensor_data key_in) (tensor_data key_out)"
    unfolding p by (auto simp: example_config_def)
  from rows ko obtain key_in where k: "key_caches_in' c' ! 0 = Some key_in"
    "tensor_shape key_in = [1, 1, 1, 7]" "key_tails 1 7 2 (tensor_data key_in) [7, 9]"
    by force
  from k(3) have "cache_row_tail 7 2 (tensor_data key_in) 0 = [7, 9]"
    by (simp add: key_tails_def cache_row_def slice_def)
  with c v r w1 sh k show ?thesis by blast
qed

theorem SlidingWindowKeyValueCache_Update_collapse_keys_counterexample:
  "(case bind (SlidingWindowKeyValueCache_ctor (example_state 1 False)
               ((example_model ''llama'' UINT8)
                  \<lparr>config' := (example_config ''llama'')\<lparr>context_length := 2\<rparr>\<rparr>))
          SlidingWindowKeyValueCache_Add of
     Returns c \<Rightarrow>
       wf_SlidingWindowKeyValueCache c \<and> window_size' c = 2 \<and>
       context_length (config' (sw_model' c)) = 2 \<and> key_cache_shape_in' c = [1, 1, 1, 0] \<and>
       SlidingWindowKeyValueCache_Update c [] 3 = UndefinedBehaviour
   | _ \<Rightarrow> False) \<and>
   (case bind (SlidingWindowKeyValueCache_ctor (example_state 1 False)
               ((example_model ''llama'' UINT8)
                  \<lparr>config' := (example_config ''llama'')
                     \<lparr>context_length := 5, num_key_value_heads := 2, sliding_window_size := 3\<rparr>\<rparr>))
          SlidingWindowKeyValueCache_Add of
     Returns c \<Rightarrow>
       wf_SlidingWindowKeyValueCache c \<and> window_size' c = 3 \<and>
       context_length (config' (sw_model' c)) = 5 \<and> key_cache_shape_in' c = [2, 1, 1, 2] \<and>
       SlidingWindowKeyValueCache_Update c [] 4 = UndefinedBehaviour
   | _ \<Rightarrow> False)"
  by (simp add: SlidingWindowKeyValueCache_ctor_def SlidingWindowKeyValueCache_Add_def
      SlidingWindowKeyValueCache_Update_def std_copy_def span_ok_def store_def slice_def
      wf_SlidingWindowKeyValueCache_def
      example_defs run_defs split_beta fill_n_def CreateTensor_def ElementCountFromShape_def
      get_def tensor_ok_def slots_bound_def)

section \<open>The shared-buffer flag of the split cache\<close>











end
